(* ===== verification/QZMQ_Prelude.thy ===== *)
theory QZMQ_Prelude
  imports Main "HOL-Library.Word" "HOL-Library.Monad_Syntax"
begin

text \<open>
  The prelude of the development: byte strings, outcomes of Go calls (a value, an error
  return or a run-time panic), Go's slice and buffer primitives with their bounds checks, the
  big-endian codecs of \<open>encoding/binary\<close>, the entropy source \<open>crypto/rand\<close>, decimal and
  hexadecimal printing as \<open>fmt\<close> does it, and reachability for state machines. The
  locales \<open>fixed_codec\<close> and \<open>invariant_system\<close> state the interfaces that the wire format
  and the state machines of the later theories rely on.
\<close>

unbundle bit_operations_syntax

named_theorems wire_simps "layout and bounds facts of buffers and codecs"
named_theorems conn_simps "frame facts of the connection operations"
named_theorems sock_simps "behaviour of the socket operations"

section \<open>Bytes, outcomes\<close>

type_synonym byte = "8 word"
type_synonym bytes = "byte list"

text \<open>
  What a Go call can end with: a value, an error value, or a run-time panic. Slices are
  modelled by their contents, so \<open>nil\<close> and the empty slice are both the empty list.
\<close>

datatype panic = NilDereference | IndexOutOfRange | BadLength

datatype ('e, 'a) result = Ok 'a | Err 'e | Panic panic

fun mapOk :: "('a \<Rightarrow> 'b) \<Rightarrow> ('e, 'a) result \<Rightarrow> ('e, 'b) result" where
  "mapOk f (Ok a) = Ok (f a)"
| "mapOk f (Err e) = Err e"
| "mapOk f (Panic p) = Panic p"

fun is_panic :: "('e, 'a) result \<Rightarrow> bool" where
  "is_panic (Panic p) = True"
| "is_panic (Ok a) = False"
| "is_panic (Err e) = False"

section \<open>Buffers\<close>

text \<open>
  \<open>put_at buf off bs\<close> stores the bytes \<open>bs\<close> at offset \<open>off\<close>, as \<open>buf[off] = b\<close> and
  \<open>binary.BigEndian.PutUintN(buf[off:], v)\<close> do: \<open>None\<close> is the panic of an index out of range.
  \<open>copy_at buf off src\<close> is \<open>copy(buf[off:], src)\<close>, which copies as many bytes as fit and panics
  only if the slice expression does.
\<close>

definition put_at :: "bytes \<Rightarrow> nat \<Rightarrow> bytes \<Rightarrow> bytes option" where
  "put_at buf off bs =
     (if off + length bs \<le> length buf
      then Some (take off buf @ bs @ drop (off + length bs) buf) else None)"

definition copy_at :: "bytes \<Rightarrow> nat \<Rightarrow> bytes \<Rightarrow> bytes option" where
  "copy_at buf off src =
     (if off \<le> length buf
      then (let n = min (length src) (length buf - off)
            in Some (take off buf @ take n src @ drop (off + n) buf))
      else None)"

text \<open>Filling a fresh buffer from left to right: the written prefix grows, the zeros shrink.\<close>

lemma put_at_fill [wire_simps]:
  assumes "off = length pre" "length bs \<le> n"
  shows "put_at (pre @ replicate n 0) off bs
     = Some ((pre @ bs) @ replicate (n - length bs) 0)"
  using assms by (simp add: put_at_def)

lemma copy_at_fill [wire_simps]:
  assumes "off = length pre" "length bs \<le> n"
  shows "copy_at (pre @ replicate n 0) off bs
     = Some ((pre @ bs) @ replicate (n - length bs) 0)"
  using assms by (simp add: copy_at_def Let_def)

text \<open>The same write after a gap of \<open>k\<close> bytes that are left zero.\<close>

lemma put_at_skip:
  assumes "off = length pre + k" "k + length bs \<le> n"
  shows "put_at (pre @ replicate n 0) off bs
     = Some ((pre @ replicate k 0 @ bs) @ replicate (n - (k + length bs)) 0)"
  using assms by (simp add: put_at_def min_def)

lemma put_at_fill_fresh [wire_simps]:
  "length bs \<le> n \<Longrightarrow> put_at (replicate n 0) 0 bs = Some (bs @ replicate (n - length bs) 0)"
  by (simp add: put_at_def)

lemma put_at_length: "put_at buf off bs = Some buf' \<Longrightarrow> length buf' = length buf"
  by (auto simp: put_at_def split: if_splits)

lemma copy_at_length: "copy_at buf off bs = Some buf' \<Longrightarrow> length buf' = length buf"
  by (auto simp: copy_at_def Let_def split: if_splits)

text \<open>Reading: \<open>data[off]\<close> and \<open>data[off:]\<close>.\<close>

definition byte_at :: "bytes \<Rightarrow> nat \<Rightarrow> byte option" where
  "byte_at data off = (if off < length data then Some (data ! off) else None)"

definition slice_from :: "bytes \<Rightarrow> nat \<Rightarrow> bytes option" where
  "slice_from data off = (if off \<le> length data then Some (drop off data) else None)"

lemma byte_at_append [wire_simps]:
  "off = length pre \<Longrightarrow> byte_at (pre @ b # rest) off = Some b"
  by (simp add: byte_at_def)

lemma slice_from_append [wire_simps]:
  "off = length pre \<Longrightarrow> slice_from (pre @ rest) off = Some rest"
  by (simp add: slice_from_def)

text \<open>\<open>dst := make([]byte, n); copy(dst, src)\<close>.\<close>

definition make_copy :: "nat \<Rightarrow> bytes \<Rightarrow> bytes" where
  "make_copy n src = take n src @ replicate (n - length src) 0"

lemma length_make_copy [simp]: "length (make_copy n src) = n"
  by (simp add: make_copy_def)

lemma make_copy_append [wire_simps]: "n = length bs \<Longrightarrow> make_copy n (bs @ rest) = bs"
  by (simp add: make_copy_def)

section \<open>Big-endian integers\<close>

text \<open>\<open>encoding/binary\<close>: \<open>PutUint16/32/64\<close> and \<open>Uint16/32/64\<close>; reading from a slice that is
  too short panics (\<open>None\<close>).\<close>

primrec put_be :: "nat \<Rightarrow> 'a::len word \<Rightarrow> bytes" where
  "put_be 0 w = []"
| "put_be (Suc n) w = put_be n (drop_bit 8 w) @ [ucast w]"

definition get_be :: "bytes \<Rightarrow> 'a::len word" where
  "get_be = foldl (\<lambda>acc b. push_bit 8 acc OR ucast b) 0"

definition be16 :: "16 word \<Rightarrow> bytes" where "be16 = put_be 2"
definition be32 :: "32 word \<Rightarrow> bytes" where "be32 = put_be 4"
definition be64 :: "64 word \<Rightarrow> bytes" where "be64 = put_be 8"

definition get16 :: "bytes \<Rightarrow> 16 word option" where
  "get16 bs = (if length bs < 2 then None else Some (get_be (take 2 bs)))"

definition get32 :: "bytes \<Rightarrow> 32 word option" where
  "get32 bs = (if length bs < 4 then None else Some (get_be (take 4 bs)))"

definition get64 :: "bytes \<Rightarrow> 64 word option" where
  "get64 bs = (if length bs < 8 then None else Some (get_be (take 8 bs)))"

lemma length_put_be [simp]: "length (put_be n w) = n"
  by (induction n arbitrary: w) simp_all

lemma be16_bytes: "be16 w = [ucast (drop_bit 8 w), ucast w]"
  unfolding be16_def numeral_2_eq_2 put_be.simps by simp

lemma get_be_snoc: "get_be (bs @ [b]) = push_bit 8 (get_be bs) OR ucast b"
  by (simp add: get_be_def)

lemma get_be_put_be: "get_be (put_be n w) = take_bit (8 * n) w"
proof (induction n arbitrary: w)
  case 0
  then show ?case by (simp add: get_be_def)
next
  case (Suc n)
  show ?case
    by (rule bit_word_eqI) (auto simp: get_be_snoc Suc.IH bit_simps)
qed

lemma take_bit_get_be:
  "8 * length bs \<le> LENGTH('a) \<Longrightarrow> take_bit (8 * length bs) (get_be bs :: 'a::len word) = get_be bs"
proof (induction bs rule: rev_induct)
  case Nil
  then show ?case by (simp add: get_be_def)
next
  case (snoc b bs)
  then have "take_bit (8 * length bs) (get_be bs :: 'a word) = get_be bs" by simp
  then have IH: "bit (get_be bs :: 'a word) n \<Longrightarrow> n < 8 * length bs" for n
    by (metis bit_take_bit_iff)
  show ?case
    by (rule bit_word_eqI) (auto simp: get_be_snoc bit_simps dest: IH bit_imp_le_length)
qed

lemma put_be_get_be:
  "8 * length bs \<le> LENGTH('a) \<Longrightarrow> put_be (length bs) (get_be bs :: 'a::len word) = bs"
proof (induction bs rule: rev_induct)
  case Nil
  then show ?case by simp
next
  case (snoc b bs)
  let ?g = "get_be bs :: 'a word"
  from snoc.prems have len: "8 * length bs + 8 \<le> LENGTH('a)" by simp
  have lt: "bit ?g n \<Longrightarrow> n < 8 * length bs" for n
    using take_bit_get_be [where 'a = 'a, of bs] len by (metis add_leD1 bit_take_bit_iff)
  have "drop_bit 8 (push_bit 8 ?g OR ucast b) = ?g"
    using len by (intro bit_word_eqI) (auto simp: bit_simps dest: lt bit_imp_le_length)
  moreover have "ucast (push_bit 8 ?g OR ucast b) = b"
    using len by (intro bit_word_eqI) (auto simp: bit_simps dest: bit_imp_le_length)
  ultimately show ?case using snoc by (simp add: get_be_snoc)
qed

text \<open>The interface of a fixed-width integer codec.\<close>

locale fixed_codec =
  fixes put :: "'w \<Rightarrow> bytes" and get :: "bytes \<Rightarrow> 'w option" and width :: nat
  assumes put_width: "length (put w) = width"
    and get_put: "get (put w @ rest) = Some w"
    and put_get: "get bs = Some w \<Longrightarrow> put w = take width bs"
    and get_enough: "width \<le> length bs \<Longrightarrow> \<exists>w. get bs = Some w"
    and get_short: "length bs < width \<Longrightarrow> get bs = None"
begin

lemma put_inject: "put v = put w \<longleftrightarrow> v = w"
  by (metis append_Nil2 get_put option.inject)

lemma put_append_inject: "put v @ xs = put w @ ys \<longleftrightarrow> v = w \<and> xs = ys"
  by (metis append_eq_append_conv get_put option.inject put_width)

lemma get_put_exact: "get (put w) = Some w"
  using get_put [of w "[]"] by simp

lemma get_Some_iff: "(\<exists>w. get bs = Some w) \<longleftrightarrow> width \<le> length bs"
  using get_enough get_short by (metis not_less option.distinct(1))

lemma get_take: "n \<le> length bs \<Longrightarrow> width \<le> n \<Longrightarrow> get (take n bs) = get bs"
  by (metis append_take_drop_id get_Some_iff get_put length_take min.absorb2 min.absorb4
      put_get take_take)

end

lemma get_be_put_be_full: "8 * n = LENGTH('a) \<Longrightarrow> get_be (put_be n w) = (w :: 'a::len word)"
  by (simp add: get_be_put_be)

lemma put_be_take_get_be:
  "8 * n = LENGTH('a) \<Longrightarrow> n \<le> length bs
     \<Longrightarrow> put_be n (get_be (take n bs) :: 'a::len word) = take n bs"
  using put_be_get_be [where 'a = 'a, of "take n bs"] by (simp add: min_absorb2)

interpretation u16: fixed_codec be16 get16 2
  by unfold_locales
    (auto simp: be16_def get16_def get_be_put_be_full put_be_take_get_be split: if_splits)

interpretation u32: fixed_codec be32 get32 4
  by unfold_locales
    (auto simp: be32_def get32_def get_be_put_be_full put_be_take_get_be split: if_splits)

interpretation u64: fixed_codec be64 get64 8
  by unfold_locales
    (auto simp: be64_def get64_def get_be_put_be_full put_be_take_get_be split: if_splits)

lemmas codec_widths [simp] = u16.put_width u32.put_width u64.put_width
lemmas codec_reads [wire_simps] =
  u16.get_put u32.get_put u64.get_put u16.get_put_exact u32.get_put_exact u64.get_put_exact


text \<open>Length fields: distinct lengths below the modulus have distinct codes.\<close>

lemma of_nat_word_inject:
  assumes "m < 2 ^ LENGTH('a)" "n < 2 ^ LENGTH('a)"
  shows "(of_nat m :: 'a::len word) = of_nat n \<longleftrightarrow> m = n"
  using assms by (metis mod_less unat_of_nat)

section \<open>Entropy\<close>

text \<open>
  \<open>rand.Read(buf)\<close> on a tape of random bytes still to be delivered. The result is the buffer
  (the part that could not be filled stays zero), whether an error was returned, and the rest
  of the tape. Every theorem quantifies over the tape, a failing source being a short tape.
\<close>

definition rand_Read :: "nat \<Rightarrow> bytes \<Rightarrow> bytes \<times> bool \<times> bytes" where
  "rand_Read n tape = (make_copy n tape, length tape < n, drop n tape)"

lemma rand_Read_length: "rand_Read n tape = (buf, err, tape') \<Longrightarrow> length buf = n"
  by (auto simp: rand_Read_def)

lemma rand_Read_ok:
  "n \<le> length tape \<Longrightarrow> rand_Read n tape = (take n tape, False, drop n tape)"
  by (simp add: rand_Read_def make_copy_def)

section \<open>Strings\<close>

text \<open>\<open>[]byte(s)\<close> and \<open>string(bs)\<close>: a Go string is a sequence of bytes.\<close>

definition bytes_of_string :: "string \<Rightarrow> bytes" where
  "bytes_of_string s = map (\<lambda>c. of_nat (of_char c)) s"

definition string_of_bytes :: "bytes \<Rightarrow> string" where
  "string_of_bytes bs = map (\<lambda>b. char_of (unat b)) bs"

lemma char_of_unat_of_char: "char_of (unat (of_nat (of_char c) :: 8 word)) = c"
  by (simp add: unat_of_nat)

lemma string_of_bytes_of_string [simp]: "string_of_bytes (bytes_of_string s) = s"
  by (simp add: string_of_bytes_def bytes_of_string_def char_of_unat_of_char comp_def)

lemma bytes_of_string_of_bytes [simp]: "bytes_of_string (string_of_bytes bs) = bs"
proof (induction bs)
  case (Cons b bs)
  have "unat b < 256" using unsigned_less [of b, where 'a = nat] by simp
  with Cons show ?case by (simp add: bytes_of_string_def string_of_bytes_def)
qed (simp add: bytes_of_string_def string_of_bytes_def)

lemma bytes_of_string_inject [simp]: "bytes_of_string s = bytes_of_string t \<longleftrightarrow> s = t"
  by (metis string_of_bytes_of_string)

lemma length_bytes_of_string [simp]: "length (bytes_of_string s) = length s"
  by (simp add: bytes_of_string_def)

lemma bytes_of_string_append: "bytes_of_string (s @ t) = bytes_of_string s @ bytes_of_string t"
  by (simp add: bytes_of_string_def)

lemma string_of_bytes_append: "string_of_bytes (s @ t) = string_of_bytes s @ string_of_bytes t"
  by (simp add: string_of_bytes_def)

text \<open>\<open>%d\<close> of an unsigned integer and the digits of \<open>%p\<close>.\<close>

definition digit_char :: "nat \<Rightarrow> char" where
  "digit_char d = (if d < 10 then char_of (48 + d) else char_of (87 + d))"

definition char_digit :: "char \<Rightarrow> nat" where
  "char_digit c = (if of_char c < (58::nat) then of_char c - 48 else of_char c - 87)"

fun digits_in :: "nat \<Rightarrow> nat \<Rightarrow> string" where
  "digits_in b n = (if b \<le> 1 \<or> n < b then [digit_char n]
     else digits_in b (n div b) @ [digit_char (n mod b)])"

declare digits_in.simps [simp del]

definition read_digits :: "nat \<Rightarrow> string \<Rightarrow> nat" where
  "read_digits b = foldl (\<lambda>acc c. acc * b + char_digit c) 0"

lemma char_digit_char: "d < 16 \<Longrightarrow> char_digit (digit_char d) = d"
  by (auto simp: char_digit_def digit_char_def)

lemma read_digits_in: "1 < b \<Longrightarrow> b \<le> 16 \<Longrightarrow> read_digits b (digits_in b n) = n"
proof (induction b n rule: digits_in.induct)
  case (1 b n)
  show ?case
  proof (cases "n < b")
    case True
    with "1.prems" show ?thesis
      by (simp add: digits_in.simps [of b n] read_digits_def char_digit_char)
  next
    case False
    with 1 have "read_digits b (digits_in b (n div b)) = n div b" by simp
    moreover have "n mod b < 16"
      using "1.prems" mod_less_divisor [of b n] by linarith
    ultimately show ?thesis using False "1.prems"
      by (simp add: digits_in.simps [of b n] read_digits_def char_digit_char)
  qed
qed

definition sprintf_d :: "nat \<Rightarrow> string" where
  "sprintf_d n = digits_in 10 n"

definition sprintf_p :: "nat \<Rightarrow> string" where
  "sprintf_p addr = ''0x'' @ digits_in 16 addr"

lemma digits_in_inject:
  assumes "1 < b" "b \<le> 16"
  shows "digits_in b m = digits_in b n \<longleftrightarrow> m = n"
  using read_digits_in [OF assms] by metis

lemma sprintf_d_inject [simp]: "sprintf_d m = sprintf_d n \<longleftrightarrow> m = n"
  by (simp add: sprintf_d_def digits_in_inject)

lemma sprintf_p_inject [simp]: "sprintf_p m = sprintf_p n \<longleftrightarrow> m = n"
  by (simp add: sprintf_p_def digits_in_inject)

section \<open>Enumerations declared with iota\<close>

text \<open>
  A Go enumeration is an integer type with named constants. Each is a datatype with one
  constructor per constant and a last constructor for the undeclared values above them; the
  code is the integer. Undeclared negative values are treated by every switch of the program
  like the other undeclared ones and are not represented.
\<close>

locale iota_enum =
  fixes code :: "'a \<Rightarrow> nat" and of_code :: "nat \<Rightarrow> 'a"
  assumes of_code_code: "of_code (code x) = x"
    and code_of_code: "code (of_code n) = n"
begin

lemma code_inject: "code x = code y \<longleftrightarrow> x = y"
  by (metis of_code_code)

lemma code_surj: "\<exists>x. code x = n"
  using code_of_code by blast

lemma code_bij: "bij code"
  using code_inject code_surj by (auto simp: bij_def inj_def surj_def) metis

end

section \<open>State machines\<close>

inductive reachable :: "('s \<Rightarrow> bool) \<Rightarrow> ('s \<Rightarrow> 'e \<Rightarrow> 's \<Rightarrow> bool) \<Rightarrow> 's \<Rightarrow> bool"
  for init step where
  reach_init: "init s \<Longrightarrow> reachable init step s"
| reach_step: "reachable init step s \<Longrightarrow> step s e t \<Longrightarrow> reachable init step t"

text \<open>Sequences of events.\<close>

inductive run :: "('s \<Rightarrow> 'e \<Rightarrow> 's \<Rightarrow> bool) \<Rightarrow> 's \<Rightarrow> 'e list \<Rightarrow> 's \<Rightarrow> bool" for step s0 where
  run_nil: "run step s0 [] s0"
| run_snoc: "run step s0 es s \<Longrightarrow> step s e t \<Longrightarrow> run step s0 (es @ [e]) t"

lemma run_Cons: "run step t es u \<Longrightarrow> step s e t \<Longrightarrow> run step s (e # es) u"
proof (induction rule: run.induct)
  case run_nil
  then show ?case using run.run_snoc [of step s "[]" s e] run.run_nil [of step s] by simp
next
  case (run_snoc es u f v)
  then show ?case using run.run_snoc [of step s "e # es"] by simp
qed

locale invariant_system =
  fixes init :: "'s \<Rightarrow> bool" and step :: "'s \<Rightarrow> 'e \<Rightarrow> 's \<Rightarrow> bool" and inv :: "'s \<Rightarrow> bool"
  assumes init_inv: "init s \<Longrightarrow> inv s"
    and step_inv: "inv s \<Longrightarrow> step s e t \<Longrightarrow> inv t"
begin

lemma reachable_inv: "reachable init step s \<Longrightarrow> inv s"
  by (induction rule: reachable.induct) (auto intro: init_inv step_inv)

lemma run_inv: "run step s es t \<Longrightarrow> inv s \<Longrightarrow> inv t"
  by (induction rule: run.induct) (auto intro: step_inv)

end

text \<open>
  A specification that is itself a state machine over the same events. A model implements it if,
  on states that satisfy the invariant, every step is a step of the specification on the
  abstract states; then every run is a run of the specification.
\<close>

locale simulation = invariant_system init step inv
  for init :: "'s \<Rightarrow> bool" and step :: "'s \<Rightarrow> 'e \<Rightarrow> 's \<Rightarrow> bool" and inv :: "'s \<Rightarrow> bool" +
  fixes abs :: "'s \<Rightarrow> 'a" and spec_init :: "'a \<Rightarrow> bool" and spec_step :: "'a \<Rightarrow> 'e \<Rightarrow> 'a \<Rightarrow> bool"
  assumes init_abs: "init s \<Longrightarrow> spec_init (abs s)"
    and step_abs: "inv s \<Longrightarrow> step s e t \<Longrightarrow> spec_step (abs s) e (abs t)"
begin

lemma reachable_abs: "reachable init step s \<Longrightarrow> reachable spec_init spec_step (abs s)"
proof (induction rule: reachable.induct)
  case (reach_init s)
  then show ?case by (intro reachable.reach_init init_abs)
next
  case (reach_step s e t)
  then show ?case by (meson reachable.reach_step reachable_inv step_abs)
qed

lemma run_abs: "run step s es t \<Longrightarrow> inv s \<Longrightarrow> run spec_step (abs s) es (abs t)"
proof (induction rule: run.induct)
  case (run_snoc es t e u)
  then show ?case by (meson run.run_snoc run_inv step_abs)
qed (rule run.run_nil)

lemma initial_run_abs: "init s \<Longrightarrow> run step s es t \<Longrightarrow> spec_init (abs s) \<and> run spec_step (abs s) es (abs t)"
  using init_abs init_inv run_abs by blast

end

end
