(* ===== verification/QZMQ_Types.thy ===== *)
theory QZMQ_Types
  imports QZMQ_Prelude
begin

text \<open>
  The public vocabulary of \<open>src/qzmq.go\<close>: the enumerations with their \<open>String\<close> methods, the
  option and statistics records, the error values of the package, the three option presets and
  \<open>validateOptions\<close>. The lemmas show that the enumerations are in bijection with their integer
  codes, that validation enforces the post-quantum policy and the rotation defaults, and that
  the presets pass it.
\<close>

section \<open>Enumerations\<close>

datatype Backend = BackendAuto | BackendGo | BackendOther nat

datatype Mode = ModeHybrid | ModePQOnly | ModeClassical | ModeOther nat

datatype SocketType = REQ | REP | DEALER | ROUTER | PUB | SUB | XPUB | XSUB | PUSH | PULL
  | PAIR | STREAM | SocketTypeOther nat

datatype KemAlgorithm = X25519 | MLKEM768 | MLKEM1024 | HybridX25519MLKEM768
  | HybridX25519MLKEM1024 | KemOther nat

datatype SignatureAlgorithm = Ed25519 | MLDSA2 | MLDSA3 | SignatureOther nat

datatype AeadAlgorithm = AES256GCM | ChaCha20Poly1305 | AeadOther nat

datatype HashAlgorithm = SHA256 | SHA384 | SHA512 | BLAKE3 | HashOther nat

datatype VerifyMode = VerifyNone | VerifyPeer | VerifyFailIfNoPeerCert | VerifyOther nat

text \<open>The integer each constant stands for (\<open>iota\<close>), and the constant of an integer.\<close>

fun Backend_code :: "Backend \<Rightarrow> nat" where
  "Backend_code BackendAuto = 0"
| "Backend_code BackendGo = 1"
| "Backend_code (BackendOther n) = 2 + n"

definition Backend_of_code :: "nat \<Rightarrow> Backend" where
  "Backend_of_code n = (if n = 0 then BackendAuto else if n = 1 then BackendGo
     else BackendOther (n - 2))"

fun SocketType_code :: "SocketType \<Rightarrow> nat" where
  "SocketType_code REQ = 0" | "SocketType_code REP = 1" | "SocketType_code DEALER = 2"
| "SocketType_code ROUTER = 3" | "SocketType_code PUB = 4" | "SocketType_code SUB = 5"
| "SocketType_code XPUB = 6" | "SocketType_code XSUB = 7" | "SocketType_code PUSH = 8"
| "SocketType_code PULL = 9" | "SocketType_code PAIR = 10" | "SocketType_code STREAM = 11"
| "SocketType_code (SocketTypeOther n) = 12 + n"

definition SocketType_of_code :: "nat \<Rightarrow> SocketType" where
  "SocketType_of_code n =
     (if n < 12 then [REQ, REP, DEALER, ROUTER, PUB, SUB, XPUB, XSUB, PUSH, PULL, PAIR, STREAM] ! n
      else SocketTypeOther (n - 12))"

fun KemAlgorithm_code :: "KemAlgorithm \<Rightarrow> nat" where
  "KemAlgorithm_code X25519 = 0"
| "KemAlgorithm_code MLKEM768 = 1"
| "KemAlgorithm_code MLKEM1024 = 2"
| "KemAlgorithm_code HybridX25519MLKEM768 = 3"
| "KemAlgorithm_code HybridX25519MLKEM1024 = 4"
| "KemAlgorithm_code (KemOther n) = 5 + n"

definition KemAlgorithm_of_code :: "nat \<Rightarrow> KemAlgorithm" where
  "KemAlgorithm_of_code n =
     (if n < 5 then [X25519, MLKEM768, MLKEM1024, HybridX25519MLKEM768, HybridX25519MLKEM1024] ! n
      else KemOther (n - 5))"

fun SignatureAlgorithm_code :: "SignatureAlgorithm \<Rightarrow> nat" where
  "SignatureAlgorithm_code Ed25519 = 0"
| "SignatureAlgorithm_code MLDSA2 = 1"
| "SignatureAlgorithm_code MLDSA3 = 2"
| "SignatureAlgorithm_code (SignatureOther n) = 3 + n"

definition SignatureAlgorithm_of_code :: "nat \<Rightarrow> SignatureAlgorithm" where
  "SignatureAlgorithm_of_code n =
     (if n < 3 then [Ed25519, MLDSA2, MLDSA3] ! n else SignatureOther (n - 3))"

lemma nat_less_numeral_cases:
  "n < (3::nat) \<Longrightarrow> n \<in> {0, 1, 2}"
  "n < (5::nat) \<Longrightarrow> n \<in> {0, 1, 2, 3, 4}"
  "n < (12::nat) \<Longrightarrow> n \<in> {0, 1, 2, 3, 4, 5, 6, 7, 8, 9, 10, 11}"
  by (simp_all, presburger+)

interpretation backend_enum: iota_enum Backend_code Backend_of_code
proof
  show "Backend_of_code (Backend_code x) = x" for x
    by (cases x) (simp_all add: Backend_of_code_def)
  show "Backend_code (Backend_of_code n) = n" for n
    by (auto simp: Backend_of_code_def)
qed

interpretation socket_enum: iota_enum SocketType_code SocketType_of_code
proof
  show "SocketType_of_code (SocketType_code x) = x" for x
    by (cases x) (simp_all add: SocketType_of_code_def)
  show "SocketType_code (SocketType_of_code n) = n" for n
    by (cases "n < 12") (auto simp: SocketType_of_code_def dest!: nat_less_numeral_cases)
qed

interpretation kem_enum: iota_enum KemAlgorithm_code KemAlgorithm_of_code
proof
  show "KemAlgorithm_of_code (KemAlgorithm_code x) = x" for x
    by (cases x) (simp_all add: KemAlgorithm_of_code_def)
  show "KemAlgorithm_code (KemAlgorithm_of_code n) = n" for n
    by (cases "n < 5") (auto simp: KemAlgorithm_of_code_def dest!: nat_less_numeral_cases)
qed

interpretation signature_enum: iota_enum SignatureAlgorithm_code SignatureAlgorithm_of_code
proof
  show "SignatureAlgorithm_of_code (SignatureAlgorithm_code x) = x" for x
    by (cases x) (simp_all add: SignatureAlgorithm_of_code_def)
  show "SignatureAlgorithm_code (SignatureAlgorithm_of_code n) = n" for n
    by (cases "n < 3") (auto simp: SignatureAlgorithm_of_code_def dest!: nat_less_numeral_cases)
qed

section \<open>String methods\<close>

fun SocketType_String :: "SocketType \<Rightarrow> string" where
  "SocketType_String REQ = ''REQ''"
| "SocketType_String REP = ''REP''"
| "SocketType_String DEALER = ''DEALER''"
| "SocketType_String ROUTER = ''ROUTER''"
| "SocketType_String PUB = ''PUB''"
| "SocketType_String SUB = ''SUB''"
| "SocketType_String XPUB = ''XPUB''"
| "SocketType_String XSUB = ''XSUB''"
| "SocketType_String PUSH = ''PUSH''"
| "SocketType_String PULL = ''PULL''"
| "SocketType_String PAIR = ''PAIR''"
| "SocketType_String STREAM = ''STREAM''"
| "SocketType_String (SocketTypeOther _) = ''UNKNOWN''"

fun KemAlgorithm_String :: "KemAlgorithm \<Rightarrow> string" where
  "KemAlgorithm_String X25519 = ''X25519''"
| "KemAlgorithm_String MLKEM768 = ''MLKEM768''"
| "KemAlgorithm_String MLKEM1024 = ''MLKEM1024''"
| "KemAlgorithm_String HybridX25519MLKEM768 = ''HybridX25519MLKEM768''"
| "KemAlgorithm_String HybridX25519MLKEM1024 = ''HybridX25519MLKEM1024''"
| "KemAlgorithm_String (KemOther _) = ''Unknown''"

fun SignatureAlgorithm_String :: "SignatureAlgorithm \<Rightarrow> string" where
  "SignatureAlgorithm_String Ed25519 = ''Ed25519''"
| "SignatureAlgorithm_String MLDSA2 = ''MLDSA2''"
| "SignatureAlgorithm_String MLDSA3 = ''MLDSA3''"
| "SignatureAlgorithm_String (SignatureOther _) = ''Unknown''"

fun AeadAlgorithm_String :: "AeadAlgorithm \<Rightarrow> string" where
  "AeadAlgorithm_String AES256GCM = ''AES256GCM''"
| "AeadAlgorithm_String ChaCha20Poly1305 = ''ChaCha20Poly1305''"
| "AeadAlgorithm_String (AeadOther _) = ''Unknown''"

section \<open>Records\<close>

text \<open>\<open>time.Duration\<close> is a signed count of nanoseconds; \<open>time.Time\<close> values are instants on the
  same scale.\<close>

type_synonym Duration = int
type_synonym Time = int

definition Second :: Duration where "Second = 1000000000"
definition Minute :: Duration where "Minute = 60 * Second"

text \<open>\<open>Time.Sub\<close> saturates at the ends of the 64-bit range.\<close>

definition Time_Sub :: "Time \<Rightarrow> Time \<Rightarrow> Duration" where
  "Time_Sub t u = max (- (2 ^ 63)) (min (2 ^ 63 - 1) (t - u))"

record Suite =
  KEM :: KemAlgorithm
  Sign :: SignatureAlgorithm
  AEAD :: AeadAlgorithm
  Hash :: HashAlgorithm

record KeyRotationPolicy =
  MaxMessages :: "64 word"
  MaxBytes :: "64 word"
  MaxAge :: Duration

record CertificateConfig =
  CACert :: bytes
  ClientCert :: bytes
  ClientKey :: bytes
  ServerCert :: bytes
  ServerKey :: bytes
  VerifyMode :: VerifyMode

record TimeoutConfig =
  Handshake :: Duration
  Heartbeat :: Duration
  Linger :: Duration

record Options =
  Backend :: Backend
  Suite :: Suite
  Mode :: Mode
  KeyRotation :: KeyRotationPolicy
  AntiDoS :: bool
  ZeroRTT :: bool
  MaxEarlyData :: "32 word"
  Certificates :: "CertificateConfig option"
  Timeouts :: TimeoutConfig

record Stats =
  HandshakesCompleted :: "64 word"
  HandshakesFailed :: "64 word"
  MessagesEncrypted :: "64 word"
  MessagesDecrypted :: "64 word"
  stats_BytesSent :: "64 word"
  stats_BytesReceived :: "64 word"
  KeyRotations :: "64 word"
  AuthFailures :: "64 word"
  ReplayAttempts :: "64 word"

definition zeroStats :: Stats where
  "zeroStats = \<lparr>HandshakesCompleted = 0, HandshakesFailed = 0, MessagesEncrypted = 0,
     MessagesDecrypted = 0, stats_BytesSent = 0, stats_BytesReceived = 0, KeyRotations = 0,
     AuthFailures = 0, ReplayAttempts = 0\<rparr>"

record SocketMetrics =
  MessagesSent :: "64 word"
  MessagesReceived :: "64 word"
  BytesSent :: "64 word"
  BytesReceived :: "64 word"
  Errors :: "64 word"
  KeyUpdates :: "64 word"
  AverageLatency :: Duration

definition NewSocketMetrics :: SocketMetrics where
  "NewSocketMetrics = \<lparr>MessagesSent = 0, MessagesReceived = 0, BytesSent = 0,
     BytesReceived = 0, Errors = 0, KeyUpdates = 0, AverageLatency = 0\<rparr>"

text \<open>A Go \<open>interface{}\<close> value, as the option accessors pass it.\<close>

datatype gvalue = VInt int | VString string | VBool bool | VBackend Backend
  | VSocketType SocketType | VSuite Suite | VOther nat

section \<open>Errors\<close>

text \<open>
  One constructor per error value of the package, in the order of the files that create it;
  \<open>RandError\<close> is an error of \<open>crypto/rand\<close> and \<open>LibError\<close> any error passed on from a
  library. A constructor with an error argument is a wrapped error (\<open>%w\<close>).
\<close>

datatype error =
    OptionsNil | ClassicalKEMNotAllowed | ClassicalSignatureNotAllowed
  | TransportClosed | UnsupportedBackend Backend | InitBackendFailed error
  | UnknownOption string
  | ErrNotConnected | UnsupportedSocketType SocketType | CreateSocketFailed
  | SubscribeOnlyForSub | UnsubscribeOnlyForSub | UnsupportedOption string
  | UnsupportedSignatureAlgorithm | UnsupportedKEMAlgorithm | UnsupportedAEADAlgorithm
  | InvalidHybridPublicKey
  | InvalidPublicKeyType | InvalidPrivateKeyType | CiphertextTooShort
  | InvalidStateFor string | SuiteMismatch | InvalidServerSignature
  | FinishedDecryptFailed | FinishedMACFailed
  | ServerHelloTooShort | FrameTooShort | InvalidFrameLength | InvalidAADLength
  | PebbeRequiresCGO | CZMQRequiresCGO | UnknownBackend string | BackendRequiresCGO string
  | CreateTransportFailed error | CreateDealerFailed error | MarshalOrderFailed error
  | InvalidOrderMessage | UnmarshalOrderFailed error
  | RandError | LibError string

section \<open>Presets and validation\<close>

definition DefaultOptions :: Options where
  "DefaultOptions = \<lparr>Backend = BackendAuto,
     Suite = \<lparr>KEM = HybridX25519MLKEM768, Sign = MLDSA2, AEAD = AES256GCM, Hash = SHA256\<rparr>,
     Mode = ModeHybrid,
     KeyRotation = \<lparr>MaxMessages = push_bit 32 1, MaxBytes = push_bit 40 1, MaxAge = 10 * Minute\<rparr>,
     AntiDoS = True, ZeroRTT = False, MaxEarlyData = 16384, Certificates = None,
     Timeouts = \<lparr>Handshake = 5 * Second, Heartbeat = 30 * Second, Linger = 0\<rparr>\<rparr>"

definition ConservativeOptions :: Options where
  "ConservativeOptions = DefaultOptions
     \<lparr>Suite := \<lparr>KEM = MLKEM1024, Sign = MLDSA3, AEAD = AES256GCM, Hash = SHA384\<rparr>,
      Mode := ModePQOnly, ZeroRTT := False,
      KeyRotation := (KeyRotation DefaultOptions)\<lparr>MaxMessages := push_bit 20 1,
        MaxAge := 5 * Minute\<rparr>\<rparr>"

definition PerformanceOptions :: Options where
  "PerformanceOptions = DefaultOptions
     \<lparr>Suite := \<lparr>KEM = X25519, Sign = Ed25519, AEAD = ChaCha20Poly1305, Hash = BLAKE3\<rparr>,
      Mode := ModeClassical, ZeroRTT := True, AntiDoS := False\<rparr>"

text \<open>\<open>validateOptions\<close> fills its argument in place: the value of \<open>Ok\<close> is what the pointer
  refers to afterwards. The argument \<open>None\<close> is the nil pointer.\<close>

definition fillKeyRotation :: "KeyRotationPolicy \<Rightarrow> KeyRotationPolicy" where
  "fillKeyRotation k =
     (let k1 = (if MaxMessages k = 0 then k\<lparr>MaxMessages := push_bit 32 1\<rparr> else k);
          k2 = (if MaxBytes k1 = 0 then k1\<lparr>MaxBytes := push_bit 40 1\<rparr> else k1)
      in if MaxAge k2 = 0 then k2\<lparr>MaxAge := 10 * Minute\<rparr> else k2)"

definition validateOptions :: "Options option \<Rightarrow> (error, Options) result" where
  "validateOptions p = (case p of
     None \<Rightarrow> Err OptionsNil
   | Some opts \<Rightarrow>
      if Mode opts = ModePQOnly \<and> KEM (Suite opts) = X25519 then Err ClassicalKEMNotAllowed
      else if Mode opts = ModePQOnly \<and> Sign (Suite opts) = Ed25519
        then Err ClassicalSignatureNotAllowed
      else Ok (opts\<lparr>KeyRotation := fillKeyRotation (KeyRotation opts)\<rparr>))"

text \<open>The policy a transport may rely on after validation.\<close>

definition pq_policy :: "Options \<Rightarrow> bool" where
  "pq_policy opts \<longleftrightarrow> (Mode opts = ModePQOnly \<longrightarrow>
     KEM (Suite opts) \<noteq> X25519 \<and> Sign (Suite opts) \<noteq> Ed25519)"

definition rotation_set :: "KeyRotationPolicy \<Rightarrow> bool" where
  "rotation_set k \<longleftrightarrow> MaxMessages k \<noteq> 0 \<and> MaxBytes k \<noteq> 0 \<and> MaxAge k \<noteq> 0"

definition valid_options :: "Options \<Rightarrow> bool" where
  "valid_options opts \<longleftrightarrow> pq_policy opts \<and> rotation_set (KeyRotation opts)"

lemma duration_values [simp]: "Second \<noteq> 0" "Minute \<noteq> 0" "0 < Second" "0 < Minute"
  by (simp_all add: Second_def Minute_def)

lemma rotation_set_fill [simp]: "rotation_set (fillKeyRotation k)"
  by (simp add: rotation_set_def fillKeyRotation_def Let_def)

lemma fill_rotation_set: "rotation_set k \<Longrightarrow> fillKeyRotation k = k"
  by (simp add: rotation_set_def fillKeyRotation_def)

lemma fill_keeps:
  "MaxMessages k \<noteq> 0 \<Longrightarrow> MaxMessages (fillKeyRotation k) = MaxMessages k"
  "MaxBytes k \<noteq> 0 \<Longrightarrow> MaxBytes (fillKeyRotation k) = MaxBytes k"
  "MaxAge k \<noteq> 0 \<Longrightarrow> MaxAge (fillKeyRotation k) = MaxAge k"
  by (simp_all add: fillKeyRotation_def Let_def)

lemma validate_Ok_iff:
  "validateOptions (Some opts) = Ok opts' \<longleftrightarrow>
     pq_policy opts \<and> opts' = opts\<lparr>KeyRotation := fillKeyRotation (KeyRotation opts)\<rparr>"
  by (auto simp: validateOptions_def pq_policy_def)

lemma valid_options_validated: "validateOptions (Some opts) = Ok opts' \<Longrightarrow> valid_options opts'"
  by (auto simp: validate_Ok_iff valid_options_def pq_policy_def)

lemma validate_valid_options: "valid_options opts \<Longrightarrow> validateOptions (Some opts) = Ok opts"
  by (simp add: validate_Ok_iff valid_options_def fill_rotation_set)

end
