(* ===== verification/QZMQ_Wire.thy ===== *)
theory QZMQ_Wire
  imports QZMQ_Types
begin

text \<open>
  The messages of \<open>src/connection.go\<close> and their byte encodings. A \<open>marshal\<close> method is
  modelled as it is written: it allocates a zeroed buffer, writes fields at growing offsets
  and returns the buffer; \<open>None\<close> is a panic of one of the writes. An \<open>unmarshal\<close> method
  returns its verdict and the message with the fields assigned so far. The \<open>_layout\<close>
  functions are the reference descriptions of the formats; the lemmas show that the writers
  implement them, that frames survive a round trip, and what the encodings leave out.
\<close>

section \<open>Handshake messages\<close>

record extension =
  ext_typ :: "16 word"
  ext_data :: bytes

definition extKeyShare :: "16 word" where "extKeyShare = 0x0033"
definition extPQOnly :: "16 word" where "extPQOnly = 0xFF01"
definition extPSK :: "16 word" where "extPSK = 0x0029"
definition extEarlyData :: "16 word" where "extEarlyData = 0x002A"

record clientHelloMsg =
  ch_version :: byte
  ch_random :: bytes
  ch_suite :: Suite
  ch_sessionID :: bytes
  ch_extensions :: "extension list"

text \<open>The loop over the extensions, from buffer and offset to buffer and offset.\<close>

fun put_extensions :: "bytes \<Rightarrow> nat \<Rightarrow> extension list \<Rightarrow> (bytes \<times> nat) option" where
  "put_extensions buf offset [] = Some (buf, offset)"
| "put_extensions buf offset (ext # exts) = do {
     buf \<leftarrow> put_at buf offset (be16 (ext_typ ext));
     let offset = offset + 2;
     buf \<leftarrow> put_at buf offset (be16 (of_nat (length (ext_data ext))));
     let offset = offset + 2;
     buf \<leftarrow> copy_at buf offset (ext_data ext);
     let offset = offset + length (ext_data ext);
     put_extensions buf offset exts
   }"

definition clientHello_marshal :: "clientHelloMsg \<Rightarrow> bytes option" where
  "clientHello_marshal m = (
     let size = 1 + 32 + 4 + 1 + length (ch_sessionID m) + 2
           + sum_list (map (\<lambda>ext. 4 + length (ext_data ext)) (ch_extensions m));
         buf = replicate size 0;
         offset = 0
     in do {
       buf \<leftarrow> put_at buf offset [ch_version m];
       let offset = offset + 1;
       buf \<leftarrow> copy_at buf offset (ch_random m);
       let offset = offset + 32;
       let offset = offset + 4;
       buf \<leftarrow> put_at buf offset [of_nat (length (ch_sessionID m))];
       let offset = offset + 1;
       buf \<leftarrow> copy_at buf offset (ch_sessionID m);
       let offset = offset + length (ch_sessionID m);
       buf \<leftarrow> put_at buf offset (be16 (of_nat (length (ch_extensions m))));
       let offset = offset + 2;
       (buf, offset) \<leftarrow> put_extensions buf offset (ch_extensions m);
       Some (take offset buf)
     })"

record serverHelloMsg =
  sh_version :: byte
  sh_random :: bytes
  sh_suite :: Suite
  sh_sessionID :: bytes
  sh_kemPublicKey :: bytes
  sh_certificate :: bytes
  sh_signature :: bytes
  sh_cookie :: bytes
  sh_extensions :: "extension list"

definition zeroSuite :: Suite where
  "zeroSuite = \<lparr>KEM = X25519, Sign = Ed25519, AEAD = AES256GCM, Hash = SHA256\<rparr>"

text \<open>\<open>&serverHelloMsg{}\<close>.\<close>

definition zeroServerHello :: serverHelloMsg where
  "zeroServerHello = \<lparr>sh_version = 0, sh_random = [], sh_suite = zeroSuite, sh_sessionID = [],
     sh_kemPublicKey = [], sh_certificate = [], sh_signature = [], sh_cookie = [],
     sh_extensions = []\<rparr>"

text \<open>Continue with a value, or panic with the state reached so far.\<close>

definition orPanic :: "'a option \<Rightarrow> 's \<Rightarrow> ('a \<Rightarrow> ('e, 'b) result \<times> 's) \<Rightarrow> ('e, 'b) result \<times> 's"
  where "orPanic x s k = (case x of None \<Rightarrow> (Panic IndexOutOfRange, s) | Some a \<Rightarrow> k a)"

definition serverHello_unmarshal ::
  "serverHelloMsg \<Rightarrow> bytes \<Rightarrow> (error, unit) result \<times> serverHelloMsg" where
  "serverHello_unmarshal m data =
     (if length data < 34 then (Err ServerHelloTooShort, m)
      else orPanic (byte_at data 0) m (\<lambda>v. let m = m\<lparr>sh_version := v\<rparr> in
        orPanic (slice_from data 1) m (\<lambda>rest.
          (Ok (), m\<lparr>sh_random := make_copy 32 rest\<rparr>))))"

record clientKeyMsg =
  ck_kemCiphertext :: bytes
  ck_pskBinder :: bytes
  ck_clientSig :: bytes

definition clientKey_marshal :: "clientKeyMsg \<Rightarrow> bytes option" where
  "clientKey_marshal m = (
     let size = 2 + length (ck_kemCiphertext m);
         size = (if length (ck_pskBinder m) > 0 then size + (2 + length (ck_pskBinder m)) else size);
         size = (if length (ck_clientSig m) > 0 then size + (2 + length (ck_clientSig m)) else size);
         buf = replicate size 0;
         offset = 0
     in do {
       buf \<leftarrow> put_at buf offset (be16 (of_nat (length (ck_kemCiphertext m))));
       let offset = offset + 2;
       buf \<leftarrow> copy_at buf offset (ck_kemCiphertext m);
       Some buf
     })"

section \<open>Frames and control messages\<close>

record messageFrame =
  f_version :: byte
  f_streamID :: "32 word"
  f_sequenceNo :: "64 word"
  f_flags :: byte
  f_payload :: bytes
  f_aad :: bytes

definition messageFrame_marshal :: "messageFrame \<Rightarrow> bytes option" where
  "messageFrame_marshal f = (
     let size = 1 + 4 + 8 + 1 + 4 + length (f_payload f) + 2 + length (f_aad f);
         buf = replicate size 0;
         offset = 0
     in do {
       buf \<leftarrow> put_at buf offset [f_version f];
       let offset = offset + 1;
       buf \<leftarrow> put_at buf offset (be32 (f_streamID f));
       let offset = offset + 4;
       buf \<leftarrow> put_at buf offset (be64 (f_sequenceNo f));
       let offset = offset + 8;
       buf \<leftarrow> put_at buf offset [f_flags f];
       let offset = offset + 1;
       buf \<leftarrow> put_at buf offset (be32 (of_nat (length (f_payload f))));
       let offset = offset + 4;
       buf \<leftarrow> copy_at buf offset (f_payload f);
       let offset = offset + length (f_payload f);
       buf \<leftarrow> put_at buf offset (be16 (of_nat (length (f_aad f))));
       let offset = offset + 2;
       buf \<leftarrow> copy_at buf offset (f_aad f);
       Some buf
     })"

text \<open>\<open>binary.BigEndian.UintN(data[offset:])\<close>.\<close>

definition get16_at :: "bytes \<Rightarrow> nat \<Rightarrow> 16 word option" where
  "get16_at data offset = Option.bind (slice_from data offset) get16"

definition get32_at :: "bytes \<Rightarrow> nat \<Rightarrow> 32 word option" where
  "get32_at data offset = Option.bind (slice_from data offset) get32"

definition get64_at :: "bytes \<Rightarrow> nat \<Rightarrow> 64 word option" where
  "get64_at data offset = Option.bind (slice_from data offset) get64"

text \<open>The conversions \<open>int(payloadLen)\<close> and \<open>int(aadLen)\<close> are exact: \<open>int\<close> has 64 bits.\<close>

definition messageFrame_unmarshal ::
  "messageFrame \<Rightarrow> bytes \<Rightarrow> (error, unit) result \<times> messageFrame" where
  "messageFrame_unmarshal f data =
     (if length data < 18 then (Err FrameTooShort, f)
      else
      let offset = 0 in
      orPanic (byte_at data offset) f (\<lambda>v.
      let f = f\<lparr>f_version := v\<rparr>; offset = offset + 1 in
      orPanic (get32_at data offset) f (\<lambda>sid.
      let f = f\<lparr>f_streamID := sid\<rparr>; offset = offset + 4 in
      orPanic (get64_at data offset) f (\<lambda>seq.
      let f = f\<lparr>f_sequenceNo := seq\<rparr>; offset = offset + 8 in
      orPanic (byte_at data offset) f (\<lambda>fl.
      let f = f\<lparr>f_flags := fl\<rparr>; offset = offset + 1 in
      orPanic (get32_at data offset) f (\<lambda>payloadLen.
      let offset = offset + 4 in
      if length data < offset + unat payloadLen + 2 then (Err InvalidFrameLength, f)
      else
      orPanic (slice_from data offset) f (\<lambda>src.
      let f = f\<lparr>f_payload := make_copy (unat payloadLen) src\<rparr>;
          offset = offset + unat payloadLen in
      orPanic (get16_at data offset) f (\<lambda>aadLen.
      let offset = offset + 2 in
      if length data < offset + unat aadLen then (Err InvalidAADLength, f)
      else
      orPanic (slice_from data offset) f (\<lambda>src.
      (Ok (), f\<lparr>f_aad := make_copy (unat aadLen) src\<rparr>))))))))))"

record keyUpdateMessage =
  ku_timestamp :: "64 word" \<comment> \<open>an \<open>int64\<close>: its two's complement bits\<close>
  ku_newKeyID :: "64 word"

definition keyUpdate_marshal :: "keyUpdateMessage \<Rightarrow> bytes option" where
  "keyUpdate_marshal m = do {
     buf \<leftarrow> put_at (replicate 16 0) 0 (be64 (ku_timestamp m));
     put_at buf 8 (be64 (ku_newKeyID m))
   }"

record closeMessage =
  cl_Reason :: string

definition closeMessage_marshal :: "closeMessage \<Rightarrow> bytes" where
  "closeMessage_marshal m = bytes_of_string (cl_Reason m)"

section \<open>The formats\<close>

definition ext_layout :: "extension \<Rightarrow> bytes" where
  "ext_layout ext = be16 (ext_typ ext) @ be16 (of_nat (length (ext_data ext))) @ ext_data ext"

definition clientHello_layout :: "clientHelloMsg \<Rightarrow> bytes" where
  "clientHello_layout m = ch_version m # ch_random m @ replicate 4 0
     @ [of_nat (length (ch_sessionID m))] @ ch_sessionID m
     @ be16 (of_nat (length (ch_extensions m))) @ concat (map ext_layout (ch_extensions m))"

definition clientKey_layout :: "clientKeyMsg \<Rightarrow> bytes" where
  "clientKey_layout m = be16 (of_nat (length (ck_kemCiphertext m))) @ ck_kemCiphertext m
     @ replicate (if ck_pskBinder m = [] then 0 else 2 + length (ck_pskBinder m)) 0
     @ replicate (if ck_clientSig m = [] then 0 else 2 + length (ck_clientSig m)) 0"

definition frame_layout :: "messageFrame \<Rightarrow> bytes" where
  "frame_layout f = f_version f # be32 (f_streamID f) @ be64 (f_sequenceNo f) @ f_flags f
     # be32 (of_nat (length (f_payload f))) @ f_payload f
     @ be16 (of_nat (length (f_aad f))) @ f_aad f"

text \<open>The sizes the length fields of a frame can carry.\<close>

definition frame_fits :: "messageFrame \<Rightarrow> bool" where
  "frame_fits f \<longleftrightarrow> length (f_payload f) < 2 ^ 32 \<and> length (f_aad f) < 2 ^ 16"

lemma length_ext_layout: "length (ext_layout ext) = 4 + length (ext_data ext)"
  by (simp add: ext_layout_def)

lemma length_concat_ext_layout:
  "length (concat (map ext_layout exts)) = sum_list (map (\<lambda>ext. 4 + length (ext_data ext)) exts)"
  by (induction exts) (simp_all add: length_ext_layout)

lemma put_extensions_fill:
  "offset = length pre \<Longrightarrow> length (concat (map ext_layout exts)) \<le> n \<Longrightarrow>
   put_extensions (pre @ replicate n 0) offset exts =
     Some ((pre @ concat (map ext_layout exts))
             @ replicate (n - length (concat (map ext_layout exts))) 0,
           length pre + length (concat (map ext_layout exts)))"
proof (induction exts arbitrary: pre offset n)
  case Nil
  then show ?case by simp
next
  case (Cons ext exts)
  let ?pre = "pre @ ext_layout ext" and ?n = "n - length (ext_layout ext)"
  have "put_extensions (pre @ replicate n 0) offset (ext # exts)
      = put_extensions (?pre @ replicate ?n 0) (length ?pre) exts"
    using Cons.prems
    by (simp add: put_at_fill copy_at_fill ext_layout_def del: append_assoc replicate_append_same)
       (simp add: ext_layout_def eval_nat_numeral)
  also have "\<dots> = Some ((?pre @ concat (map ext_layout exts))
       @ replicate (?n - length (concat (map ext_layout exts))) 0,
       length ?pre + length (concat (map ext_layout exts)))"
    using Cons.prems by (intro Cons.IH) simp_all
  finally show ?case by simp
qed

lemmas fill_simps = Let_def put_at_fill copy_at_fill put_at_fill_fresh

lemma clientHello_marshal_eq:
  assumes "length (ch_random m) = 32"
  shows "clientHello_marshal m = Some (clientHello_layout m)"
  using assms
  by (simp add: clientHello_marshal_def fill_simps put_at_skip [where k = 4]
        put_extensions_fill length_concat_ext_layout
        del: append_assoc append.simps replicate.simps)
     (simp add: clientHello_layout_def length_concat_ext_layout)

lemma clientKey_marshal_eq: "clientKey_marshal m = Some (clientKey_layout m)"
  by (simp add: clientKey_marshal_def clientKey_layout_def fill_simps replicate_add [symmetric]
      del: append_assoc append.simps replicate.simps)
     (simp add: eval_nat_numeral)

lemma messageFrame_marshal_eq: "messageFrame_marshal f = Some (frame_layout f)"
  by (simp add: messageFrame_marshal_def fill_simps
      del: append_assoc append.simps replicate.simps)
     (simp add: frame_layout_def)

lemma keyUpdate_marshal_eq:
  "keyUpdate_marshal m = Some (be64 (ku_timestamp m) @ be64 (ku_newKeyID m))"
  by (simp add: keyUpdate_marshal_def fill_simps
      del: append_assoc append.simps replicate.simps)

section \<open>Reading frames\<close>

lemma slice_from_drop: "offset \<le> length data \<Longrightarrow> slice_from data offset = Some (drop offset data)"
  by (simp add: slice_from_def)

lemma orPanic_Some [simp]: "orPanic (Some a) s k = k a"
  by (simp add: orPanic_def)

lemma get_at_enough:
  "offset + 2 \<le> length data \<Longrightarrow> get16_at data offset = Some (get_be (take 2 (drop offset data)))"
  "offset + 4 \<le> length data \<Longrightarrow> get32_at data offset = Some (get_be (take 4 (drop offset data)))"
  "offset + 8 \<le> length data \<Longrightarrow> get64_at data offset = Some (get_be (take 8 (drop offset data)))"
  by (simp_all add: get16_at_def get32_at_def get64_at_def slice_from_def
      get16_def get32_def get64_def)

lemma byte_at_enough: "offset < length data \<Longrightarrow> byte_at data offset = Some (data ! offset)"
  by (simp add: byte_at_def)

text \<open>The two length fields of a frame as the reader sees them.\<close>

definition frame_payloadLen :: "bytes \<Rightarrow> nat" where
  "frame_payloadLen data = unat (get_be (take 4 (drop 14 data)) :: 32 word)"

definition frame_aadLen :: "bytes \<Rightarrow> nat" where
  "frame_aadLen data =
     unat (get_be (take 2 (drop (18 + frame_payloadLen data) data)) :: 16 word)"

definition frame_header :: "messageFrame \<Rightarrow> bytes \<Rightarrow> messageFrame" where
  "frame_header f data = f\<lparr>f_version := data ! 0, f_streamID := get_be (take 4 (drop 1 data)),
     f_sequenceNo := get_be (take 8 (drop 5 data)), f_flags := data ! 13\<rparr>"

text \<open>The reader in closed form: three length checks, no panic.\<close>

lemma messageFrame_unmarshal_eq:
  "messageFrame_unmarshal f data =
     (let P = frame_payloadLen data; A = frame_aadLen data;
          h = frame_header f data; p = h\<lparr>f_payload := take P (drop 18 data)\<rparr>
      in if length data < 18 then (Err FrameTooShort, f)
         else if length data < 20 + P then (Err InvalidFrameLength, h)
         else if length data < 20 + P + A then (Err InvalidAADLength, p)
         else (Ok (), p\<lparr>f_aad := take A (drop (20 + P) data)\<rparr>))"
proof (cases "length data < 18")
  case True
  then show ?thesis by (simp add: messageFrame_unmarshal_def Let_def)
next
  case False
  then have "byte_at data 0 = Some (data ! 0)" by (intro byte_at_enough) linarith
  with False show ?thesis
    by (simp add: messageFrame_unmarshal_def Let_def get_at_enough byte_at_enough slice_from_drop
        frame_payloadLen_def frame_aadLen_def frame_header_def make_copy_def)
qed

text \<open>What the length fields of a written frame say.\<close>

definition frame_prefix :: "messageFrame \<Rightarrow> bytes" where
  "frame_prefix f = f_version f # be32 (f_streamID f) @ be64 (f_sequenceNo f) @ f_flags f
     # be32 (of_nat (length (f_payload f)))"

lemma frame_layout_split:
  "frame_layout f = frame_prefix f @ f_payload f @ be16 (of_nat (length (f_aad f))) @ f_aad f"
  by (simp add: frame_layout_def frame_prefix_def)

lemma length_frame_prefix [simp]: "length (frame_prefix f) = 18"
  by (simp add: frame_prefix_def)

lemma length_frame_layout: "length (frame_layout f) = 20 + length (f_payload f) + length (f_aad f)"
  by (simp add: frame_layout_split)

lemma frame_layout_parts:
  "drop 18 (frame_layout f @ rest) = f_payload f @ be16 (of_nat (length (f_aad f))) @ f_aad f @ rest"
  "drop (18 + length (f_payload f)) (frame_layout f @ rest)
     = be16 (of_nat (length (f_aad f))) @ f_aad f @ rest"
  "drop (20 + length (f_payload f)) (frame_layout f @ rest) = f_aad f @ rest"
  by (simp_all add: frame_layout_split)

lemma frame_layout_lengths:
  "frame_payloadLen (frame_layout f @ rest) = length (f_payload f) mod 2 ^ 32"
  "length (f_payload f) < 2 ^ 32 \<Longrightarrow>
     frame_aadLen (frame_layout f @ rest) = length (f_aad f) mod 2 ^ 16"
proof -
  show P: "frame_payloadLen (frame_layout f @ rest) = length (f_payload f) mod 2 ^ 32"
    by (simp add: frame_payloadLen_def frame_layout_def be32_def get_be_put_be_full unat_of_nat)
  assume "length (f_payload f) < 2 ^ 32"
  with P have "frame_payloadLen (frame_layout f @ rest) = length (f_payload f)" by simp
  then show "frame_aadLen (frame_layout f @ rest) = length (f_aad f) mod 2 ^ 16"
    by (simp add: frame_aadLen_def frame_layout_parts be16_def get_be_put_be_full unat_of_nat
        del: drop_append)
qed

lemma frame_layout_header:
  "frame_header g (frame_layout f @ rest) = g\<lparr>f_version := f_version f,
     f_streamID := f_streamID f, f_sequenceNo := f_sequenceNo f, f_flags := f_flags f\<rparr>"
  by (simp add: frame_header_def frame_layout_def nth_append nth_Cons' be32_def be64_def
      get_be_put_be_full)

text \<open>Reading back a written frame: the additional data comes back cut to the length that its
  16-bit field can express.\<close>

lemma unmarshal_layout:
  assumes "length (f_payload f) < 2 ^ 32"
  shows "messageFrame_unmarshal g (frame_layout f @ rest)
    = (Ok (), f\<lparr>f_aad := take (length (f_aad f) mod 2 ^ 16) (f_aad f)\<rparr>)"
  using assms mod_le_divisor [of "2 ^ 16" "length (f_aad f)"]
  by (simp add: messageFrame_unmarshal_eq Let_def frame_layout_lengths frame_layout_header
      frame_layout_parts length_frame_layout del: drop_append)

text \<open>
  C2. A frame whose payload and additional data fit their length fields is marshalled without
  a panic, and unmarshalling the bytes, whatever follows them and whatever the receiving
  frame held before, succeeds and restores every field.
\<close>

theorem frame_roundtrip:
  assumes "frame_fits f"
  shows "\<exists>bs. messageFrame_marshal f = Some bs \<and>
     messageFrame_unmarshal g (bs @ rest) = (Ok (), f)"
  using assms unmarshal_layout [of f g rest]
  by (simp add: messageFrame_marshal_eq frame_fits_def)

text \<open>A frame with two payload bytes and one byte of additional data, used by the witnesses.\<close>

definition sample_frame :: messageFrame where
  "sample_frame = \<lparr>f_version = 1, f_streamID = 1, f_sequenceNo = 258, f_flags = 0,
     f_payload = [104, 105], f_aad = [42]\<rparr>"

theorem frame_roundtrip_witness:
  "frame_fits sample_frame \<and>
   (\<exists>bs. messageFrame_marshal sample_frame = Some bs \<and>
     messageFrame_unmarshal (sample_frame\<lparr>f_payload := []\<rparr>) (bs @ [255]) = (Ok (), sample_frame))"
proof -
  have fits: "frame_fits sample_frame" by (simp add: frame_fits_def sample_frame_def)
  then show ?thesis using frame_roundtrip [OF fits] by blast
qed

text \<open>
  C12. Unmarshalling is total and never panics: its verdict on any byte string is decided by
  three comparisons of the length with the two length fields, and a frame is accepted exactly
  when header, payload, length field and additional data are all present.
\<close>

theorem frame_unmarshal_verdict:
  "fst (messageFrame_unmarshal f data) =
     (if length data < 18 then Err FrameTooShort
      else if length data < 20 + frame_payloadLen data then Err InvalidFrameLength
      else if length data < 20 + frame_payloadLen data + frame_aadLen data
        then Err InvalidAADLength
      else Ok ())"
  by (simp add: messageFrame_unmarshal_eq Let_def)

text \<open>Cutting a byte string into the consecutive fields of a frame.\<close>

lemma take_frame_fields:
  "take (20 + P + A) data = take 1 data @ take 4 (drop 1 data) @ take 8 (drop 5 data)
     @ take 1 (drop 13 data) @ take 4 (drop 14 data) @ take P (drop 18 data)
     @ take 2 (drop (18 + P) data) @ take A (drop (20 + P) data)"
proof -
  have "20 + P + A = 1 + (4 + (8 + (1 + (4 + (P + (2 + A))))))" by simp
  then show ?thesis by (simp only: take_add drop_drop) (simp add: add.commute)
qed

lemma be_of_taken:
  "2 \<le> length bs \<Longrightarrow> be16 (get_be (take 2 bs)) = take 2 bs"
  "4 \<le> length bs \<Longrightarrow> be32 (get_be (take 4 bs)) = take 4 bs"
  "8 \<le> length bs \<Longrightarrow> be64 (get_be (take 8 bs)) = take 8 bs"
  by (simp_all add: be16_def be32_def be64_def put_be_take_get_be)

lemma take_one: "n < length bs \<Longrightarrow> take 1 (drop n bs) = [bs ! n]"
  by (simp add: take_Suc_conv_app_nth)

lemma frame_layout_of_accepted:
  assumes "messageFrame_unmarshal g data = (Ok (), f)"
  shows "frame_layout f = take (20 + frame_payloadLen data + frame_aadLen data) data
    \<and> 20 + frame_payloadLen data + frame_aadLen data \<le> length data"
proof -
  let ?P = "frame_payloadLen data" and ?A = "frame_aadLen data"
  have len: "20 + ?P + ?A \<le> length data"
    and f: "f = (frame_header g data)\<lparr>f_payload := take ?P (drop 18 data),
      f_aad := take ?A (drop (20 + ?P) data)\<rparr>"
    using assms by (auto simp: messageFrame_unmarshal_eq Let_def split: if_splits)
  have "of_nat ?P = (get_be (take 4 (drop 14 data)) :: 32 word)"
    and "of_nat ?A = (get_be (take 2 (drop (18 + ?P) data)) :: 16 word)"
    by (simp_all add: frame_payloadLen_def frame_aadLen_def)
  moreover have "length (f_payload f) = ?P" "length (f_aad f) = ?A"
    using len by (simp_all add: f)
  moreover have "take 1 data = [data ! 0]" "take 1 (drop 13 data) = [data ! 13]"
    using len take_one [of 0 data] take_one [of 13 data] by (cases data; simp)+
  ultimately show ?thesis
    using len unfolding take_frame_fields
    by (simp add: frame_layout_def be_of_taken f frame_header_def)
qed

text \<open>
  C19. The frame encoding is canonical: marshalling the frame that was read from an accepted
  byte string gives back exactly the bytes that were consumed, so no two accepted encodings
  of the same length denote one frame.
\<close>

theorem frame_canonical:
  assumes "messageFrame_unmarshal g data = (Ok (), f)"
  shows "\<exists>rest. \<exists>bs. messageFrame_marshal f = Some bs \<and> data = bs @ rest"
  using frame_layout_of_accepted [OF assms]
  by (metis append_take_drop_id messageFrame_marshal_eq)

theorem frame_canonical_witness:
  "messageFrame_unmarshal sample_frame (frame_layout sample_frame @ [9]) = (Ok (), sample_frame) \<and>
   (\<exists>rest. \<exists>bs. messageFrame_marshal sample_frame = Some bs \<and>
      frame_layout sample_frame @ [9] = bs @ rest)"
proof -
  have ok: "messageFrame_unmarshal sample_frame (frame_layout sample_frame @ [9])
      = (Ok (), sample_frame)"
    by (subst unmarshal_layout) (simp_all add: sample_frame_def)
  then show ?thesis using frame_canonical [OF ok] by blast
qed

text \<open>
  C36. Additional data that does not fit its 16-bit length field is silently truncated: the
  frame is still marshalled without an error, the receiver accepts the bytes, and the
  additional data it sees is cut to the length modulo 65536, the rest of it being ignored.
\<close>

theorem frame_aad_truncated:
  assumes "length (f_payload f) < 2 ^ 32" "2 ^ 16 \<le> length (f_aad f)"
  shows "\<exists>bs f'. messageFrame_marshal f = Some bs \<and>
     messageFrame_unmarshal g bs = (Ok (), f') \<and>
     f_aad f' = take (length (f_aad f) mod 2 ^ 16) (f_aad f) \<and> f_aad f' \<noteq> f_aad f"
proof -
  have "length (f_aad f) mod 2 ^ 16 < length (f_aad f)"
    using assms(2) by (meson less_le_trans mod_less_divisor zero_less_numeral zero_less_power)
  then have "take (length (f_aad f) mod 2 ^ 16) (f_aad f) \<noteq> f_aad f"
    by (metis length_take less_irrefl min.absorb4)
  then show ?thesis
    using unmarshal_layout [OF assms(1), of g "[]"] by (simp add: messageFrame_marshal_eq)
qed

theorem frame_aad_truncated_witness:
  "\<exists>bs f'. messageFrame_marshal (sample_frame\<lparr>f_aad := replicate 65537 7\<rparr>) = Some bs \<and>
     messageFrame_unmarshal sample_frame bs = (Ok (), f') \<and> f_aad f' = [7]"
proof -
  let ?f = "sample_frame\<lparr>f_aad := replicate 65537 7\<rparr>"
  have h: "length (f_payload ?f) < 2 ^ 32" "2 ^ 16 \<le> length (f_aad ?f)"
    by (simp_all add: sample_frame_def)
  have "take (length (f_aad ?f) mod 2 ^ 16) (f_aad ?f) = [7]" by (simp add: numeral_eq_Suc [of num.One])
  then show ?thesis using frame_aad_truncated [OF h, of sample_frame] by auto
qed

section \<open>What the handshake messages encode\<close>

definition clientHello_fits :: "clientHelloMsg \<Rightarrow> bool" where
  "clientHello_fits m \<longleftrightarrow> length (ch_random m) = 32 \<and> length (ch_sessionID m) < 256
     \<and> length (ch_extensions m) < 65536 \<and> list_all (\<lambda>e. length (ext_data e) < 65536) (ch_extensions m)"

lemma ext_layout_append_inject:
  assumes "length (ext_data e) < 65536" "length (ext_data e') < 65536"
    and "ext_layout e @ xs = ext_layout e' @ ys"
  shows "e = e' \<and> xs = ys"
proof -
  from assms(3) have ty: "ext_typ e = ext_typ e'"
    and len: "(of_nat (length (ext_data e)) :: 16 word) = of_nat (length (ext_data e'))"
    and data: "ext_data e @ xs = ext_data e' @ ys"
    by (simp_all add: ext_layout_def u16.put_append_inject)
  from len assms(1,2) have "length (ext_data e) = length (ext_data e')"
    by (simp add: of_nat_word_inject)
  with data have "ext_data e = ext_data e'" "xs = ys" by simp_all
  with ty show ?thesis by simp
qed

lemma concat_ext_layout_inject:
  "length xs = length ys \<Longrightarrow> list_all (\<lambda>e. length (ext_data e) < 65536) xs
    \<Longrightarrow> list_all (\<lambda>e. length (ext_data e) < 65536) ys
    \<Longrightarrow> concat (map ext_layout xs) = concat (map ext_layout ys) \<Longrightarrow> xs = ys"
  by (induction xs ys rule: list_induct2) (auto dest: ext_layout_append_inject)

lemma clientHello_layout_inject:
  assumes fits: "clientHello_fits m" "clientHello_fits m'"
    and eq: "clientHello_layout m = clientHello_layout m'"
  shows "m\<lparr>ch_suite := s\<rparr> = m'\<lparr>ch_suite := s\<rparr>"
proof -
  from fits have lens: "length (ch_random m) = length (ch_random m')"
    by (simp add: clientHello_fits_def)
  with eq have hd: "ch_version m = ch_version m'" "ch_random m = ch_random m'"
    and sid_len: "(of_nat (length (ch_sessionID m)) :: 8 word) = of_nat (length (ch_sessionID m'))"
    and rest: "ch_sessionID m @ be16 (of_nat (length (ch_extensions m)))
        @ concat (map ext_layout (ch_extensions m))
      = ch_sessionID m' @ be16 (of_nat (length (ch_extensions m')))
        @ concat (map ext_layout (ch_extensions m'))"
    by (simp_all add: clientHello_layout_def)
  from sid_len fits have "length (ch_sessionID m) = length (ch_sessionID m')"
    by (simp add: clientHello_fits_def of_nat_word_inject)
  with rest have sid: "ch_sessionID m = ch_sessionID m'"
    and n: "(of_nat (length (ch_extensions m)) :: 16 word) = of_nat (length (ch_extensions m'))"
    and exts: "concat (map ext_layout (ch_extensions m)) = concat (map ext_layout (ch_extensions m'))"
    by (simp_all add: u16.put_append_inject)
  from n fits have "length (ch_extensions m) = length (ch_extensions m')"
    by (simp add: clientHello_fits_def of_nat_word_inject)
  with exts fits have "ch_extensions m = ch_extensions m'"
    by (auto simp: clientHello_fits_def intro: concat_ext_layout_inject)
  with hd sid show ?thesis by simp
qed

lemma clientHello_layout_suite [simp]:
  "clientHello_layout (m\<lparr>ch_suite := s\<rparr>) = clientHello_layout m"
  by (simp add: clientHello_layout_def)

text \<open>
  C22. A ClientHello whose parts fit their length fields is marshalled without a panic, and its
  bytes determine every field of the message except the cipher suite, which they do not carry
  at all: two messages have the same encoding exactly when they differ at most in the suite.
  The handshake transcript therefore does not bind the offered suite.
\<close>

theorem clientHello_encodes_all_but_suite:
  assumes "clientHello_fits m" "clientHello_fits m'"
  shows "clientHello_marshal m \<noteq> None \<and>
    (clientHello_marshal m = clientHello_marshal m' \<longleftrightarrow>
       m\<lparr>ch_suite := zeroSuite\<rparr> = m'\<lparr>ch_suite := zeroSuite\<rparr>)"
proof -
  have "clientHello_marshal m = Some (clientHello_layout m)"
    "clientHello_marshal m' = Some (clientHello_layout m')"
    using assms by (simp_all add: clientHello_marshal_eq clientHello_fits_def)
  then show ?thesis
    using clientHello_layout_inject [OF assms] clientHello_layout_suite
    by (metis option.distinct(1) option.inject)
qed

definition sample_hello :: clientHelloMsg where
  "sample_hello = \<lparr>ch_version = 1, ch_random = replicate 32 5, ch_suite = zeroSuite,
     ch_sessionID = [], ch_extensions = [\<lparr>ext_typ = extPQOnly, ext_data = [1]\<rparr>]\<rparr>"

theorem clientHello_encodes_all_but_suite_witness:
  "clientHello_marshal sample_hello
     = clientHello_marshal (sample_hello\<lparr>ch_suite := Suite ConservativeOptions\<rparr>) \<and>
   clientHello_marshal sample_hello \<noteq> clientHello_marshal (sample_hello\<lparr>ch_version := 2\<rparr>)"
proof -
  have h: "clientHello_fits sample_hello"
    "clientHello_fits (sample_hello\<lparr>ch_suite := Suite ConservativeOptions\<rparr>)"
    "clientHello_fits (sample_hello\<lparr>ch_version := 2\<rparr>)"
    by (simp_all add: clientHello_fits_def sample_hello_def)
  have "sample_hello\<lparr>ch_suite := zeroSuite\<rparr> \<noteq> sample_hello\<lparr>ch_version := 2, ch_suite := zeroSuite\<rparr>"
    by (simp add: sample_hello_def)
  then show ?thesis
    using clientHello_encodes_all_but_suite [OF h(1,2)]
      clientHello_encodes_all_but_suite [OF h(1,3)] by simp
qed

text \<open>Of a ClientKey message only the KEM ciphertext is written: the bytes reserved for the PSK
  binder and the client signature stay zero.\<close>

lemma clientKey_signature_not_sent:
  assumes "length (ck_pskBinder m) = length (ck_pskBinder m')"
    and "length (ck_clientSig m) = length (ck_clientSig m')"
    and "ck_kemCiphertext m = ck_kemCiphertext m'"
  shows "\<exists>bs. clientKey_marshal m = Some bs \<and> clientKey_marshal m' = Some bs \<and>
    set (drop (2 + length (ck_kemCiphertext m)) bs) \<subseteq> {0}"
  using assms
  by (auto simp: clientKey_marshal_eq clientKey_layout_def)

text \<open>
  C21. The writers, which fill a buffer of a computed size at running offsets, produce the
  messages of the reference layouts: no write falls outside the buffer, no byte is left over,
  and every field stands where the layout puts it. A ClientHello needs its 32 random bytes.
\<close>

theorem marshal_layouts:
  "(length (ch_random h) = 32 \<longrightarrow> clientHello_marshal h = Some (clientHello_layout h)) \<and>
   clientKey_marshal k = Some (clientKey_layout k) \<and>
   messageFrame_marshal f = Some (frame_layout f) \<and>
   keyUpdate_marshal u = Some (be64 (ku_timestamp u) @ be64 (ku_newKeyID u))"
  by (simp add: clientHello_marshal_eq clientKey_marshal_eq messageFrame_marshal_eq keyUpdate_marshal_eq)

theorem marshal_layouts_witness:
  "clientHello_marshal sample_hello = Some (1 # replicate 32 5 @ [0, 0, 0, 0, 0, 0, 1, 255, 1, 0, 1, 1])"
proof -
  have "be16 0xFF01 = [255, 1]" "be16 1 = [0, 1]" by (simp_all add: be16_bytes drop_bit_eq_div)
  moreover have "replicate 4 0 = [0, 0, 0, 0 :: byte]" by (simp add: eval_nat_numeral)
  ultimately have "clientHello_layout sample_hello = 1 # replicate 32 5 @ [0, 0, 0, 0, 0, 0, 1, 255, 1, 0, 1, 1]"
    by (simp add: sample_hello_def clientHello_layout_def ext_layout_def extPQOnly_def)
  then show ?thesis using marshal_layouts [of sample_hello undefined undefined undefined]
    by (simp add: sample_hello_def)
qed

text \<open>A key update message has sixteen bytes, which determine it.\<close>

lemma keyUpdate_injective:
  "\<exists>bs. keyUpdate_marshal m = Some bs \<and> length bs = 16 \<and>
     (keyUpdate_marshal m' = Some bs \<longleftrightarrow> m = m')"
  by (auto simp: keyUpdate_marshal_eq u64.put_append_inject u64.put_inject)

end
