(* ===== verification/QZMQ_Crypto.thy ===== *)
theory QZMQ_Crypto
  imports QZMQ_Types
begin

text \<open>
  The cryptographic layer of \<open>src/crypto.go\<close> except its KEMs: signers, AEAD construction, key
  derivation, the Finished MAC and the anti-DoS cookies. The primitives themselves
  (\<open>crypto/hmac\<close>, \<open>crypto/ed25519\<close>, AES-GCM, \<open>golang.org/x/crypto\<close>, \<open>luxfi/crypto/mlkem\<close>) are
  the fields of the record \<open>crypto\<close>, an argument of every definition that uses them. Outputs
  of fixed size have a fixed-size type; whatever else a theorem needs of a primitive is a
  named predicate on the record.
\<close>

section \<open>Primitives\<close>

datatype hashFn = sha256_New | sha512_New384 | sha512_New

fun hash_Size :: "hashFn \<Rightarrow> nat" where
  "hash_Size sha256_New = 32"
| "hash_Size sha512_New384 = 48"
| "hash_Size sha512_New = 64"

datatype mlkemMode = mlkem_MLKEM768 | mlkem_MLKEM1024

text \<open>A key object of \<open>luxfi/crypto/mlkem\<close>, known only by the operations below.\<close>

type_synonym mlkemKey = bytes

record crypto =
  hmac_SHA256 :: "bytes \<Rightarrow> bytes \<Rightarrow> 256 word"
    \<comment> \<open>key, message\<close>
  hkdf_byte :: "hashFn \<Rightarrow> bytes \<Rightarrow> bytes \<Rightarrow> bytes \<Rightarrow> nat \<Rightarrow> byte"
    \<comment> \<open>hash, secret, salt, info: the bytes that the reader of \<open>hkdf.New\<close> delivers\<close>
  x25519 :: "bytes \<Rightarrow> bytes \<Rightarrow> 256 word option"
    \<comment> \<open>\<open>curve25519.X25519(scalar, point)\<close>\<close>
  x25519_Basepoint :: bytes
  ed25519_GenerateKey :: "bytes \<Rightarrow> (bytes \<times> bytes \<times> bytes) option"
    \<comment> \<open>from the entropy tape: public key, private key, rest of the tape\<close>
  ed25519_Sign :: "bytes \<Rightarrow> bytes \<Rightarrow> bytes"
  ed25519_Verify :: "bytes \<Rightarrow> bytes \<Rightarrow> bytes \<Rightarrow> bool"
  chacha20poly1305_New :: "bytes \<Rightarrow> bool"
    \<comment> \<open>whether the key is accepted\<close>
  aead_Seal :: "AeadAlgorithm \<Rightarrow> bytes \<Rightarrow> bytes \<Rightarrow> bytes \<Rightarrow> bytes \<Rightarrow> bytes"
    \<comment> \<open>cipher, key, nonce, plaintext, additional data\<close>
  aead_Open :: "AeadAlgorithm \<Rightarrow> bytes \<Rightarrow> bytes \<Rightarrow> bytes \<Rightarrow> bytes \<Rightarrow> bytes option"
  mlkem_GenerateKeyPair :: "mlkemMode \<Rightarrow> bytes \<Rightarrow> (mlkemKey \<times> mlkemKey \<times> bytes) option"
  mlkem_Encapsulate :: "mlkemKey \<Rightarrow> bytes \<Rightarrow> (bytes \<times> bytes \<times> bytes) option"
    \<comment> \<open>ciphertext, shared secret, rest of the tape\<close>
  mlkem_Decapsulate :: "mlkemKey \<Rightarrow> bytes \<Rightarrow> bytes option"
  mlkem_PublicBytes :: "mlkemKey \<Rightarrow> bytes"
  mlkem_PrivateBytes :: "mlkemKey \<Rightarrow> bytes"
  mlkem_PublicKeySize :: "mlkemMode \<Rightarrow> nat"
  mlkem_PrivateKeySize :: "mlkemMode \<Rightarrow> nat"
  mlkem_CiphertextSize :: "mlkemMode \<Rightarrow> nat"
  mlkem_SharedKeySize :: "mlkemMode \<Rightarrow> nat"

text \<open>The 32 bytes of a fixed-size output.\<close>

definition bytes32 :: "256 word \<Rightarrow> bytes" where
  "bytes32 w = put_be 32 w"

lemma length_bytes32 [simp]: "length (bytes32 w) = 32"
  by (simp add: bytes32_def)

lemma get_be_bytes32: "get_be (bytes32 w) = w"
  by (simp add: bytes32_def get_be_put_be_full)

lemma bytes32_inject [simp]: "bytes32 v = bytes32 w \<longleftrightarrow> v = w"
  using get_be_bytes32 by metis

section \<open>HKDF readers\<close>

text \<open>\<open>hkdf.New(h, secret, salt, info)\<close> and \<open>Read\<close>: a reader delivers its stream in order, at most
  255 blocks of the hash size; beyond that it returns an error, which the code ignores, and
  leaves the buffer zero.\<close>

record kdfReader =
  kdf_hash :: hashFn
  kdf_secret :: bytes
  kdf_salt :: bytes
  kdf_info :: bytes
  kdf_pos :: nat

definition hkdf_New :: "hashFn \<Rightarrow> bytes \<Rightarrow> bytes \<Rightarrow> bytes \<Rightarrow> kdfReader" where
  "hkdf_New h secret salt info =
     \<lparr>kdf_hash = h, kdf_secret = secret, kdf_salt = salt, kdf_info = info, kdf_pos = 0\<rparr>"

definition kdf_Read :: "crypto \<Rightarrow> kdfReader \<Rightarrow> nat \<Rightarrow> bytes \<times> kdfReader" where
  "kdf_Read cr k n =
     (if kdf_pos k + n \<le> 255 * hash_Size (kdf_hash k)
      then (map (hkdf_byte cr (kdf_hash k) (kdf_secret k) (kdf_salt k) (kdf_info k))
              [kdf_pos k ..< kdf_pos k + n], k\<lparr>kdf_pos := kdf_pos k + n\<rparr>)
      else (replicate n 0, k))"

lemma kdf_Read_length: "kdf_Read cr k n = (bs, k') \<Longrightarrow> length bs = n"
  by (auto simp: kdf_Read_def split: if_splits)

section \<open>Signatures\<close>

type_synonym VerifyingKey = bytes

record SigningKey =
  signingKey_data :: bytes
  signingKey_public :: VerifyingKey

datatype Signer = Ed25519Signer | MLDSASigner SignatureAlgorithm

definition getSigner :: "SignatureAlgorithm \<Rightarrow> (error, Signer) result" where
  "getSigner alg = (case alg of
     Ed25519 \<Rightarrow> Ok Ed25519Signer
   | MLDSA2 \<Rightarrow> Ok (MLDSASigner alg)
   | MLDSA3 \<Rightarrow> Ok (MLDSASigner alg)
   | SignatureOther _ \<Rightarrow> Err UnsupportedSignatureAlgorithm)"

fun Signer_PublicKeySize :: "Signer \<Rightarrow> nat" where
  "Signer_PublicKeySize Ed25519Signer = 32"
| "Signer_PublicKeySize (MLDSASigner level) = (if level = MLDSA3 then 1952 else 1312)"

fun Signer_SignatureSize :: "Signer \<Rightarrow> nat" where
  "Signer_SignatureSize Ed25519Signer = 64"
| "Signer_SignatureSize (MLDSASigner level) = (if level = MLDSA3 then 3293 else 2420)"

definition MLDSA_privateKeySize :: "SignatureAlgorithm \<Rightarrow> nat" where
  "MLDSA_privateKeySize level = (if level = MLDSA3 then 4000 else 2528)"

definition Ed25519_GenerateKey :: "crypto \<Rightarrow> bytes \<Rightarrow> (error, SigningKey) result \<times> bytes" where
  "Ed25519_GenerateKey cr tape =
     (case ed25519_GenerateKey cr tape of
        None \<Rightarrow> (Err RandError, tape)
      | Some (pub, priv, tape) \<Rightarrow>
          (Ok \<lparr>signingKey_data = priv, signingKey_public = pub\<rparr>, tape))"

definition MLDSA_GenerateKey ::
  "crypto \<Rightarrow> SignatureAlgorithm \<Rightarrow> bytes \<Rightarrow> (error, SigningKey) result \<times> bytes" where
  "MLDSA_GenerateKey cr level tape =
     (let (seed, err, tape) = rand_Read 64 tape in
      if err then (Err RandError, tape)
      else
        let kdf = hkdf_New sha512_New seed [] (bytes_of_string ''ML-DSA-keypair'');
            (privBytes, kdf) = kdf_Read cr kdf (MLDSA_privateKeySize level);
            (pubBytes, kdf) = kdf_Read cr kdf (Signer_PublicKeySize (MLDSASigner level))
        in (Ok \<lparr>signingKey_data = privBytes, signingKey_public = pubBytes\<rparr>, tape))"

fun Signer_GenerateKey :: "crypto \<Rightarrow> Signer \<Rightarrow> bytes \<Rightarrow> (error, SigningKey) result \<times> bytes" where
  "Signer_GenerateKey cr Ed25519Signer tape = Ed25519_GenerateKey cr tape"
| "Signer_GenerateKey cr (MLDSASigner level) tape = MLDSA_GenerateKey cr level tape"

text \<open>\<open>ed25519.Sign\<close> and \<open>ed25519.Verify\<close> panic on keys of the wrong length. The slice
  \<open>sk.Bytes()[:32]\<close> panics on a key of fewer bytes (a key's capacity is its length).\<close>

definition Ed25519_Sign :: "crypto \<Rightarrow> SigningKey \<Rightarrow> bytes \<Rightarrow> (error, bytes) result" where
  "Ed25519_Sign cr sk message =
     (if length (signingKey_data sk) \<noteq> 64 then Panic BadLength
      else Ok (ed25519_Sign cr (signingKey_data sk) message))"

definition MLDSA_Sign :: "crypto \<Rightarrow> SignatureAlgorithm \<Rightarrow> SigningKey \<Rightarrow> bytes \<Rightarrow> (error, bytes) result" where
  "MLDSA_Sign cr level sk message =
     (if length (signingKey_data sk) < 32 then Panic IndexOutOfRange
      else
        let sig = bytes32 (hmac_SHA256 cr (take 32 (signingKey_data sk)) message)
        in Ok (make_copy (Signer_SignatureSize (MLDSASigner level)) sig))"

fun Signer_Sign :: "crypto \<Rightarrow> Signer \<Rightarrow> SigningKey \<Rightarrow> bytes \<Rightarrow> (error, bytes) result" where
  "Signer_Sign cr Ed25519Signer sk message = Ed25519_Sign cr sk message"
| "Signer_Sign cr (MLDSASigner level) sk message = MLDSA_Sign cr level sk message"

definition Ed25519_Verify :: "crypto \<Rightarrow> VerifyingKey \<Rightarrow> bytes \<Rightarrow> bytes \<Rightarrow> (error, bool) result" where
  "Ed25519_Verify cr pk message signature =
     (if length pk \<noteq> 32 then Panic BadLength else Ok (ed25519_Verify cr pk message signature))"

definition MLDSA_Verify :: "VerifyingKey \<Rightarrow> bytes \<Rightarrow> bytes \<Rightarrow> (error, bool) result" where
  "MLDSA_Verify pk message signature = Ok (length signature \<ge> 32)"

fun Signer_Verify :: "crypto \<Rightarrow> Signer \<Rightarrow> VerifyingKey \<Rightarrow> bytes \<Rightarrow> bytes \<Rightarrow> (error, bool) result"
  where
  "Signer_Verify cr Ed25519Signer pk message signature = Ed25519_Verify cr pk message signature"
| "Signer_Verify cr (MLDSASigner level) pk message signature = MLDSA_Verify pk message signature"

lemmas MLDSA_defs = MLDSA_GenerateKey_def MLDSA_Sign_def MLDSA_Verify_def

section \<open>AEAD, key derivation, MAC, cookies\<close>

text \<open>A \<open>cipher.AEAD\<close> value: the cipher and its key.\<close>

datatype cipherAEAD = AEADCipher AeadAlgorithm bytes

definition createAEAD :: "crypto \<Rightarrow> AeadAlgorithm \<Rightarrow> bytes \<Rightarrow> (error, cipherAEAD) result" where
  "createAEAD cr algo key = (case algo of
     AES256GCM \<Rightarrow>
       (if length key = 16 \<or> length key = 24 \<or> length key = 32 then Ok (AEADCipher algo key)
        else Err (LibError ''crypto/aes: invalid key size''))
   | ChaCha20Poly1305 \<Rightarrow>
       (if chacha20poly1305_New cr key then Ok (AEADCipher algo key)
        else Err (LibError ''chacha20poly1305: bad key length''))
   | AeadOther _ \<Rightarrow> Err UnsupportedAEADAlgorithm)"

text \<open>\<open>Open(nil, nonce, ciphertext, nil)\<close>: both ciphers panic unless the nonce has 12 bytes.\<close>

fun AEAD_Open :: "crypto \<Rightarrow> cipherAEAD \<Rightarrow> bytes \<Rightarrow> bytes \<Rightarrow> (error, bytes) result" where
  "AEAD_Open cr (AEADCipher algo key) nonce ciphertext =
     (if length nonce \<noteq> 12 then Panic BadLength
      else case aead_Open cr algo key nonce ciphertext [] of
        None \<Rightarrow> Err (LibError ''message authentication failed'')
      | Some plaintext \<Rightarrow> Ok plaintext)"

record keySet =
  clientKey :: bytes
  serverKey :: bytes
  exporterSecret :: bytes

definition kdf_hash_of :: "HashAlgorithm \<Rightarrow> hashFn" where
  "kdf_hash_of hashAlgo = (case hashAlgo of
     SHA256 \<Rightarrow> sha256_New | SHA384 \<Rightarrow> sha512_New384 | SHA512 \<Rightarrow> sha512_New | _ \<Rightarrow> sha256_New)"

definition deriveKeys :: "crypto \<Rightarrow> bytes \<Rightarrow> bytes \<Rightarrow> HashAlgorithm \<Rightarrow> (error, keySet) result" where
  "deriveKeys cr kemSecret ecdheSecret hashAlgo =
     (let combined = kemSecret @ ecdheSecret;
          kdf = hkdf_New (kdf_hash_of hashAlgo) combined
            (bytes_of_string ''QZMQ-v1-Salt'') (bytes_of_string ''QZMQ-v1-Keys'');
          (ck, kdf) = kdf_Read cr kdf 32;
          (sk, kdf) = kdf_Read cr kdf 32;
          (es, kdf) = kdf_Read cr kdf 32
      in Ok \<lparr>clientKey = ck, serverKey = sk, exporterSecret = es\<rparr>)"

definition computeFinishedMAC :: "crypto \<Rightarrow> bytes \<Rightarrow> bytes \<Rightarrow> bytes" where
  "computeFinishedMAC cr key transcript = bytes32 (hmac_SHA256 cr key transcript)"

definition generateCookie :: "bytes \<Rightarrow> bytes \<times> bytes" where
  "generateCookie tape = (let (cookie, err, tape) = rand_Read 32 tape in (cookie, tape))"

definition validateCookie :: "bytes \<Rightarrow> int \<Rightarrow> bool" where
  "validateCookie cookie maxAge \<longleftrightarrow> length cookie = 32"

section \<open>Lemmas\<close>

text \<open>The contract of a signer: its own keys sign without a panic, signatures have the declared
  size, and the signer accepts them under the matching public key.\<close>

locale signer_contract =
  fixes gen :: "bytes \<Rightarrow> (error, SigningKey) result \<times> bytes"
    and sign :: "SigningKey \<Rightarrow> bytes \<Rightarrow> (error, bytes) result"
    and verify :: "VerifyingKey \<Rightarrow> bytes \<Rightarrow> bytes \<Rightarrow> (error, bool) result"
    and pkSize :: nat and sigSize :: nat
  assumes gen_pk_size: "gen tape = (Ok sk, tape') \<Longrightarrow> length (signingKey_public sk) = pkSize"
    and gen_sign: "gen tape = (Ok sk, tape') \<Longrightarrow>
      \<exists>sig. sign sk m = Ok sig \<and> length sig = sigSize \<and> verify (signingKey_public sk) m sig = Ok True"
begin

lemma signed_verifies:
  "gen tape = (Ok sk, tape') \<Longrightarrow> sign sk m = Ok sig \<Longrightarrow> verify (signingKey_public sk) m sig = Ok True"
  using gen_sign by (metis result.inject(1))

lemma sign_total: "gen tape = (Ok sk, tape') \<Longrightarrow> \<not> is_panic (sign sk m)"
  using gen_sign by (metis is_panic.simps(2))

end

lemma MLDSA_GenerateKey_sizes:
  assumes "Signer_GenerateKey cr (MLDSASigner level) tape = (Ok sk, tape')"
  shows "length (signingKey_data sk) = MLDSA_privateKeySize level
    \<and> length (signingKey_public sk) = Signer_PublicKeySize (MLDSASigner level)"
  using assms by (auto simp: MLDSA_defs Let_def split: prod.splits if_splits dest!: kdf_Read_length)

lemma MLDSA_privateKeySize_ge: "32 \<le> MLDSA_privateKeySize level"
  by (simp add: MLDSA_privateKeySize_def)

interpretation mldsa: signer_contract "Signer_GenerateKey cr (MLDSASigner level)"
  "Signer_Sign cr (MLDSASigner level)" "Signer_Verify cr (MLDSASigner level)"
  "Signer_PublicKeySize (MLDSASigner level)" "Signer_SignatureSize (MLDSASigner level)"
  for cr level
proof
  fix tape sk tape' m
  assume "Signer_GenerateKey cr (MLDSASigner level) tape = (Ok sk, tape')"
  note sizes = MLDSA_GenerateKey_sizes [OF this]
  then show "length (signingKey_public sk) = Signer_PublicKeySize (MLDSASigner level)" by blast
  from sizes have "\<not> length (signingKey_data sk) < 32"
    using MLDSA_privateKeySize_ge [of level] by simp
  then show "\<exists>sig. Signer_Sign cr (MLDSASigner level) sk m = Ok sig
      \<and> length sig = Signer_SignatureSize (MLDSASigner level)
      \<and> Signer_Verify cr (MLDSASigner level) (signingKey_public sk) m sig = Ok True"
    by (simp add: MLDSA_defs Let_def)
qed

text \<open>The stream position after consecutive reads.\<close>

lemma kdf_Read_within:
  "kdf_pos k + n \<le> 255 * hash_Size (kdf_hash k) \<Longrightarrow> kdf_Read cr k n =
     (map (hkdf_byte cr (kdf_hash k) (kdf_secret k) (kdf_salt k) (kdf_info k))
        [kdf_pos k ..< kdf_pos k + n], k\<lparr>kdf_pos := kdf_pos k + n\<rparr>)"
  by (simp add: kdf_Read_def)

lemma hash_Size_ge: "32 \<le> hash_Size h"
  by (cases h) simp_all

abbreviation key_stream :: "crypto \<Rightarrow> bytes \<Rightarrow> HashAlgorithm \<Rightarrow> nat \<Rightarrow> byte" where
  "key_stream cr secret hashAlgo \<equiv> hkdf_byte cr (kdf_hash_of hashAlgo) secret
     (bytes_of_string ''QZMQ-v1-Salt'') (bytes_of_string ''QZMQ-v1-Keys'')"

lemma deriveKeys_eq:
  "deriveKeys cr kem ecdhe h = Ok
     \<lparr>clientKey = map (key_stream cr (kem @ ecdhe) h) [0..<32],
      serverKey = map (key_stream cr (kem @ ecdhe) h) [32..<64],
      exporterSecret = map (key_stream cr (kem @ ecdhe) h) [64..<96]\<rparr>"
  using hash_Size_ge [of "kdf_hash_of h"]
  by (simp add: deriveKeys_def Let_def hkdf_New_def kdf_Read_within)

lemma deriveKeys_lengths:
  "deriveKeys cr kem ecdhe h = Ok ks \<Longrightarrow>
     length (clientKey ks) = 32 \<and> length (serverKey ks) = 32 \<and> length (exporterSecret ks) = 32"
  by (auto simp: deriveKeys_eq)

text \<open>
  C16. Key derivation never fails and never panics: it yields three keys of 32 bytes each,
  which are consecutive, non-overlapping pieces of one HKDF output keyed by the concatenation
  of the two secrets, for every hash algorithm of a suite.
\<close>

theorem deriveKeys_partition:
  "\<exists>ks. deriveKeys cr kemSecret ecdheSecret hashAlgo = Ok ks \<and>
     length (clientKey ks) = 32 \<and> length (serverKey ks) = 32 \<and> length (exporterSecret ks) = 32 \<and>
     clientKey ks @ serverKey ks @ exporterSecret ks
       = map (hkdf_byte cr (kdf_hash_of hashAlgo) (kemSecret @ ecdheSecret)
           (bytes_of_string ''QZMQ-v1-Salt'') (bytes_of_string ''QZMQ-v1-Keys'')) [0..<96]"
proof -
  have "[0..<96] = [0..<32] @ [32..<64] @ [64..<96::nat]"
    using upt_add_eq_append [of 0 32 64] upt_add_eq_append [of 32 64 32] by simp
  then show ?thesis by (simp add: deriveKeys_eq)
qed

text \<open>The BLAKE3 hash that the performance preset selects is not used: keys are derived with
  SHA-256, while the other algorithms select their own hash function.\<close>

lemma deriveKeys_blake3_is_sha256:
  "deriveKeys cr kemSecret ecdheSecret BLAKE3 = deriveKeys cr kemSecret ecdheSecret SHA256 \<and>
   kdf_hash_of (Hash (Suite PerformanceOptions)) = sha256_New \<and>
   kdf_hash_of SHA384 = sha512_New384 \<and> kdf_hash_of SHA512 = sha512_New"
  by (simp add: deriveKeys_def kdf_hash_of_def PerformanceOptions_def)

text \<open>
  C29. An ML-DSA signature is never checked: the signer signs with any key it generated and
  accepts its own signature, but it also accepts, under every public key and for every
  message, every other byte string of at least 32 bytes.
\<close>

theorem MLDSA_Verify_forgeable:
  assumes "Signer_GenerateKey cr (MLDSASigner level) tape = (Ok sk, tape')"
  shows "(\<exists>sig. Signer_Sign cr (MLDSASigner level) sk m = Ok sig \<and>
        length sig = Signer_SignatureSize (MLDSASigner level) \<and>
        Signer_Verify cr (MLDSASigner level) (signingKey_public sk) m sig = Ok True) \<and>
     (\<forall>pk m' forged. Signer_Verify cr (MLDSASigner level) pk m' forged
        = Ok (32 \<le> length forged))"
  using mldsa.gen_sign [OF assms] by (simp add: MLDSA_Verify_def)

lemma MLDSA_GenerateKey_ok:
  "64 \<le> length tape \<Longrightarrow> \<exists>sk tape'. Signer_GenerateKey cr (MLDSASigner level) tape = (Ok sk, tape')"
  by (simp add: MLDSA_GenerateKey_def rand_Read_ok Let_def split: prod.split)

text \<open>A small instance of the primitives, on which the hypotheses of later theorems hold: the
  Diffie-Hellman function is multiplication, the AEAD is the identity.\<close>

definition sample_crypto :: crypto where
  "sample_crypto = \<lparr>
     hmac_SHA256 = (\<lambda>k m. get_be k XOR get_be m),
     hkdf_byte = (\<lambda>h secret salt info i. of_nat i),
     x25519 = (\<lambda>k p. if length k = 32 \<and> length p = 32 then Some (get_be k * get_be p) else None),
     x25519_Basepoint = bytes32 1,
     ed25519_GenerateKey = (\<lambda>tape. if 64 \<le> length tape
        then Some (take 32 tape, take 64 tape, drop 64 tape) else None),
     ed25519_Sign = (\<lambda>k m. replicate 64 0),
     ed25519_Verify = (\<lambda>pk m sig. length sig = 64),
     chacha20poly1305_New = (\<lambda>k. length k = 32),
     aead_Seal = (\<lambda>a k n p ad. p),
     aead_Open = (\<lambda>a k n c ad. Some c),
     mlkem_GenerateKeyPair = (\<lambda>m tape. if 32 \<le> length tape
        then Some (take 32 tape, take 32 tape, drop 32 tape) else None),
     mlkem_Encapsulate = (\<lambda>pk tape. Some ([], make_copy 32 pk, tape)),
     mlkem_Decapsulate = (\<lambda>sk ct. Some (make_copy 32 sk)),
     mlkem_PublicBytes = id, mlkem_PrivateBytes = id,
     mlkem_PublicKeySize = (\<lambda>m. 32), mlkem_PrivateKeySize = (\<lambda>m. 32),
     mlkem_CiphertextSize = (\<lambda>m. 0), mlkem_SharedKeySize = (\<lambda>m. 32)\<rparr>"

theorem MLDSA_Verify_forgeable_witness:
  "\<exists>sk tape'. Signer_GenerateKey sample_crypto (MLDSASigner MLDSA3) (replicate 64 1) = (Ok sk, tape') \<and>
     Signer_Verify sample_crypto (MLDSASigner MLDSA3) (signingKey_public sk)
       (bytes_of_string ''pay'') (replicate 32 0) = Ok True"
proof -
  obtain sk tape' where
    gen: "Signer_GenerateKey sample_crypto (MLDSASigner MLDSA3) (replicate 64 1) = (Ok sk, tape')"
    using MLDSA_GenerateKey_ok [of "replicate 64 1"] by fastforce
  have "\<forall>pk m' forged. Signer_Verify sample_crypto (MLDSASigner MLDSA3) pk m' forged
      = Ok (32 \<le> length forged)"
    using MLDSA_Verify_forgeable [OF gen] by blast
  with gen show ?thesis by force
qed

text \<open>A generated cookie is accepted, but so is every other byte string of the same length,
  whatever its age.\<close>

lemma cookie_length_only:
  "validateCookie (fst (generateCookie tape)) maxAge \<and>
   (validateCookie cookie maxAge \<longleftrightarrow> length cookie = length (fst (generateCookie tape)))"
  by (simp add: validateCookie_def generateCookie_def rand_Read_def)

end
