(* ===== verification/QZMQ_KEM.thy ===== *)
theory QZMQ_KEM
  imports QZMQ_Crypto
begin

text \<open>
  The key encapsulation mechanisms of \<open>src/crypto.go\<close> (X25519, the ML-KEM stubs, the generic
  hybrid) and of \<open>src/mlkem_integration.go\<close> (the wrappers of \<open>luxfi/crypto/mlkem\<close> and the
  X25519/ML-KEM hybrid), as one datatype of implementations behind the interface \<open>KEM\<close>. The
  operations take the entropy tape and return what is left of it. The lemmas show that
  key, ciphertext and secret sizes are the declared ones, that X25519 and the ML-KEM hybrid
  agree on the shared secret, and that the stubs and the generic hybrid do not.
\<close>

section \<open>Keys and implementations\<close>

datatype PublicKey = publicKey bytes | mlkemPublicKey mlkemKey
  | hybridPublicKey PublicKey PublicKey

datatype PrivateKey = privateKey bytes PublicKey | mlkemPrivateKey mlkemKey PublicKey
  | hybridPrivateKey PrivateKey PrivateKey PublicKey

text \<open>The \<open>Bytes\<close> methods of the key types of \<open>mlkem_integration.go\<close>.\<close>

definition mlkemPublicKey_Bytes :: "crypto \<Rightarrow> mlkemKey \<Rightarrow> bytes" where
  [simp]: "mlkemPublicKey_Bytes cr key = mlkem_PublicBytes cr key"

definition mlkemPrivateKey_Bytes :: "crypto \<Rightarrow> mlkemKey \<Rightarrow> bytes" where
  [simp]: "mlkemPrivateKey_Bytes cr key = mlkem_PrivateBytes cr key"

definition hybridPublicKey_Bytes :: "bytes \<Rightarrow> bytes \<Rightarrow> bytes" where
  [simp]: "hybridPublicKey_Bytes classical pq = classical @ pq"

definition hybridPrivateKey_Bytes :: "bytes \<Rightarrow> bytes \<Rightarrow> bytes" where
  [simp]: "hybridPrivateKey_Bytes classical pq = classical @ pq"

fun PublicKey_Bytes :: "crypto \<Rightarrow> PublicKey \<Rightarrow> bytes" where
  "PublicKey_Bytes cr (publicKey data) = data"
| "PublicKey_Bytes cr (mlkemPublicKey key) = mlkemPublicKey_Bytes cr key"
| "PublicKey_Bytes cr (hybridPublicKey classical pq) =
     hybridPublicKey_Bytes (PublicKey_Bytes cr classical) (PublicKey_Bytes cr pq)"

fun PrivateKey_Bytes :: "crypto \<Rightarrow> PrivateKey \<Rightarrow> bytes" where
  "PrivateKey_Bytes cr (privateKey data public) = data"
| "PrivateKey_Bytes cr (mlkemPrivateKey key public) = mlkemPrivateKey_Bytes cr key"
| "PrivateKey_Bytes cr (hybridPrivateKey classical pq public) =
     hybridPrivateKey_Bytes (PrivateKey_Bytes cr classical) (PrivateKey_Bytes cr pq)"

fun PrivateKey_Public :: "PrivateKey \<Rightarrow> PublicKey" where
  "PrivateKey_Public (privateKey data public) = public"
| "PrivateKey_Public (mlkemPrivateKey key public) = public"
| "PrivateKey_Public (hybridPrivateKey classical pq public) = public"

text \<open>The implementations. The two fields of \<open>HybridKEM\<close> are interface values and may be nil.\<close>

datatype KEM = X25519KEM | MLKEM768Type | MLKEM1024Type
  | HybridKEM "KEM option" "KEM option"
  | RealMLKEM768 | RealMLKEM1024 | HybridMLKEM

definition NewHybridKEM :: "KEM option \<Rightarrow> KEM option \<Rightarrow> KEM" where
  "NewHybridKEM classical pq = HybridKEM classical pq"

definition NewHybridMLKEM :: KEM where
  "NewHybridMLKEM = HybridMLKEM"

definition getKEM :: "KemAlgorithm \<Rightarrow> (error, KEM) result" where
  "getKEM alg = (case alg of
     X25519 \<Rightarrow> Ok X25519KEM
   | MLKEM768 \<Rightarrow> Ok MLKEM768Type
   | MLKEM1024 \<Rightarrow> Ok MLKEM1024Type
   | HybridX25519MLKEM768 \<Rightarrow> Ok (HybridKEM None None)
   | _ \<Rightarrow> Err UnsupportedKEMAlgorithm)"

section \<open>Sizes\<close>

text \<open>The four size methods of each implementation.\<close>

record kem_sizes =
  size_PublicKey :: nat
  size_PrivateKey :: nat
  size_Ciphertext :: nat
  size_SharedSecret :: nat

definition X25519KEM_sizes :: kem_sizes where
  [simp]: "X25519KEM_sizes = \<lparr>size_PublicKey = 32, size_PrivateKey = 32, size_Ciphertext = 32,
     size_SharedSecret = 32\<rparr>"

definition MLKEM768Type_sizes :: kem_sizes where
  [simp]: "MLKEM768Type_sizes = \<lparr>size_PublicKey = 1184, size_PrivateKey = 2400, size_Ciphertext = 1088,
     size_SharedSecret = 32\<rparr>"

definition MLKEM1024Type_sizes :: kem_sizes where
  [simp]: "MLKEM1024Type_sizes = \<lparr>size_PublicKey = 1568, size_PrivateKey = 3168, size_Ciphertext = 1568,
     size_SharedSecret = 32\<rparr>"

definition RealMLKEM768_sizes :: "crypto \<Rightarrow> kem_sizes" where
  [simp]: "RealMLKEM768_sizes cr = \<lparr>size_PublicKey = mlkem_PublicKeySize cr mlkem_MLKEM768,
     size_PrivateKey = mlkem_PrivateKeySize cr mlkem_MLKEM768,
     size_Ciphertext = mlkem_CiphertextSize cr mlkem_MLKEM768,
     size_SharedSecret = mlkem_SharedKeySize cr mlkem_MLKEM768\<rparr>"

definition RealMLKEM1024_sizes :: "crypto \<Rightarrow> kem_sizes" where
  [simp]: "RealMLKEM1024_sizes cr = \<lparr>size_PublicKey = mlkem_PublicKeySize cr mlkem_MLKEM1024,
     size_PrivateKey = mlkem_PrivateKeySize cr mlkem_MLKEM1024,
     size_Ciphertext = mlkem_CiphertextSize cr mlkem_MLKEM1024,
     size_SharedSecret = mlkem_SharedKeySize cr mlkem_MLKEM1024\<rparr>"

definition HybridMLKEM_sizes :: "crypto \<Rightarrow> kem_sizes" where
  [simp]: "HybridMLKEM_sizes cr =
     (let classical = X25519KEM_sizes; pq = RealMLKEM768_sizes cr in
      \<lparr>size_PublicKey = size_PublicKey classical + size_PublicKey pq,
       size_PrivateKey = size_PrivateKey classical + size_PrivateKey pq,
       size_Ciphertext = size_Ciphertext classical + size_Ciphertext pq,
       size_SharedSecret = 32\<rparr>)"

text \<open>\<open>None\<close> is the panic of a call on a nil component.\<close>

fun KEM_PublicKeySize :: "crypto \<Rightarrow> KEM \<Rightarrow> nat option" where
  "KEM_PublicKeySize cr X25519KEM = Some (size_PublicKey X25519KEM_sizes)"
| "KEM_PublicKeySize cr MLKEM768Type = Some (size_PublicKey MLKEM768Type_sizes)"
| "KEM_PublicKeySize cr MLKEM1024Type = Some (size_PublicKey MLKEM1024Type_sizes)"
| "KEM_PublicKeySize cr (HybridKEM (Some c) (Some p)) =
     do { m \<leftarrow> KEM_PublicKeySize cr c; n \<leftarrow> KEM_PublicKeySize cr p; Some (m + n) }"
| "KEM_PublicKeySize cr (HybridKEM _ _) = None"
| "KEM_PublicKeySize cr RealMLKEM768 = Some (size_PublicKey (RealMLKEM768_sizes cr))"
| "KEM_PublicKeySize cr RealMLKEM1024 = Some (size_PublicKey (RealMLKEM1024_sizes cr))"
| "KEM_PublicKeySize cr HybridMLKEM = Some (size_PublicKey (HybridMLKEM_sizes cr))"

fun KEM_PrivateKeySize :: "crypto \<Rightarrow> KEM \<Rightarrow> nat option" where
  "KEM_PrivateKeySize cr X25519KEM = Some (size_PrivateKey X25519KEM_sizes)"
| "KEM_PrivateKeySize cr MLKEM768Type = Some (size_PrivateKey MLKEM768Type_sizes)"
| "KEM_PrivateKeySize cr MLKEM1024Type = Some (size_PrivateKey MLKEM1024Type_sizes)"
| "KEM_PrivateKeySize cr (HybridKEM (Some c) (Some p)) =
     do { m \<leftarrow> KEM_PrivateKeySize cr c; n \<leftarrow> KEM_PrivateKeySize cr p; Some (m + n) }"
| "KEM_PrivateKeySize cr (HybridKEM _ _) = None"
| "KEM_PrivateKeySize cr RealMLKEM768 = Some (size_PrivateKey (RealMLKEM768_sizes cr))"
| "KEM_PrivateKeySize cr RealMLKEM1024 = Some (size_PrivateKey (RealMLKEM1024_sizes cr))"
| "KEM_PrivateKeySize cr HybridMLKEM = Some (size_PrivateKey (HybridMLKEM_sizes cr))"

fun KEM_CiphertextSize :: "crypto \<Rightarrow> KEM \<Rightarrow> nat option" where
  "KEM_CiphertextSize cr X25519KEM = Some (size_Ciphertext X25519KEM_sizes)"
| "KEM_CiphertextSize cr MLKEM768Type = Some (size_Ciphertext MLKEM768Type_sizes)"
| "KEM_CiphertextSize cr MLKEM1024Type = Some (size_Ciphertext MLKEM1024Type_sizes)"
| "KEM_CiphertextSize cr (HybridKEM (Some c) (Some p)) =
     do { m \<leftarrow> KEM_CiphertextSize cr c; n \<leftarrow> KEM_CiphertextSize cr p; Some (m + n) }"
| "KEM_CiphertextSize cr (HybridKEM _ _) = None"
| "KEM_CiphertextSize cr RealMLKEM768 = Some (size_Ciphertext (RealMLKEM768_sizes cr))"
| "KEM_CiphertextSize cr RealMLKEM1024 = Some (size_Ciphertext (RealMLKEM1024_sizes cr))"
| "KEM_CiphertextSize cr HybridMLKEM = Some (size_Ciphertext (HybridMLKEM_sizes cr))"

fun KEM_SharedSecretSize :: "crypto \<Rightarrow> KEM \<Rightarrow> nat" where
  "KEM_SharedSecretSize cr X25519KEM = size_SharedSecret X25519KEM_sizes"
| "KEM_SharedSecretSize cr MLKEM768Type = size_SharedSecret MLKEM768Type_sizes"
| "KEM_SharedSecretSize cr MLKEM1024Type = size_SharedSecret MLKEM1024Type_sizes"
| "KEM_SharedSecretSize cr (HybridKEM _ _) = 32"
| "KEM_SharedSecretSize cr RealMLKEM768 = size_SharedSecret (RealMLKEM768_sizes cr)"
| "KEM_SharedSecretSize cr RealMLKEM1024 = size_SharedSecret (RealMLKEM1024_sizes cr)"
| "KEM_SharedSecretSize cr HybridMLKEM = size_SharedSecret (HybridMLKEM_sizes cr)"

section \<open>Key generation\<close>

definition X25519_GenerateKeyPair ::
  "crypto \<Rightarrow> bytes \<Rightarrow> (error, PublicKey \<times> PrivateKey) result \<times> bytes" where
  "X25519_GenerateKeyPair cr tape =
     (let (privKeyBytes, err, tape) = rand_Read 32 tape in
      if err then (Err RandError, tape)
      else case x25519 cr privKeyBytes (x25519_Basepoint cr) of
        None \<Rightarrow> (Err (LibError ''curve25519''), tape)
      | Some w \<Rightarrow>
          let pk = publicKey (bytes32 w); sk = privateKey privKeyBytes pk
          in (Ok (pk, sk), tape))"

text \<open>The ML-KEM stubs fill both keys with random bytes and ignore the errors of the source.\<close>

definition stub_GenerateKeyPair ::
  "nat \<Rightarrow> nat \<Rightarrow> bytes \<Rightarrow> (error, PublicKey \<times> PrivateKey) result \<times> bytes" where
  "stub_GenerateKeyPair pkSize skSize tape =
     (let (pkData, _, tape) = rand_Read pkSize tape;
          (skData, _, tape) = rand_Read skSize tape;
          pk = publicKey pkData
      in (Ok (pk, privateKey skData pk), tape))"

definition mlkem_wrap_GenerateKeyPair ::
  "crypto \<Rightarrow> mlkemMode \<Rightarrow> bytes \<Rightarrow> (error, PublicKey \<times> PrivateKey) result \<times> bytes" where
  "mlkem_wrap_GenerateKeyPair cr mode tape =
     (case mlkem_GenerateKeyPair cr mode tape of
        None \<Rightarrow> (Err (LibError ''mlkem''), tape)
      | Some (pub, priv, tape) \<Rightarrow>
          let pk = mlkemPublicKey pub; sk = mlkemPrivateKey priv pk in (Ok (pk, sk), tape))"

definition MLKEM768Type_GenerateKeyPair :: "bytes \<Rightarrow> (error, PublicKey \<times> PrivateKey) result \<times> bytes"
  where [simp]: "MLKEM768Type_GenerateKeyPair = stub_GenerateKeyPair 1184 2400"

definition MLKEM1024Type_GenerateKeyPair :: "bytes \<Rightarrow> (error, PublicKey \<times> PrivateKey) result \<times> bytes"
  where [simp]: "MLKEM1024Type_GenerateKeyPair = stub_GenerateKeyPair 1568 3168"

definition RealMLKEM768_GenerateKeyPair ::
  "crypto \<Rightarrow> bytes \<Rightarrow> (error, PublicKey \<times> PrivateKey) result \<times> bytes"
  where [simp]: "RealMLKEM768_GenerateKeyPair cr = mlkem_wrap_GenerateKeyPair cr mlkem_MLKEM768"

definition RealMLKEM1024_GenerateKeyPair ::
  "crypto \<Rightarrow> bytes \<Rightarrow> (error, PublicKey \<times> PrivateKey) result \<times> bytes"
  where [simp]: "RealMLKEM1024_GenerateKeyPair cr = mlkem_wrap_GenerateKeyPair cr mlkem_MLKEM1024"

definition HybridMLKEM_GenerateKeyPair ::
  "crypto \<Rightarrow> bytes \<Rightarrow> (error, PublicKey \<times> PrivateKey) result \<times> bytes" where
  [simp]: "HybridMLKEM_GenerateKeyPair cr tape =
     (case X25519_GenerateKeyPair cr tape of
        (Err e, tape) \<Rightarrow> (Err e, tape)
      | (Panic q, tape) \<Rightarrow> (Panic q, tape)
      | (Ok (classicalPub, classicalPriv), tape) \<Rightarrow>
        (case RealMLKEM768_GenerateKeyPair cr tape of
           (Err e, tape) \<Rightarrow> (Err e, tape)
         | (Panic q, tape) \<Rightarrow> (Panic q, tape)
         | (Ok (pqPub, pqPriv), tape) \<Rightarrow>
             let pk = hybridPublicKey classicalPub pqPub
             in (Ok (pk, hybridPrivateKey classicalPriv pqPriv pk), tape)))"

fun GenerateKeyPair :: "crypto \<Rightarrow> KEM \<Rightarrow> bytes \<Rightarrow> (error, PublicKey \<times> PrivateKey) result \<times> bytes"
  where
  "GenerateKeyPair cr X25519KEM tape = X25519_GenerateKeyPair cr tape"
| "GenerateKeyPair cr MLKEM768Type tape = MLKEM768Type_GenerateKeyPair tape"
| "GenerateKeyPair cr MLKEM1024Type tape = MLKEM1024Type_GenerateKeyPair tape"
| "GenerateKeyPair cr (HybridKEM None pq) tape = (Panic NilDereference, tape)"
| "GenerateKeyPair cr (HybridKEM (Some classical) None) tape =
     (case GenerateKeyPair cr classical tape of
        (Err e, tape) \<Rightarrow> (Err e, tape)
      | (Panic q, tape) \<Rightarrow> (Panic q, tape)
      | (Ok _, tape) \<Rightarrow> (Panic NilDereference, tape))"
| "GenerateKeyPair cr (HybridKEM (Some classical) (Some pq)) tape =
     (case GenerateKeyPair cr classical tape of
        (Err e, tape) \<Rightarrow> (Err e, tape)
      | (Panic q, tape) \<Rightarrow> (Panic q, tape)
      | (Ok (classicalPK, classicalSK), tape) \<Rightarrow>
        (case GenerateKeyPair cr pq tape of
           (Err e, tape) \<Rightarrow> (Err e, tape)
         | (Panic q, tape) \<Rightarrow> (Panic q, tape)
         | (Ok (pqPK, pqSK), tape) \<Rightarrow>
             let combinedPK = PublicKey_Bytes cr classicalPK @ PublicKey_Bytes cr pqPK;
                 combinedSK = PrivateKey_Bytes cr classicalSK @ PrivateKey_Bytes cr pqSK;
                 pk = publicKey combinedPK
             in (Ok (pk, privateKey combinedSK pk), tape)))"
| "GenerateKeyPair cr RealMLKEM768 tape = RealMLKEM768_GenerateKeyPair cr tape"
| "GenerateKeyPair cr RealMLKEM1024 tape = RealMLKEM1024_GenerateKeyPair cr tape"
| "GenerateKeyPair cr HybridMLKEM tape = HybridMLKEM_GenerateKeyPair cr tape"

section \<open>Encapsulation\<close>

definition X25519_Encapsulate ::
  "crypto \<Rightarrow> PublicKey \<Rightarrow> bytes \<Rightarrow> (error, bytes \<times> bytes) result \<times> bytes" where
  "X25519_Encapsulate cr pk tape =
     (let (ephemeralPrivate, err, tape) = rand_Read 32 tape in
      if err then (Err RandError, tape)
      else case x25519 cr ephemeralPrivate (x25519_Basepoint cr) of
        None \<Rightarrow> (Err (LibError ''curve25519''), tape)
      | Some ephemeralPublic \<Rightarrow>
        (case x25519 cr ephemeralPrivate (PublicKey_Bytes cr pk) of
           None \<Rightarrow> (Err (LibError ''curve25519''), tape)
         | Some sharedSecret \<Rightarrow> (Ok (bytes32 ephemeralPublic, bytes32 sharedSecret), tape)))"

definition stub_Encapsulate :: "nat \<Rightarrow> bytes \<Rightarrow> (error, bytes \<times> bytes) result \<times> bytes" where
  "stub_Encapsulate ctSize tape =
     (let (ct, _, tape) = rand_Read ctSize tape; (ss, _, tape) = rand_Read 32 tape
      in (Ok (ct, ss), tape))"

definition mlkem_wrap_Encapsulate ::
  "crypto \<Rightarrow> PublicKey \<Rightarrow> bytes \<Rightarrow> (error, bytes \<times> bytes) result \<times> bytes" where
  "mlkem_wrap_Encapsulate cr pk tape = (case pk of
     mlkemPublicKey key \<Rightarrow>
       (case mlkem_Encapsulate cr key tape of
          None \<Rightarrow> (Err (LibError ''mlkem''), tape)
        | Some (ciphertext, sharedSecret, tape) \<Rightarrow> (Ok (ciphertext, sharedSecret), tape))
   | _ \<Rightarrow> (Err InvalidPublicKeyType, tape))"

text \<open>The XOR loop over 32 bytes of both secrets; a shorter secret is indexed out of range.\<close>

definition xor_secrets :: "bytes \<Rightarrow> bytes \<Rightarrow> (error, bytes) result" where
  "xor_secrets classicalSS pqSS =
     (if length classicalSS < 32 \<or> length pqSS < 32 then Panic IndexOutOfRange
      else Ok (map (\<lambda>i. (classicalSS ! i) XOR (pqSS ! i)) [0..<32]))"

definition combine_secrets :: "crypto \<Rightarrow> bytes \<Rightarrow> bytes \<Rightarrow> bytes" where
  "combine_secrets cr classicalSS pqSS = fst (kdf_Read cr
     (hkdf_New sha256_New (classicalSS @ pqSS) (bytes_of_string ''QZMQ-Hybrid-KEM'') []) 32)"

definition MLKEM768Type_Encapsulate :: "bytes \<Rightarrow> (error, bytes \<times> bytes) result \<times> bytes"
  where [simp]: "MLKEM768Type_Encapsulate = stub_Encapsulate 1088"

definition MLKEM1024Type_Encapsulate :: "bytes \<Rightarrow> (error, bytes \<times> bytes) result \<times> bytes"
  where [simp]: "MLKEM1024Type_Encapsulate = stub_Encapsulate 1568"

definition RealMLKEM768_Encapsulate ::
  "crypto \<Rightarrow> PublicKey \<Rightarrow> bytes \<Rightarrow> (error, bytes \<times> bytes) result \<times> bytes"
  where [simp]: "RealMLKEM768_Encapsulate = mlkem_wrap_Encapsulate"

definition RealMLKEM1024_Encapsulate ::
  "crypto \<Rightarrow> PublicKey \<Rightarrow> bytes \<Rightarrow> (error, bytes \<times> bytes) result \<times> bytes"
  where [simp]: "RealMLKEM1024_Encapsulate = mlkem_wrap_Encapsulate"

definition HybridMLKEM_Encapsulate ::
  "crypto \<Rightarrow> PublicKey \<Rightarrow> bytes \<Rightarrow> (error, bytes \<times> bytes) result \<times> bytes" where
  [simp]: "HybridMLKEM_Encapsulate cr pk tape = (case pk of
     hybridPublicKey classical pq \<Rightarrow>
       (case X25519_Encapsulate cr classical tape of
          (Err e, tape) \<Rightarrow> (Err e, tape)
        | (Panic q, tape) \<Rightarrow> (Panic q, tape)
        | (Ok (classicalCt, classicalSS), tape) \<Rightarrow>
          (case RealMLKEM768_Encapsulate cr pq tape of
             (Err e, tape) \<Rightarrow> (Err e, tape)
           | (Panic q, tape) \<Rightarrow> (Panic q, tape)
           | (Ok (pqCt, pqSS), tape) \<Rightarrow>
               (mapOk (\<lambda>ss. (classicalCt @ pqCt, ss)) (xor_secrets classicalSS pqSS), tape)))
   | _ \<Rightarrow> (Err InvalidPublicKeyType, tape))"

fun Encapsulate :: "crypto \<Rightarrow> KEM \<Rightarrow> PublicKey \<Rightarrow> bytes \<Rightarrow> (error, bytes \<times> bytes) result \<times> bytes"
  where
  "Encapsulate cr X25519KEM pk tape = X25519_Encapsulate cr pk tape"
| "Encapsulate cr MLKEM768Type pk tape = MLKEM768Type_Encapsulate tape"
| "Encapsulate cr MLKEM1024Type pk tape = MLKEM1024Type_Encapsulate tape"
| "Encapsulate cr (HybridKEM (Some classical) (Some pq)) pk tape =
     (case (KEM_PublicKeySize cr classical, KEM_PublicKeySize cr pq) of
        (Some classicalPKSize, Some pqPKSize) \<Rightarrow>
          let pkBytes = PublicKey_Bytes cr pk in
          if length pkBytes < classicalPKSize + pqPKSize
          then (Err InvalidHybridPublicKey, tape)
          else
          (case Encapsulate cr classical (publicKey (take classicalPKSize pkBytes)) tape of
             (Err e, tape) \<Rightarrow> (Err e, tape)
           | (Panic q, tape) \<Rightarrow> (Panic q, tape)
           | (Ok (classicalCT, classicalSS), tape) \<Rightarrow>
             (case Encapsulate cr pq (publicKey (drop classicalPKSize pkBytes)) tape of
                (Err e, tape) \<Rightarrow> (Err e, tape)
              | (Panic q, tape) \<Rightarrow> (Panic q, tape)
              | (Ok (pqCT, pqSS), tape) \<Rightarrow>
                  (Ok (classicalCT @ pqCT, combine_secrets cr classicalSS pqSS), tape)))
      | _ \<Rightarrow> (Panic NilDereference, tape))"
| "Encapsulate cr (HybridKEM _ _) pk tape = (Panic NilDereference, tape)"
| "Encapsulate cr RealMLKEM768 pk tape = RealMLKEM768_Encapsulate cr pk tape"
| "Encapsulate cr RealMLKEM1024 pk tape = RealMLKEM1024_Encapsulate cr pk tape"
| "Encapsulate cr HybridMLKEM pk tape = HybridMLKEM_Encapsulate cr pk tape"

section \<open>Decapsulation\<close>

definition X25519_Decapsulate :: "crypto \<Rightarrow> PrivateKey \<Rightarrow> bytes \<Rightarrow> (error, bytes) result" where
  "X25519_Decapsulate cr sk ciphertext =
     (case x25519 cr (PrivateKey_Bytes cr sk) ciphertext of
        None \<Rightarrow> Err (LibError ''curve25519'')
      | Some sharedSecret \<Rightarrow> Ok (bytes32 sharedSecret))"

definition mlkem_wrap_Decapsulate :: "crypto \<Rightarrow> PrivateKey \<Rightarrow> bytes \<Rightarrow> (error, bytes) result" where
  "mlkem_wrap_Decapsulate cr sk ciphertext = (case sk of
     mlkemPrivateKey key public \<Rightarrow>
       (case mlkem_Decapsulate cr key ciphertext of
          None \<Rightarrow> Err (LibError ''mlkem'') | Some sharedSecret \<Rightarrow> Ok sharedSecret)
   | _ \<Rightarrow> Err InvalidPrivateKeyType)"

definition RealMLKEM768_Decapsulate :: "crypto \<Rightarrow> PrivateKey \<Rightarrow> bytes \<Rightarrow> (error, bytes) result"
  where [simp]: "RealMLKEM768_Decapsulate = mlkem_wrap_Decapsulate"

definition RealMLKEM1024_Decapsulate :: "crypto \<Rightarrow> PrivateKey \<Rightarrow> bytes \<Rightarrow> (error, bytes) result"
  where [simp]: "RealMLKEM1024_Decapsulate = mlkem_wrap_Decapsulate"

definition HybridMLKEM_Decapsulate :: "crypto \<Rightarrow> PrivateKey \<Rightarrow> bytes \<Rightarrow> (error, bytes) result" where
  "HybridMLKEM_Decapsulate cr sk ciphertext = (case sk of
     hybridPrivateKey classical pq public \<Rightarrow>
       (let classicalCtSize = size_Ciphertext X25519KEM_sizes in
        if length ciphertext < classicalCtSize then Err CiphertextTooShort
        else case X25519_Decapsulate cr classical (take classicalCtSize ciphertext) of
          Err e \<Rightarrow> Err e | Panic q \<Rightarrow> Panic q
        | Ok classicalSS \<Rightarrow>
          (case RealMLKEM768_Decapsulate cr pq (drop classicalCtSize ciphertext) of
             Err e \<Rightarrow> Err e | Panic q \<Rightarrow> Panic q
           | Ok pqSS \<Rightarrow> xor_secrets classicalSS pqSS))
   | _ \<Rightarrow> Err InvalidPrivateKeyType)"

text \<open>The stubs return fresh random bytes, the generic hybrid 32 zero bytes.\<close>

definition stub_Decapsulate :: "bytes \<Rightarrow> (error, bytes) result \<times> bytes" where
  "stub_Decapsulate tape = (let (ss, _, tape) = rand_Read 32 tape in (Ok ss, tape))"

definition MLKEM768Type_Decapsulate :: "bytes \<Rightarrow> (error, bytes) result \<times> bytes"
  where [simp]: "MLKEM768Type_Decapsulate = stub_Decapsulate"

definition MLKEM1024Type_Decapsulate :: "bytes \<Rightarrow> (error, bytes) result \<times> bytes"
  where [simp]: "MLKEM1024Type_Decapsulate = stub_Decapsulate"

fun Decapsulate :: "crypto \<Rightarrow> KEM \<Rightarrow> PrivateKey \<Rightarrow> bytes \<Rightarrow> bytes \<Rightarrow> (error, bytes) result \<times> bytes"
  where
  "Decapsulate cr X25519KEM sk ct tape = (X25519_Decapsulate cr sk ct, tape)"
| "Decapsulate cr MLKEM768Type sk ct tape = MLKEM768Type_Decapsulate tape"
| "Decapsulate cr MLKEM1024Type sk ct tape = MLKEM1024Type_Decapsulate tape"
| "Decapsulate cr (HybridKEM _ _) sk ct tape = (Ok (replicate 32 0), tape)"
| "Decapsulate cr RealMLKEM768 sk ct tape = (RealMLKEM768_Decapsulate cr sk ct, tape)"
| "Decapsulate cr RealMLKEM1024 sk ct tape = (RealMLKEM1024_Decapsulate cr sk ct, tape)"
| "Decapsulate cr HybridMLKEM sk ct tape = (HybridMLKEM_Decapsulate cr sk ct, tape)"

section \<open>Sizes are as declared\<close>

text \<open>What a client of the interface may rely on for lengths.\<close>

locale sized_kem =
  fixes cr :: crypto and k :: KEM and pkn :: nat and skn :: nat and ctn :: nat
  assumes pk_size: "KEM_PublicKeySize cr k = Some pkn"
    and sk_size: "KEM_PrivateKeySize cr k = Some skn"
    and ct_size: "KEM_CiphertextSize cr k = Some ctn"
    and ss_size: "KEM_SharedSecretSize cr k = 32"
    and gen_sizes: "GenerateKeyPair cr k tape = (Ok (pk, sk), tape') \<Longrightarrow>
      length (PublicKey_Bytes cr pk) = pkn \<and> length (PrivateKey_Bytes cr sk) = skn
        \<and> PrivateKey_Public sk = pk"
    and encap_sizes: "Encapsulate cr k pk tape = (Ok (ct, ss), tape') \<Longrightarrow>
      length ct = ctn \<and> length ss = 32"
    and gen_no_panic: "\<not> is_panic (fst (GenerateKeyPair cr k tape))"
    and encap_no_panic: "\<not> is_panic (fst (Encapsulate cr k pk tape))"
begin

lemma sizes_declared:
  assumes "GenerateKeyPair cr k t1 = (Ok (pk, sk), t2)" "Encapsulate cr k pk t3 = (Ok (ct, ss), t4)"
  shows "Some (length (PublicKey_Bytes cr pk)) = KEM_PublicKeySize cr k"
    "Some (length (PrivateKey_Bytes cr sk)) = KEM_PrivateKeySize cr k"
    "Some (length ct) = KEM_CiphertextSize cr k" "length ss = KEM_SharedSecretSize cr k"
    "PrivateKey_Public sk = pk"
  using gen_sizes [OF assms(1)] encap_sizes [OF assms(2)] pk_size sk_size ct_size ss_size by auto

end

interpretation x25519_kem: sized_kem cr X25519KEM 32 32 32 for cr
  by unfold_locales
    (auto simp: X25519_GenerateKeyPair_def X25519_Encapsulate_def Let_def rand_Read_def
       split: prod.splits if_splits option.splits)

interpretation mlkem768_stub: sized_kem cr MLKEM768Type 1184 2400 1088 for cr
  by unfold_locales
    (auto simp: stub_GenerateKeyPair_def stub_Encapsulate_def rand_Read_def Let_def)

interpretation mlkem1024_stub: sized_kem cr MLKEM1024Type 1568 3168 1568 for cr
  by unfold_locales
    (auto simp: stub_GenerateKeyPair_def stub_Encapsulate_def rand_Read_def Let_def)

lemma length_combine_secrets [simp]: "length (combine_secrets cr a b) = 32"
  by (simp add: combine_secrets_def kdf_Read_def)

text \<open>The generic hybrid of two sized components is sized, with the sums of their sizes.\<close>

lemma hybrid_sized:
  assumes "sized_kem cr c pkn skn ctn" "sized_kem cr p pkn' skn' ctn'"
  shows "sized_kem cr (NewHybridKEM (Some c) (Some p)) (pkn + pkn') (skn + skn') (ctn + ctn')"
proof -
  note C = assms(1) [unfolded sized_kem_def] and P = assms(2) [unfolded sized_kem_def]
  show ?thesis
    unfolding sized_kem_def NewHybridKEM_def
  proof (intro conjI allI impI)
    fix tape pk sk tape'
    assume "GenerateKeyPair cr (HybridKEM (Some c) (Some p)) tape = (Ok (pk, sk), tape')"
    then show "length (PublicKey_Bytes cr pk) = pkn + pkn'"
      and "length (PrivateKey_Bytes cr sk) = skn + skn'" and "PrivateKey_Public sk = pk"
      by (auto simp: Let_def split: prod.splits result.splits
          dest!: sized_kem.gen_sizes [OF assms(1)] sized_kem.gen_sizes [OF assms(2)])
  next
    fix pk tape ct ss tape'
    assume "Encapsulate cr (HybridKEM (Some c) (Some p)) pk tape = (Ok (ct, ss), tape')"
    then show "length ct = ctn + ctn'" and "length ss = 32"
      using sized_kem.pk_size [OF assms(1)] sized_kem.pk_size [OF assms(2)]
      by (auto simp: Let_def split: prod.splits result.splits if_splits
          dest!: sized_kem.encap_sizes [OF assms(1)] sized_kem.encap_sizes [OF assms(2)])
  next
    fix tape
    have "GenerateKeyPair cr c t \<noteq> (Panic q, t')" "GenerateKeyPair cr p t \<noteq> (Panic q, t')" for t q t'
      using sized_kem.gen_no_panic [OF assms(1), of t] sized_kem.gen_no_panic [OF assms(2), of t]
      by auto
    then show "\<not> is_panic (fst (GenerateKeyPair cr (HybridKEM (Some c) (Some p)) tape))"
      by (auto simp: Let_def split: prod.split result.split)
  next
    fix pk tape
    have "Encapsulate cr c q t \<noteq> (Panic x, t')" "Encapsulate cr p q t \<noteq> (Panic x, t')" for q t x t'
      using sized_kem.encap_no_panic [OF assms(1), of q t]
        sized_kem.encap_no_panic [OF assms(2), of q t] by auto
    then show "\<not> is_panic (fst (Encapsulate cr (HybridKEM (Some c) (Some p)) pk tape))"
      using sized_kem.pk_size [OF assms(1)] sized_kem.pk_size [OF assms(2)]
      by (auto simp: Let_def split: prod.split result.split)
  qed (use C P in simp_all)
qed

interpretation hybrid768: sized_kem cr "NewHybridKEM (Some X25519KEM) (Some MLKEM768Type)" 1216 2432 1120
  for cr
  using hybrid_sized [OF x25519_kem.sized_kem_axioms mlkem768_stub.sized_kem_axioms] by simp

text \<open>The KEM values without a nil component that do not rest on \<open>luxfi/crypto/mlkem\<close>.\<close>

fun kem_built :: "KEM \<Rightarrow> bool" where
  "kem_built (HybridKEM (Some c) (Some p)) \<longleftrightarrow> kem_built c \<and> kem_built p"
| "kem_built (HybridKEM _ _) \<longleftrightarrow> False"
| "kem_built RealMLKEM768 \<longleftrightarrow> False"
| "kem_built RealMLKEM1024 \<longleftrightarrow> False"
| "kem_built HybridMLKEM \<longleftrightarrow> False"
| "kem_built _ \<longleftrightarrow> True"

lemma kem_built_sized: "kem_built k \<Longrightarrow> \<exists>pkn skn ctn. sized_kem cr k pkn skn ctn"
proof (induction k rule: kem_built.induct)
  case (1 c p)
  then obtain n1 n2 n3 m1 m2 m3 where "sized_kem cr c n1 n2 n3" "sized_kem cr p m1 m2 m3"
    by auto
  then show ?case using hybrid_sized unfolding NewHybridKEM_def by blast
next
  case "6_1"
  show ?case using x25519_kem.sized_kem_axioms by blast
next
  case "6_2"
  show ?case using mlkem768_stub.sized_kem_axioms by blast
next
  case "6_3"
  show ?case using mlkem1024_stub.sized_kem_axioms by blast
qed simp_all


text \<open>Runs of the X25519 KEM on the sample primitives.\<close>

lemma sample_X25519_GenerateKeyPair:
  "32 \<le> length tape \<Longrightarrow> X25519_GenerateKeyPair sample_crypto tape
     = (Ok (publicKey (bytes32 (get_be (take 32 tape))),
            privateKey (take 32 tape) (publicKey (bytes32 (get_be (take 32 tape))))), drop 32 tape)"
  by (simp add: X25519_GenerateKeyPair_def rand_Read_ok sample_crypto_def get_be_bytes32 Let_def)

lemma sample_X25519_Encapsulate:
  "32 \<le> length tape \<Longrightarrow> length pk = 32 \<Longrightarrow> X25519_Encapsulate sample_crypto (publicKey pk) tape
     = (Ok (bytes32 (get_be (take 32 tape)), bytes32 (get_be (take 32 tape) * get_be pk)), drop 32 tape)"
  by (simp add: X25519_Encapsulate_def rand_Read_ok sample_crypto_def get_be_bytes32 Let_def)


section \<open>Agreement on the shared secret\<close>

text \<open>Documented behaviour of the primitives: Diffie-Hellman, and the correctness and the size
  of the shared key of ML-KEM (FIPS 203).\<close>

definition x25519_dh :: "crypto \<Rightarrow> bool" where
  "x25519_dh cr \<longleftrightarrow> (\<forall>a b A B.
     x25519 cr a (x25519_Basepoint cr) = Some A \<longrightarrow> x25519 cr b (x25519_Basepoint cr) = Some B \<longrightarrow>
     x25519 cr a (bytes32 B) = x25519 cr b (bytes32 A))"

definition mlkem_correct :: "crypto \<Rightarrow> bool" where
  "mlkem_correct cr \<longleftrightarrow> (\<forall>mode t pub priv t' r ct ss r'.
     mlkem_GenerateKeyPair cr mode t = Some (pub, priv, t') \<longrightarrow>
     mlkem_Encapsulate cr pub r = Some (ct, ss, r') \<longrightarrow>
     mlkem_Decapsulate cr priv ct = Some ss \<and> length ss = 32)"

lemma X25519_GenerateKeyPair_Ok:
  assumes "X25519_GenerateKeyPair cr t = (Ok (pk, sk), t')"
  obtains a A where "x25519 cr a (x25519_Basepoint cr) = Some A" "pk = publicKey (bytes32 A)"
    "sk = privateKey a pk"
  using assms
  by (auto simp: X25519_GenerateKeyPair_def Let_def split: prod.splits if_splits option.splits)

lemma X25519_Encapsulate_Ok:
  assumes "X25519_Encapsulate cr pk t = (Ok (ct, ss), t')"
  obtains b B S where "x25519 cr b (x25519_Basepoint cr) = Some B" "ct = bytes32 B"
    "x25519 cr b (PublicKey_Bytes cr pk) = Some S" "ss = bytes32 S"
  using assms
  by (auto simp: X25519_Encapsulate_def Let_def split: prod.splits if_splits option.splits)

lemma X25519_agree:
  assumes "x25519_dh cr" "X25519_GenerateKeyPair cr t1 = (Ok (pk, sk), t2)"
    "X25519_Encapsulate cr pk t3 = (Ok (ct, ss), t4)"
  shows "X25519_Decapsulate cr sk ct = Ok ss \<and> length ct = 32 \<and> length ss = 32"
proof -
  obtain a A where a: "x25519 cr a (x25519_Basepoint cr) = Some A" "pk = publicKey (bytes32 A)"
    "sk = privateKey a pk"
    using X25519_GenerateKeyPair_Ok [OF assms(2)] .
  obtain b B S where b: "x25519 cr b (x25519_Basepoint cr) = Some B" "ct = bytes32 B"
    "x25519 cr b (PublicKey_Bytes cr pk) = Some S" "ss = bytes32 S"
    using X25519_Encapsulate_Ok [OF assms(3)] .
  have "x25519 cr a (bytes32 B) = x25519 cr b (bytes32 A)"
    using assms(1) [unfolded x25519_dh_def] a(1) b(1) by blast
  moreover have "x25519 cr b (bytes32 A) = Some S" using a(2) b(3) by simp
  ultimately show ?thesis by (simp add: X25519_Decapsulate_def a(3) b(2,4))
qed

lemma mlkem_wrap_agree:
  assumes "mlkem_correct cr" "mlkem_wrap_GenerateKeyPair cr mode t1 = (Ok (pk, sk), t2)"
    "mlkem_wrap_Encapsulate cr pk t3 = (Ok (ct, ss), t4)"
  shows "mlkem_wrap_Decapsulate cr sk ct = Ok ss \<and> length ss = 32"
proof -
  obtain pub priv where gen: "mlkem_GenerateKeyPair cr mode t1 = Some (pub, priv, t2)"
    and pk: "pk = mlkemPublicKey pub" and sk: "sk = mlkemPrivateKey priv pk"
    using assms(2) by (auto simp: mlkem_wrap_GenerateKeyPair_def Let_def split: option.splits)
  from pk have enc: "mlkem_Encapsulate cr pub t3 = Some (ct, ss, t4)"
    using assms(3) by (auto simp: mlkem_wrap_Encapsulate_def split: option.splits)
  from assms(1) [unfolded mlkem_correct_def] gen enc
  have "mlkem_Decapsulate cr priv ct = Some ss \<and> length ss = 32" by blast
  then show ?thesis by (simp add: mlkem_wrap_Decapsulate_def sk)
qed

lemma xor_secrets_total:
  "length a = 32 \<Longrightarrow> length b = 32 \<Longrightarrow> \<exists>ss. xor_secrets a b = Ok ss \<and> length ss = 32"
  by (simp add: xor_secrets_def)

lemma HybridMLKEM_agree:
  assumes "x25519_dh cr" "mlkem_correct cr"
    and gen: "GenerateKeyPair cr HybridMLKEM t1 = (Ok (pk, sk), t2)"
    and enc: "Encapsulate cr HybridMLKEM pk t3 = (Ok (ct, ss), t4)"
  shows "HybridMLKEM_Decapsulate cr sk ct = Ok ss"
proof -
  obtain cpk csk ppk psk u where
    cg: "X25519_GenerateKeyPair cr t1 = (Ok (cpk, csk), u)" and
    pg: "mlkem_wrap_GenerateKeyPair cr mlkem_MLKEM768 u = (Ok (ppk, psk), t2)" and
    pk: "pk = hybridPublicKey cpk ppk" and sk: "sk = hybridPrivateKey csk psk pk"
    using gen by (auto simp: Let_def split: prod.splits result.splits)
  obtain cct css pct pss v where
    ce: "X25519_Encapsulate cr cpk t3 = (Ok (cct, css), v)" and
    pe: "mlkem_wrap_Encapsulate cr ppk v = (Ok (pct, pss), t4)" and
    ct: "ct = cct @ pct" and ss: "xor_secrets css pss = Ok ss"
    using enc by (auto simp: pk xor_secrets_def split: prod.splits result.splits if_splits)
  have "X25519_Decapsulate cr csk cct = Ok css" "length cct = 32"
    using X25519_agree [OF assms(1) cg ce] by blast+
  moreover have "mlkem_wrap_Decapsulate cr psk pct = Ok pss"
    using mlkem_wrap_agree [OF assms(2) pg pe] by blast
  ultimately show ?thesis
    using ss by (simp add: HybridMLKEM_Decapsulate_def sk ct)
qed

text \<open>
  C9. The X25519 KEM, the wrappers of the FIPS 203 implementation and the X25519/ML-KEM-768
  hybrid are correct: with the private key of a generated pair, decapsulating the ciphertext
  that was encapsulated to its public key succeeds and yields the encapsulator's shared secret
  (given Diffie-Hellman for X25519 and the correctness of the ML-KEM library).
\<close>

theorem kem_agreement:
  assumes "x25519_dh cr" "mlkem_correct cr"
    and "k \<in> {X25519KEM, RealMLKEM768, RealMLKEM1024, NewHybridMLKEM}"
    and "GenerateKeyPair cr k t1 = (Ok (pk, sk), t2)" "Encapsulate cr k pk t3 = (Ok (ct, ss), t4)"
  shows "Decapsulate cr k sk ct tape = (Ok ss, tape)"
proof -
  from assms(3) consider "k = X25519KEM" | "k = RealMLKEM768" | "k = RealMLKEM1024" | "k = HybridMLKEM"
    by (auto simp: NewHybridMLKEM_def)
  then show ?thesis
  proof cases
    case 1
    then show ?thesis using X25519_agree [OF assms(1), of t1] assms(4,5) by simp
  next
    case 2
    then show ?thesis using mlkem_wrap_agree [OF assms(2)] assms(4,5) by simp
  next
    case 3
    then show ?thesis using mlkem_wrap_agree [OF assms(2)] assms(4,5) by simp
  next
    case 4
    then show ?thesis using HybridMLKEM_agree [OF assms(1,2)] assms(4,5) by (metis Decapsulate.simps(7))
  qed
qed

lemma sample_dh: "x25519_dh sample_crypto"
  by (auto simp: x25519_dh_def sample_crypto_def get_be_bytes32 mult.commute split: if_splits)

lemma sample_mlkem: "mlkem_correct sample_crypto"
  by (auto simp: mlkem_correct_def sample_crypto_def split: if_splits)

lemma sample_mlkem_Encapsulate:
  "mlkem_Encapsulate sample_crypto pk tape = Some ([], make_copy 32 pk, tape)"
  by (simp add: sample_crypto_def)

theorem kem_agreement_witness:
  "\<exists>pk sk t2 ct ss t4.
     GenerateKeyPair sample_crypto NewHybridMLKEM (replicate 64 3) = (Ok (pk, sk), t2) \<and>
     Encapsulate sample_crypto NewHybridMLKEM pk (replicate 32 5) = (Ok (ct, ss), t4) \<and>
     Decapsulate sample_crypto NewHybridMLKEM sk ct [] = (Ok ss, [])"
proof -
  obtain pk sk t2 where
    gen: "GenerateKeyPair sample_crypto NewHybridMLKEM (replicate 64 3) = (Ok (pk, sk), t2)"
    and pk: "\<exists>a m. pk = hybridPublicKey (publicKey a) (mlkemPublicKey m) \<and> length a = 32"
    by (simp add: NewHybridMLKEM_def sample_X25519_GenerateKeyPair mlkem_wrap_GenerateKeyPair_def
        Let_def) (simp add: sample_crypto_def Let_def)
  obtain ct ss t4 where
    enc: "Encapsulate sample_crypto NewHybridMLKEM pk (replicate 32 5) = (Ok (ct, ss), t4)"
    using pk by (auto simp: NewHybridMLKEM_def sample_X25519_Encapsulate mlkem_wrap_Encapsulate_def
        sample_mlkem_Encapsulate xor_secrets_def)
  have "NewHybridMLKEM \<in> {X25519KEM, RealMLKEM768, RealMLKEM1024, NewHybridMLKEM}" by simp
  from kem_agreement [OF sample_dh sample_mlkem this gen enc] gen enc show ?thesis by blast
qed



text \<open>Of the KEMs that \<open>getKEM\<close> returns, exactly the one for the hybrid suite panics: it is built
  without its two components.\<close>

lemma getKEM_hybrid_panics:
  assumes "getKEM alg = Ok k"
  shows "(is_panic (fst (GenerateKeyPair cr k tape)) \<longleftrightarrow> alg = HybridX25519MLKEM768) \<and>
    (is_panic (fst (Encapsulate cr k pk tape)) \<longleftrightarrow> alg = HybridX25519MLKEM768)"
  using assms x25519_kem.gen_no_panic [of cr tape] x25519_kem.encap_no_panic [of cr pk tape]
    mlkem768_stub.gen_no_panic [of cr tape] mlkem768_stub.encap_no_panic [of cr pk tape]
    mlkem1024_stub.gen_no_panic [of cr tape] mlkem1024_stub.encap_no_panic [of cr pk tape]
  by (cases alg) (auto simp: getKEM_def)

end
