(* ===== verification/QZMQ_Connection.thy ===== *)
theory QZMQ_Connection
  imports QZMQ_Wire QZMQ_KEM
begin

text \<open>
  The handshake state machine of \<open>src/connection.go\<close>: the record of a connection and its
  operations, each with every assignment it makes before an early return or a panic. The
  operations hold the connection's lock from start to end, so concurrent use is some sequence
  of them: \<open>conn_step\<close> is one call. The specification \<open>handshake_spec\<close> is an automaton over the
  same calls that the connection implements; the lemmas show that the states advance one by one and in order, that the transcript is the
  concatenation of the messages exchanged, what Finished accepts, which states can be
  reached at all, and when keys are rotated.
\<close>

section \<open>State\<close>

datatype connectionState = stateInit | stateClientHello | stateServerHello | stateClientKey
  | stateEstablished | stateClosed

fun connectionState_code :: "connectionState \<Rightarrow> nat" where
  "connectionState_code stateInit = 0"
| "connectionState_code stateClientHello = 1"
| "connectionState_code stateServerHello = 2"
| "connectionState_code stateClientKey = 3"
| "connectionState_code stateEstablished = 4"
| "connectionState_code stateClosed = 5"

lemma connectionState_code_inject:
  "connectionState_code s = connectionState_code t \<Longrightarrow> s = t"
  by (cases s; cases t) simp_all

instantiation connectionState :: linorder
begin

definition less_eq_connectionState :: "connectionState \<Rightarrow> connectionState \<Rightarrow> bool" where
  "s \<le> t \<longleftrightarrow> connectionState_code s \<le> connectionState_code t"

definition less_connectionState :: "connectionState \<Rightarrow> connectionState \<Rightarrow> bool" where
  "s < t \<longleftrightarrow> connectionState_code s < connectionState_code t"

instance
  by standard
    (auto simp: less_eq_connectionState_def less_connectionState_def
      intro: connectionState_code_inject)

end

lemmas state_order = less_eq_connectionState_def less_connectionState_def

definition protocolVersion :: byte where "protocolVersion = 1"
definition nonceSize :: nat where "nonceSize = 12"
definition defaultStreamID :: "32 word" where "defaultStreamID = 1"
definition earlyDataStreamID :: "32 word" where "earlyDataStreamID = 0xFFFFFFFF"

text \<open>A \<open>None\<close> in an option field is a nil interface or pointer.\<close>

record connection =
  c_opts :: Options
  c_isServer :: bool
  c_state :: connectionState
  c_clientRandom :: bytes
  c_serverRandom :: bytes
  c_transcript :: bytes
  c_sessionID :: bytes
  c_kem :: "KEM option"
  c_localKEMSK :: "PrivateKey option"
  c_localKEMPK :: "PublicKey option"
  c_remoteKEMPK :: "PublicKey option"
  c_clientAEAD :: "cipherAEAD option"
  c_serverAEAD :: "cipherAEAD option"
  c_keys :: "keySet option"
  c_sharedSecret :: bytes
  c_psk :: bytes
  c_earlyDataKey :: bytes
  c_lastKeyUpdate :: Time
  c_messageCount :: "64 word"
  c_byteCount :: "64 word"
  c_cookie :: bytes
  c_cookieTime :: Time
  c_streamID :: "32 word"
  c_signer :: "Signer option"
  c_localSignKey :: "SigningKey option"
  c_remotePubKey :: "VerifyingKey option"

definition newConnection :: "Options \<Rightarrow> bool \<Rightarrow> Time \<Rightarrow> connection" where
  "newConnection opts isServer now = \<lparr>
     c_opts = opts, c_isServer = isServer, c_state = stateInit,
     c_clientRandom = [], c_serverRandom = [], c_transcript = [], c_sessionID = [],
     c_kem = None, c_localKEMSK = None, c_localKEMPK = None, c_remoteKEMPK = None,
     c_clientAEAD = None, c_serverAEAD = None, c_keys = None, c_sharedSecret = [],
     c_psk = [], c_earlyDataKey = [],
     c_lastKeyUpdate = now, c_messageCount = 0, c_byteCount = 0,
     c_cookie = [], c_cookieTime = 0, c_streamID = defaultStreamID,
     c_signer = (case getSigner (Sign (Suite opts)) of Ok s \<Rightarrow> Some s | _ \<Rightarrow> None),
     c_localSignKey = None, c_remotePubKey = None\<rparr>"

definition connection_getKEM :: "connection \<Rightarrow> (error, KEM) result" where
  "connection_getKEM c = getKEM (KEM (Suite (c_opts c)))"

section \<open>ClientHello\<close>

text \<open>The ephemeral keys of \<open>clientHello\<close>: an error assigns nil to both fields, a panic leaves
  them as they are.\<close>

definition generateEphemeral ::
  "crypto \<Rightarrow> connection \<Rightarrow> KEM \<Rightarrow> bytes \<Rightarrow> (error, unit) result \<times> connection \<times> bytes" where
  "generateEphemeral cr c kem tape =
     (if Mode (c_opts c) \<noteq> ModePQOnly
      then case GenerateKeyPair cr kem tape of
        (Ok (pk, sk), tape) \<Rightarrow>
          (Ok (), c\<lparr>c_localKEMPK := Some pk, c_localKEMSK := Some sk\<rparr>, tape)
      | (Err e, tape) \<Rightarrow> (Err e, c\<lparr>c_localKEMPK := None, c_localKEMSK := None\<rparr>, tape)
      | (Panic q, tape) \<Rightarrow> (Panic q, c, tape)
      else (Ok (), c, tape))"

definition buildClientHello :: "crypto \<Rightarrow> connection \<Rightarrow> clientHelloMsg" where
  "buildClientHello cr c =
     \<lparr>ch_version = protocolVersion, ch_random = c_clientRandom c, ch_suite = Suite (c_opts c),
      ch_sessionID = c_sessionID c,
      ch_extensions =
        (if Mode (c_opts c) = ModePQOnly then [\<lparr>ext_typ = extPQOnly, ext_data = [1]\<rparr>] else [])
        @ (case c_localKEMPK c of
             None \<Rightarrow> []
           | Some pk \<Rightarrow> [\<lparr>ext_typ = extKeyShare, ext_data = PublicKey_Bytes cr pk\<rparr>])\<rparr>"

definition clientHello ::
  "crypto \<Rightarrow> connection \<Rightarrow> bytes \<Rightarrow> (error, bytes) result \<times> connection \<times> bytes" where
  "clientHello cr c tape =
     (if c_state c \<noteq> stateInit then (Err (InvalidStateFor ''ClientHello''), c, tape)
      else
      let (random, err, tape) = rand_Read 32 tape;
          c = c\<lparr>c_clientRandom := random\<rparr> in
      if err then (Err RandError, c, tape)
      else case connection_getKEM c of
        Err e \<Rightarrow> (Err e, c\<lparr>c_kem := None\<rparr>, tape)
      | Panic q \<Rightarrow> (Panic q, c, tape)
      | Ok kem \<Rightarrow>
        (case generateEphemeral cr (c\<lparr>c_kem := Some kem\<rparr>) kem tape of
           (Err e, c, tape) \<Rightarrow> (Err e, c, tape)
         | (Panic q, c, tape) \<Rightarrow> (Panic q, c, tape)
         | (Ok _, c, tape) \<Rightarrow>
           (case clientHello_marshal (buildClientHello cr c) of
              None \<Rightarrow> (Panic IndexOutOfRange, c, tape)
            | Some data \<Rightarrow>
                (Ok data, c\<lparr>c_transcript := c_transcript c @ data, c_state := stateClientHello\<rparr>,
                 tape))))"

section \<open>ServerHello\<close>

definition processServerHello ::
  "crypto \<Rightarrow> connection \<Rightarrow> bytes \<Rightarrow> (error, unit) result \<times> connection" where
  "processServerHello cr c data =
     (if c_state c \<noteq> stateClientHello then (Err (InvalidStateFor ''ServerHello''), c)
      else
      let accept = (\<lambda>c. (Ok (), c\<lparr>c_transcript := c_transcript c @ data,
                                  c_state := stateServerHello\<rparr>)) in
      case serverHello_unmarshal zeroServerHello data of
        (Err e, msg) \<Rightarrow> (Err e, c)
      | (Panic q, msg) \<Rightarrow> (Panic q, c)
      | (Ok _, msg) \<Rightarrow>
        let c = c\<lparr>c_serverRandom := sh_random msg\<rparr> in
        if sh_suite msg \<noteq> Suite (c_opts c) then (Err SuiteMismatch, c)
        else
        let c = c\<lparr>c_remoteKEMPK := Some (publicKey (sh_kemPublicKey msg))\<rparr> in
        (case c_signer c of
           None \<Rightarrow> accept c
         | Some signer \<Rightarrow>
           if length (sh_certificate msg) > 0 \<and> length (sh_signature msg) > 0
           then
             let c = c\<lparr>c_remotePubKey := Some (sh_certificate msg)\<rparr> in
             (case Signer_Verify cr signer (sh_certificate msg) (c_transcript c) (sh_signature msg) of
                Ok True \<Rightarrow> accept c
              | Ok False \<Rightarrow> (Err InvalidServerSignature, c)
              | Err e \<Rightarrow> (Err e, c)
              | Panic q \<Rightarrow> (Panic q, c))
           else accept c))"

section \<open>ClientKey\<close>

text \<open>\<open>Encapsulate\<close> called with a nil public key: the KEMs that read the key dereference it,
  the ML-KEM stubs do not look at it, the wrappers test its type first.\<close>

fun Encapsulate_nil :: "crypto \<Rightarrow> KEM \<Rightarrow> bytes \<Rightarrow> (error, bytes \<times> bytes) result \<times> bytes" where
  "Encapsulate_nil cr X25519KEM tape =
     (let (ephemeralPrivate, err, tape) = rand_Read 32 tape in
      if err then (Err RandError, tape)
      else case x25519 cr ephemeralPrivate (x25519_Basepoint cr) of
        None \<Rightarrow> (Err (LibError ''curve25519''), tape)
      | Some _ \<Rightarrow> (Panic NilDereference, tape))"
| "Encapsulate_nil cr MLKEM768Type tape = stub_Encapsulate 1088 tape"
| "Encapsulate_nil cr MLKEM1024Type tape = stub_Encapsulate 1568 tape"
| "Encapsulate_nil cr (HybridKEM _ _) tape = (Panic NilDereference, tape)"
| "Encapsulate_nil cr _ tape = (Err InvalidPublicKeyType, tape)"

definition connection_Encapsulate ::
  "crypto \<Rightarrow> connection \<Rightarrow> bytes \<Rightarrow> (error, bytes \<times> bytes) result \<times> bytes" where
  "connection_Encapsulate cr c tape = (case c_kem c of
     None \<Rightarrow> (Panic NilDereference, tape)
   | Some kem \<Rightarrow>
     (case c_remoteKEMPK c of
        None \<Rightarrow> Encapsulate_nil cr kem tape
      | Some pk \<Rightarrow> Encapsulate cr kem pk tape))"

text \<open>The second secret: random bytes in hybrid mode, nothing otherwise.\<close>

definition ecdheSecret :: "connection \<Rightarrow> bytes \<Rightarrow> (error, bytes) result \<times> bytes" where
  "ecdheSecret c tape =
     (if Mode (c_opts c) = ModeHybrid \<and> c_localKEMSK c \<noteq> None
      then let (secret, err, tape) = rand_Read 32 tape in
        if err then (Err RandError, tape) else (Ok secret, tape)
      else (Ok [], tape))"

text \<open>Key derivation and the two AEADs: a failing constructor assigns nil to its field.\<close>

definition installKeys ::
  "crypto \<Rightarrow> connection \<Rightarrow> bytes \<Rightarrow> bytes \<Rightarrow> (error, unit) result \<times> connection" where
  "installKeys cr c kemSecret ecdhe =
     (case deriveKeys cr kemSecret ecdhe (Hash (Suite (c_opts c))) of
        Err e \<Rightarrow> (Err e, c\<lparr>c_keys := None\<rparr>)
      | Panic q \<Rightarrow> (Panic q, c)
      | Ok ks \<Rightarrow>
        let c = c\<lparr>c_keys := Some ks\<rparr> in
        (case createAEAD cr (AEAD (Suite (c_opts c))) (clientKey ks) of
           Err e \<Rightarrow> (Err e, c\<lparr>c_clientAEAD := None\<rparr>)
         | Panic q \<Rightarrow> (Panic q, c)
         | Ok a \<Rightarrow>
           let c = c\<lparr>c_clientAEAD := Some a\<rparr> in
           (case createAEAD cr (AEAD (Suite (c_opts c))) (serverKey ks) of
              Err e \<Rightarrow> (Err e, c\<lparr>c_serverAEAD := None\<rparr>)
            | Panic q \<Rightarrow> (Panic q, c)
            | Ok a \<Rightarrow> (Ok (), c\<lparr>c_serverAEAD := Some a\<rparr>))))"

definition clientSignature :: "crypto \<Rightarrow> connection \<Rightarrow> (error, bytes) result" where
  "clientSignature cr c = (case (c_signer c, c_localSignKey c) of
     (Some signer, Some key) \<Rightarrow> Signer_Sign cr signer key (c_transcript c)
   | _ \<Rightarrow> Ok [])"

definition connection_clientKey ::
  "crypto \<Rightarrow> connection \<Rightarrow> bytes \<Rightarrow> (error, bytes) result \<times> connection \<times> bytes" where
  "connection_clientKey cr c tape =
     (if c_state c \<noteq> stateServerHello then (Err (InvalidStateFor ''ClientKey''), c, tape)
      else case connection_Encapsulate cr c tape of
        (Err e, tape) \<Rightarrow> (Err e, c, tape)
      | (Panic q, tape) \<Rightarrow> (Panic q, c, tape)
      | (Ok (ciphertext, kemSecret), tape) \<Rightarrow>
        (case ecdheSecret c tape of
           (Err e, tape) \<Rightarrow> (Err e, c, tape)
         | (Panic q, tape) \<Rightarrow> (Panic q, c, tape)
         | (Ok ecdhe, tape) \<Rightarrow>
           (case installKeys cr c kemSecret ecdhe of
              (Err e, c) \<Rightarrow> (Err e, c, tape)
            | (Panic q, c) \<Rightarrow> (Panic q, c, tape)
            | (Ok _, c) \<Rightarrow>
              (case clientSignature cr c of
                 Err e \<Rightarrow> (Err e, c, tape)
               | Panic q \<Rightarrow> (Panic q, c, tape)
               | Ok sig \<Rightarrow>
                 (case clientKey_marshal \<lparr>ck_kemCiphertext = ciphertext, ck_pskBinder = [],
                    ck_clientSig = sig\<rparr> of
                    None \<Rightarrow> (Panic IndexOutOfRange, c, tape)
                  | Some data \<Rightarrow>
                      (Ok data, c\<lparr>c_transcript := c_transcript c @ data,
                                   c_state := stateClientKey\<rparr>, tape))))))"

section \<open>Finished\<close>

definition finishedNonce :: "connection \<Rightarrow> bytes option" where
  "finishedNonce c = do {
     nonce \<leftarrow> put_at (replicate nonceSize 0) 0 (be32 (c_streamID c));
     put_at nonce 4 (be64 0)
   }"

definition processFinished ::
  "crypto \<Rightarrow> connection \<Rightarrow> bytes \<Rightarrow> (error, unit) result \<times> connection" where
  "processFinished cr c encData =
     (if c_state c \<noteq> stateClientKey then (Err (InvalidStateFor ''Finished''), c)
      else case finishedNonce c of
        None \<Rightarrow> (Panic IndexOutOfRange, c)
      | Some nonce \<Rightarrow>
        (case c_serverAEAD c of
           None \<Rightarrow> (Panic NilDereference, c)
         | Some aead \<Rightarrow>
           (case AEAD_Open cr aead nonce encData of
              Panic q \<Rightarrow> (Panic q, c)
            | Err e \<Rightarrow> (Err FinishedDecryptFailed, c)
            | Ok plaintext \<Rightarrow>
              (case c_keys c of
                 None \<Rightarrow> (Panic NilDereference, c)
               | Some ks \<Rightarrow>
                 let expectedMAC = computeFinishedMAC cr (serverKey ks) (c_transcript c) in
                 if length plaintext < 32 \<or> take 32 plaintext \<noteq> expectedMAC
                 then (Err FinishedMACFailed, c)
                 else (Ok (), c\<lparr>c_state := stateEstablished,
                                c_sharedSecret := exporterSecret ks\<rparr>)))))"

section \<open>Key rotation\<close>

definition needsKeyUpdate :: "connection \<Rightarrow> Time \<Rightarrow> bool" where
  "needsKeyUpdate c now =
     (let policy = KeyRotation (c_opts c) in
      if MaxMessages policy > 0 \<and> c_messageCount c \<ge> MaxMessages policy then True
      else if MaxBytes policy > 0 \<and> c_byteCount c \<ge> MaxBytes policy then True
      else if MaxAge policy > 0 \<and> Time_Sub now (c_lastKeyUpdate c) > MaxAge policy then True
      else False)"

definition updateKeys ::
  "crypto \<Rightarrow> connection \<Rightarrow> Time \<Rightarrow> bytes \<Rightarrow> (error, keySet) result \<times> connection \<times> bytes" where
  "updateKeys cr c now tape =
     (let (newSecret, err, tape) = rand_Read 32 tape in
      if err then (Err RandError, c, tape)
      else case deriveKeys cr newSecret (c_sharedSecret c) (Hash (Suite (c_opts c))) of
        Err e \<Rightarrow> (Err e, c, tape)
      | Panic q \<Rightarrow> (Panic q, c, tape)
      | Ok newKeys \<Rightarrow>
          (Ok newKeys,
           c\<lparr>c_messageCount := 0, c_byteCount := 0, c_lastKeyUpdate := now\<rparr>, tape))"

section \<open>Steps and traces\<close>

datatype conn_event =
    EvClientHello "(error, bytes) result"
  | EvServerHello bytes "(error, unit) result"
  | EvClientKey "(error, bytes) result"
  | EvFinished bytes "(error, unit) result"
  | EvNeedsKeyUpdate bool
  | EvUpdateKeys "(error, keySet) result"

inductive conn_step :: "crypto \<Rightarrow> connection \<Rightarrow> conn_event \<Rightarrow> connection \<Rightarrow> bool" for cr where
  step_clientHello:
    "clientHello cr c tape = (r, c', tape') \<Longrightarrow> conn_step cr c (EvClientHello r) c'"
| step_serverHello:
    "processServerHello cr c data = (r, c') \<Longrightarrow> conn_step cr c (EvServerHello data r) c'"
| step_clientKey:
    "connection_clientKey cr c tape = (r, c', tape') \<Longrightarrow> conn_step cr c (EvClientKey r) c'"
| step_finished:
    "processFinished cr c data = (r, c') \<Longrightarrow> conn_step cr c (EvFinished data r) c'"
| step_needsKeyUpdate:
    "needsKeyUpdate c now = b \<Longrightarrow> conn_step cr c (EvNeedsKeyUpdate b) c"
| step_updateKeys:
    "updateKeys cr c now tape = (r, c', tape') \<Longrightarrow> conn_step cr c (EvUpdateKeys r) c'"

text \<open>What an event contributes to the transcript, and the state it moves to.\<close>

fun ev_message :: "conn_event \<Rightarrow> bytes" where
  "ev_message (EvClientHello (Ok data)) = data"
| "ev_message (EvServerHello data (Ok _)) = data"
| "ev_message (EvClientKey (Ok data)) = data"
| "ev_message _ = []"

fun ev_target :: "conn_event \<Rightarrow> connectionState option" where
  "ev_target (EvClientHello (Ok data)) = Some stateClientHello"
| "ev_target (EvServerHello data (Ok _)) = Some stateServerHello"
| "ev_target (EvClientKey (Ok data)) = Some stateClientKey"
| "ev_target (EvFinished data (Ok _)) = Some stateEstablished"
| "ev_target _ = None"

text \<open>Effects of the parts of an operation.\<close>

lemma generateEphemeral_frame:
  assumes "generateEphemeral cr c kem tape = (r, c', tape')"
  shows "\<exists>pk sk. c' = c\<lparr>c_localKEMPK := pk, c_localKEMSK := sk\<rparr>"
proof (intro exI)
  show "c' = c\<lparr>c_localKEMPK := c_localKEMPK c', c_localKEMSK := c_localKEMSK c'\<rparr>"
    using assms by (auto simp: generateEphemeral_def split: if_splits prod.splits result.splits)
qed

lemma serverHello_unmarshal_eq:
  "serverHello_unmarshal m data =
     (if length data < 34 then (Err ServerHelloTooShort, m)
      else (Ok (), m\<lparr>sh_version := data ! 0, sh_random := make_copy 32 (drop 1 data)\<rparr>))"
  by (auto simp: serverHello_unmarshal_def byte_at_def slice_from_def Let_def)

text \<open>The reader leaves the suite, the KEM key, the certificate and the signature at their
  zero values: the rest of the message is not parsed.\<close>

lemma processServerHello_eq:
  "processServerHello cr c data =
     (if c_state c \<noteq> stateClientHello then (Err (InvalidStateFor ''ServerHello''), c)
      else if length data < 34 then (Err ServerHelloTooShort, c)
      else
      let c = c\<lparr>c_serverRandom := make_copy 32 (drop 1 data)\<rparr> in
      if Suite (c_opts c) \<noteq> zeroSuite then (Err SuiteMismatch, c)
      else (Ok (), c\<lparr>c_remoteKEMPK := Some (publicKey []), c_transcript := c_transcript c @ data,
                     c_state := stateServerHello\<rparr>))"
  by (auto simp: processServerHello_def serverHello_unmarshal_eq zeroServerHello_def Let_def
      split: option.split)

lemma installKeys_frame:
  assumes "installKeys cr c kemSecret ecdhe = (r, c')"
  shows "\<exists>ks a b. c' = c\<lparr>c_keys := ks, c_clientAEAD := a, c_serverAEAD := b\<rparr>"
proof (intro exI)
  show "c' = c\<lparr>c_keys := c_keys c', c_clientAEAD := c_clientAEAD c',
      c_serverAEAD := c_serverAEAD c'\<rparr>"
    using assms by (auto simp: installKeys_def Let_def split: result.splits)
qed

lemma createAEAD_Ok: "createAEAD cr algo key = Ok a \<Longrightarrow> a = AEADCipher algo key"
  by (auto simp: createAEAD_def split: AeadAlgorithm.splits if_splits)

lemma installKeys_Ok:
  assumes "installKeys cr c kemSecret ecdhe = (Ok u, c')"
  obtains ks where "deriveKeys cr kemSecret ecdhe (Hash (Suite (c_opts c))) = Ok ks"
    "c' = c\<lparr>c_keys := Some ks, c_clientAEAD := Some (AEADCipher (AEAD (Suite (c_opts c))) (clientKey ks)),
            c_serverAEAD := Some (AEADCipher (AEAD (Suite (c_opts c))) (serverKey ks))\<rparr>"
  using assms by (auto simp: installKeys_def Let_def split: result.splits dest!: createAEAD_Ok)

lemma finishedNonce_eq: "finishedNonce c = Some (be32 (c_streamID c) @ be64 0)"
  by (simp add: finishedNonce_def nonceSize_def fill_simps del: append_assoc append.simps replicate.simps)

text \<open>One call: the transcript grows by the message, the state moves to the event's target,
  which is the next state, and the configuration stays.\<close>

lemma clientHello_step:
  assumes "clientHello cr c tape = (r, c', tape')"
  shows "c_transcript c' = c_transcript c @ ev_message (EvClientHello r) \<and> c_opts c' = c_opts c \<and>
    (case ev_target (EvClientHello r) of None \<Rightarrow> c_state c' = c_state c
     | Some t \<Rightarrow> c_state c' = t \<and> c_state c = stateInit)"
  using assms
  by (auto simp: clientHello_def Let_def
      split: if_splits prod.splits result.splits option.splits dest!: generateEphemeral_frame)

lemma clientKey_step:
  assumes "connection_clientKey cr c tape = (r, c', tape')"
  shows "c_transcript c' = c_transcript c @ ev_message (EvClientKey r) \<and> c_opts c' = c_opts c \<and>
    (case ev_target (EvClientKey r) of None \<Rightarrow> c_state c' = c_state c
     | Some t \<Rightarrow> c_state c' = t \<and> c_state c = stateServerHello)"
  using assms
  by (cases r) (auto simp: connection_clientKey_def
      split: if_splits prod.splits result.splits option.splits dest!: installKeys_frame)

lemma processFinished_step:
  assumes "processFinished cr c data = (r, c')"
  shows "c_transcript c' = c_transcript c \<and> c_opts c' = c_opts c \<and>
    (case ev_target (EvFinished data r) of None \<Rightarrow> c' = c
     | Some t \<Rightarrow> c_state c' = t \<and> c_state c = stateClientKey)"
  using assms
  by (auto simp: processFinished_def Let_def split: if_splits prod.splits result.splits option.splits)

lemma updateKeys_eq:
  "updateKeys cr c now tape =
     (let ks = deriveKeys cr (take 32 tape) (c_sharedSecret c) (Hash (Suite (c_opts c))) in
      if length tape < 32 then (Err RandError, c, drop 32 tape)
      else (ks, c\<lparr>c_messageCount := 0, c_byteCount := 0, c_lastKeyUpdate := now\<rparr>, drop 32 tape))"
  by (auto simp: updateKeys_def rand_Read_def make_copy_def deriveKeys_eq Let_def)

lemma conn_step_progress:
  assumes "conn_step cr c e c'"
  shows "c_transcript c' = c_transcript c @ ev_message e \<and> c_opts c' = c_opts c \<and>
    (case ev_target e of None \<Rightarrow> c_state c' = c_state c
     | Some t \<Rightarrow> c_state c' = t \<and> connectionState_code t = Suc (connectionState_code (c_state c)))"
  using assms
proof cases
  case (step_clientHello tape r tape')
  then show ?thesis using clientHello_step [of cr c tape r c' tape'] by (cases r) auto
next
  case (step_serverHello data r)
  then show ?thesis by (auto simp: processServerHello_eq Let_def split: if_splits)
next
  case (step_clientKey tape r tape')
  then show ?thesis using clientKey_step [of cr c tape r c' tape'] by (cases r) auto
next
  case (step_finished data r)
  then show ?thesis using processFinished_step [of cr c data r c'] by (cases r) auto
next
  case (step_updateKeys now tape r tape')
  then show ?thesis by (auto simp: updateKeys_eq Let_def split: if_splits)
qed auto

section \<open>The invariant of a connection\<close>

definition new_connection :: "connection \<Rightarrow> bool" where
  "new_connection c \<longleftrightarrow> (\<exists>opts isServer now. c = newConnection opts isServer now)"

text \<open>What each state of the handshake guarantees, so that no operation of the client
  dereferences a nil field in it.\<close>

definition keys_installed :: "connection \<Rightarrow> bool" where
  "keys_installed c = (case c_keys c of
     None \<Rightarrow> False
   | Some ks \<Rightarrow>
       length (clientKey ks) = 32 \<and> length (serverKey ks) = 32 \<and> length (exporterSecret ks) = 32 \<and>
       c_clientAEAD c = Some (AEADCipher (AEAD (Suite (c_opts c))) (clientKey ks)) \<and>
       c_serverAEAD c = Some (AEADCipher (AEAD (Suite (c_opts c))) (serverKey ks)))"

definition conn_wf :: "connection \<Rightarrow> bool" where
  "conn_wf c \<longleftrightarrow>
     (stateClientHello \<le> c_state c \<longrightarrow>
        length (c_clientRandom c) = 32 \<and> c_kem c \<noteq> None \<and>
        connection_getKEM c = Ok (the (c_kem c))) \<and>
     (stateServerHello \<le> c_state c \<longrightarrow>
        length (c_serverRandom c) = 32 \<and> c_remoteKEMPK c \<noteq> None) \<and>
     (stateClientKey \<le> c_state c \<longrightarrow> keys_installed c) \<and>
     (c_state c = stateEstablished \<longrightarrow> c_sharedSecret c = exporterSecret (the (c_keys c))) \<and>
     c_state c \<noteq> stateClosed \<and>
     c_messageCount c = 0 \<and> c_byteCount c = 0 \<and> c_streamID c = defaultStreamID \<and>
     c_localSignKey c = None \<and> c_remotePubKey c = None"

lemma keys_installed_iff:
  "keys_installed c \<longleftrightarrow> (\<exists>ks. c_keys c = Some ks \<and>
     length (clientKey ks) = 32 \<and> length (serverKey ks) = 32 \<and> length (exporterSecret ks) = 32 \<and>
     c_clientAEAD c = Some (AEADCipher (AEAD (Suite (c_opts c))) (clientKey ks)) \<and>
     c_serverAEAD c = Some (AEADCipher (AEAD (Suite (c_opts c))) (serverKey ks)))"
  by (auto simp: keys_installed_def split: option.splits)

lemma new_connection_wf: "new_connection c \<Longrightarrow> conn_wf c"
  by (auto simp: new_connection_def newConnection_def conn_wf_def state_order)

lemma clientHello_wf:
  assumes "conn_wf c" "clientHello cr c tape = (r, c', tape')"
  shows "conn_wf c'"
proof (cases "c_state c = stateInit")
  case True
  with assms(1) have "c_messageCount c = 0 \<and> c_byteCount c = 0 \<and> c_streamID c = defaultStreamID \<and>
     c_localSignKey c = None \<and> c_remotePubKey c = None"
    by (simp add: conn_wf_def)
  with True assms(2) show ?thesis
    by (auto simp: clientHello_def connection_getKEM_def conn_wf_def state_order rand_Read_def Let_def
        split: if_splits prod.splits result.splits option.splits dest!: generateEphemeral_frame)
next
  case False
  with assms show ?thesis by (auto simp: clientHello_def)
qed

lemma processServerHello_wf:
  assumes "conn_wf c" "processServerHello cr c data = (r, c')"
  shows "conn_wf c'"
  using assms
  by (auto simp: processServerHello_eq conn_wf_def connection_getKEM_def state_order Let_def
      split: if_splits)

lemma clientKey_wf:
  assumes "conn_wf c" "connection_clientKey cr c tape = (r, c', tape')"
  shows "conn_wf c'"
proof (cases r)
  case (Ok data)
  with assms(2) obtain kemSecret ecdhe c1 where st: "c_state c = stateServerHello"
    and inst: "installKeys cr c kemSecret ecdhe = (Ok (), c1)"
    and c': "c' = c1\<lparr>c_transcript := c_transcript c1 @ data, c_state := stateClientKey\<rparr>"
    by (auto simp: connection_clientKey_def split: if_splits prod.splits result.splits option.splits)
  from inst obtain ks where ks: "deriveKeys cr kemSecret ecdhe (Hash (Suite (c_opts c))) = Ok ks"
    and c1: "c1 = c\<lparr>c_keys := Some ks,
      c_clientAEAD := Some (AEADCipher (AEAD (Suite (c_opts c))) (clientKey ks)),
      c_serverAEAD := Some (AEADCipher (AEAD (Suite (c_opts c))) (serverKey ks))\<rparr>"
    by (rule installKeys_Ok)
  from deriveKeys_lengths [OF ks] assms(1) st show ?thesis
    by (auto simp: c' c1 conn_wf_def keys_installed_iff connection_getKEM_def state_order)
qed (use assms in \<open>auto simp: connection_clientKey_def conn_wf_def connection_getKEM_def state_order
      split: if_splits prod.splits result.splits option.splits dest!: installKeys_frame\<close>)

lemma processFinished_wf:
  assumes "conn_wf c" "processFinished cr c data = (r, c')"
  shows "conn_wf c'"
  using assms
  by (auto simp: processFinished_def conn_wf_def keys_installed_iff connection_getKEM_def state_order Let_def
      split: if_splits result.splits option.splits)

lemma updateKeys_wf:
  assumes "conn_wf c" "updateKeys cr c now tape = (r, c', tape')"
  shows "conn_wf c'"
  using assms
  by (auto simp: updateKeys_eq conn_wf_def keys_installed_iff connection_getKEM_def Let_def
      split: if_splits)

interpretation conn: invariant_system new_connection "conn_step cr" conn_wf for cr
proof
  show "new_connection c \<Longrightarrow> conn_wf c" for c by (rule new_connection_wf)
  show "conn_wf c \<Longrightarrow> conn_step cr c e c' \<Longrightarrow> conn_wf c'" for c e c'
    by (erule conn_step.cases)
      (auto intro: clientHello_wf processServerHello_wf clientKey_wf processFinished_wf updateKeys_wf)
qed

text \<open>The calls of an established invariant cannot hit a nil interface.\<close>

lemma processFinished_no_panic:
  assumes "conn_wf c"
  shows "\<not> is_panic (fst (processFinished cr c data))"
proof (cases "c_state c = stateClientKey")
  case True
  with assms have "keys_installed c" by (simp add: conn_wf_def state_order)
  then show ?thesis
    by (auto simp: processFinished_def finishedNonce_eq keys_installed_iff Let_def
        split: option.splits result.splits if_splits)
qed (simp add: processFinished_def)

text \<open>
  C10. Every reachable connection is well-formed: from ClientHello on, the KEM of the configured
  suite is set, from ServerHello on the peer's key, from ClientKey on both AEADs hold the
  derived 32-byte keys, and an established connection exports the derived secret; hence
  processing a ServerHello or a Finished message never panics, whatever its bytes. The client
  never has a signing key and never records a verified server key.
\<close>

theorem connection_invariant:
  assumes "reachable new_connection (conn_step cr) c"
  shows "conn_wf c \<and> \<not> is_panic (fst (processServerHello cr c data)) \<and>
    \<not> is_panic (fst (processFinished cr c data))"
  using conn.reachable_inv [OF assms]
  by (auto simp: processFinished_no_panic processServerHello_eq Let_def)

theorem connection_invariant_witness:
  "conn_wf (newConnection DefaultOptions False 0) \<and>
   \<not> is_panic (fst (processFinished sample_crypto (newConnection DefaultOptions False 0) [1, 2]))"
proof -
  have "reachable new_connection (conn_step sample_crypto) (newConnection DefaultOptions False 0)"
    by (rule reach_init) (auto simp: new_connection_def)
  from connection_invariant [OF this] show ?thesis by blast
qed

section \<open>The specification of the handshake\<close>

text \<open>
  What a handshake is, over options, state and transcript alone: a message advances the state by
  one and is appended to the transcript; every other call, and every call that fails,
  changes neither.
\<close>

inductive handshake_spec :: "Options \<times> connectionState \<times> bytes \<Rightarrow> conn_event
    \<Rightarrow> Options \<times> connectionState \<times> bytes \<Rightarrow> bool" where
  hs_advance: "ev_target e = Some st' \<Longrightarrow> connectionState_code st' = Suc (connectionState_code st) \<Longrightarrow>
    handshake_spec (opts, st, tr) e (opts, st', tr @ ev_message e)"
| hs_stay: "ev_target e = None \<Longrightarrow> handshake_spec (opts, st, tr) e (opts, st, tr)"

definition handshake_view :: "connection \<Rightarrow> Options \<times> connectionState \<times> bytes" where
  "handshake_view c = (c_opts c, c_state c, c_transcript c)"

lemma ev_message_no_target: "ev_target e = None \<Longrightarrow> ev_message e = []"
  by (cases e rule: ev_target.cases) simp_all

interpretation hs: simulation new_connection "conn_step cr" conn_wf handshake_view
  "\<lambda>(opts, st, tr). st = stateInit \<and> tr = []" handshake_spec for cr
proof
  show "new_connection c \<Longrightarrow> case handshake_view c of (opts, st, tr) \<Rightarrow> st = stateInit \<and> tr = []" for c
    by (auto simp: new_connection_def newConnection_def handshake_view_def)
  show "handshake_spec (handshake_view c) e (handshake_view c')" if "conn_step cr c e c'" for c e c'
    using conn_step_progress [OF that] hs_advance [of e] hs_stay [of e]
    by (auto simp: handshake_view_def ev_message_no_target split: option.splits)
qed

definition handshake_states :: "connectionState list" where
  "handshake_states = [stateClientHello, stateServerHello, stateClientKey, stateEstablished]"

lemma handshake_states_snoc:
  "connectionState_code t = Suc (connectionState_code s) \<Longrightarrow> t \<noteq> stateClosed \<Longrightarrow>
   take (Suc (connectionState_code s)) handshake_states
     = take (connectionState_code s) handshake_states @ [t]"
  by (cases s; cases t) (simp_all add: handshake_states_def)

lemma ev_target_not_closed: "ev_target e \<noteq> Some stateClosed"
  by (cases e rule: ev_target.cases) simp_all

text \<open>The runs of the specification.\<close>

lemma handshake_spec_run:
  assumes "run handshake_spec v es v'" "fst (snd v) = stateInit" "snd (snd v) = []"
  shows "List.map_filter ev_target es = take (connectionState_code (fst (snd v'))) handshake_states \<and>
    snd (snd v') = concat (map ev_message es) \<and> fst v' = fst v"
  using assms
proof (induction rule: run.induct)
  case (run_snoc es v1 e v2)
  note IH = run_snoc.IH [OF run_snoc.prems]
  from run_snoc.hyps(2) show ?case
  proof cases
    case (hs_advance st' st opts tr)
    moreover from this have "st' \<noteq> stateClosed" using ev_target_not_closed [of e] by auto
    ultimately show ?thesis using IH by (simp add: List.map_filter_def handshake_states_snoc)
  next
    case (hs_stay opts st tr)
    then show ?thesis using IH by (simp add: List.map_filter_def ev_message_no_target)
  qed
qed (simp add: List.map_filter_def)

text \<open>
  C1. On every sequence of calls on a new connection, successful or not and in any order, the
  handshake calls that succeed are ClientHello, ServerHello, ClientKey and Finished in this
  order and each at most once, the connection's state is the last of them, and
  the transcript is exactly the concatenation of the handshake messages of the successful
  calls: a call that is out of order, fails or panics leaves state and transcript as they are.
\<close>

theorem handshake_order:
  assumes "run (conn_step cr) (newConnection opts isServer now) es c"
  shows "List.map_filter ev_target es = take (connectionState_code (c_state c)) handshake_states \<and>
    c_transcript c = concat (map ev_message es) \<and> c_opts c = opts"
proof -
  have "new_connection (newConnection opts isServer now)" by (auto simp: new_connection_def)
  from hs.initial_run_abs [OF this assms] handshake_spec_run show ?thesis
    by (force simp: handshake_view_def newConnection_def)
qed

text \<open>The two steps that the zero suite can take.\<close>

lemma zero_suite_clientHello:
  assumes "32 \<le> length r"
  shows "\<exists>data c' tape'. clientHello sample_crypto
      (newConnection (PerformanceOptions\<lparr>Suite := zeroSuite\<rparr>) False 0) (r @ r) = (Ok data, c', tape')"
  using assms
  by (auto simp: clientHello_def newConnection_def connection_getKEM_def PerformanceOptions_def
      DefaultOptions_def zeroSuite_def getKEM_def rand_Read_ok generateEphemeral_def
      sample_X25519_GenerateKeyPair clientHello_marshal_eq buildClientHello_def Let_def)

theorem handshake_order_witness:
  "\<exists>es c. List.map_filter ev_target es = [stateClientHello] \<and> c_state c = stateClientHello \<and>
     run (conn_step sample_crypto) (newConnection (PerformanceOptions\<lparr>Suite := zeroSuite\<rparr>) False 0) es c"
proof -
  let ?c0 = "newConnection (PerformanceOptions\<lparr>Suite := zeroSuite\<rparr>) False 0"
  obtain data c' tape' where
    run: "clientHello sample_crypto ?c0 (replicate 32 7 @ replicate 32 7) = (Ok data, c', tape')"
    using zero_suite_clientHello [of "replicate 32 7"] by auto
  have tr: "run (conn_step sample_crypto) ?c0 ([] @ [EvClientHello (Ok data)]) c'"
    by (rule run_snoc [where step = "conn_step sample_crypto", OF run_nil step_clientHello [OF run]])
  from handshake_order [OF tr] have "take (connectionState_code (c_state c')) handshake_states
      = [stateClientHello]" by (simp add: List.map_filter_def)
  then have "c_state c' = stateClientHello"
    by (cases "c_state c'") (simp_all add: handshake_states_def)
  with handshake_order [OF tr] tr show ?thesis
    by (intro exI [of _ "[EvClientHello (Ok data)]"] exI [of _ c']) (simp add: List.map_filter_def)
qed

section \<open>How far a handshake gets\<close>

text \<open>Documented behaviour of \<open>curve25519.X25519\<close>: a point that is not 32 bytes long is an error.\<close>

definition x25519_point_length :: "crypto \<Rightarrow> bool" where
  "x25519_point_length cr \<longleftrightarrow> (\<forall>k p. length p \<noteq> 32 \<longrightarrow> x25519 cr k p = None)"

definition stalled :: "connection \<Rightarrow> bool" where
  "stalled c \<longleftrightarrow> c_state c \<in> {stateInit, stateClientHello, stateServerHello} \<and>
     (c_state c = stateServerHello \<longrightarrow>
        Suite (c_opts c) = zeroSuite \<and> c_remoteKEMPK c = Some (publicKey []))"

lemma X25519_Encapsulate_empty:
  "x25519_point_length cr \<Longrightarrow> fst (X25519_Encapsulate cr (publicKey []) tape) \<noteq> Ok x"
  by (auto simp: X25519_Encapsulate_def x25519_point_length_def Let_def split: prod.split option.split)

lemma clientKey_stalled:
  assumes "x25519_point_length cr" "conn_wf c" "stalled c"
    and "connection_clientKey cr c tape = (r, c', tape')"
  shows "c' = c"
proof (cases "c_state c = stateServerHello")
  case True
  with assms(2,3) have "c_kem c = Some X25519KEM" "c_remoteKEMPK c = Some (publicKey [])"
    by (auto simp: stalled_def conn_wf_def state_order connection_getKEM_def getKEM_def zeroSuite_def)
  then have "fst (connection_Encapsulate cr c tape) \<noteq> Ok x" for x
    using X25519_Encapsulate_empty [OF assms(1)] by (simp add: connection_Encapsulate_def)
  with assms(4) True show ?thesis
    by (auto simp: connection_clientKey_def split: prod.splits result.splits)
qed (use assms(4) in \<open>simp add: connection_clientKey_def\<close>)

lemma conn_step_stalled:
  assumes "x25519_point_length cr" "conn_wf c" "stalled c" "conn_step cr c e c'"
  shows "stalled c'"
  using assms(4)
proof cases
  case (step_clientHello tape r tape')
  then show ?thesis
  proof (cases "c_state c = stateInit")
    case True
    then have "c_state c' = stateInit \<or> c_state c' = stateClientHello"
      using clientHello_step [OF step_clientHello(2)] by (cases r) auto
    then show ?thesis by (auto simp: stalled_def)
  next
    case False
    with step_clientHello(2) have "c' = c" by (simp add: clientHello_def)
    with assms(3) show ?thesis by simp
  qed
next
  case (step_serverHello data r)
  then show ?thesis using assms(3)
    by (auto simp: processServerHello_eq stalled_def Let_def split: if_splits)
next
  case (step_clientKey tape r tape')
  then show ?thesis using clientKey_stalled assms(1-3) by metis
next
  case (step_finished data r)
  then show ?thesis using assms(3) by (auto simp: processFinished_def stalled_def)
next
  case (step_updateKeys now tape r tape')
  then show ?thesis using assms(3) by (auto simp: updateKeys_eq stalled_def Let_def split: if_splits)
qed (use assms(3) in auto)

interpretation stall: invariant_system new_connection "conn_step cr"
  "\<lambda>c. conn_wf c \<and> (x25519_point_length cr \<longrightarrow> stalled c)" for cr
proof
  show "new_connection c \<Longrightarrow> conn_wf c \<and> (x25519_point_length cr \<longrightarrow> stalled c)" for c
    using new_connection_wf by (auto simp: new_connection_def newConnection_def stalled_def)
  show "conn_wf c \<and> (x25519_point_length cr \<longrightarrow> stalled c) \<Longrightarrow> conn_step cr c e c' \<Longrightarrow>
      conn_wf c' \<and> (x25519_point_length cr \<longrightarrow> stalled c')" for c e c'
    using conn.step_inv conn_step_stalled by blast
qed

text \<open>
  C5. No connection is ever established: whatever calls are made with whatever inputs, a
  connection never gets past ServerHello, and gets there only with the suite
  X25519/Ed25519/AES-256-GCM/SHA-256, because the ServerHello reader leaves the suite and the
  peer's KEM key at their zero values. No keys are ever installed on a reachable connection.
\<close>

theorem handshake_never_establishes:
  assumes "x25519_point_length cr" "reachable new_connection (conn_step cr) c"
  shows "c_state c \<le> stateServerHello \<and>
    (c_state c = stateServerHello \<longrightarrow> Suite (c_opts c) =
       \<lparr>KEM = X25519, Sign = Ed25519, AEAD = AES256GCM, Hash = SHA256\<rparr>) \<and>
    (\<forall>tape. fst (connection_clientKey cr c tape) \<noteq> Ok data)"
proof -
  have wf: "conn_wf c" and st: "stalled c"
    using stall.reachable_inv [OF assms(2)] assms(1) by blast+
  have "fst (connection_clientKey cr c tape) \<noteq> Ok data" for tape
  proof
    assume "fst (connection_clientKey cr c tape) = Ok data"
    then obtain c' tape' where run: "connection_clientKey cr c tape = (Ok data, c', tape')"
      by (cases "connection_clientKey cr c tape") auto
    with clientKey_step [OF run] clientKey_stalled [OF assms(1) wf st run] show False by auto
  qed
  with st show ?thesis by (auto simp: stalled_def state_order zeroSuite_def)
qed

lemma sample_point_length: "x25519_point_length sample_crypto"
  by (simp add: x25519_point_length_def sample_crypto_def)

theorem handshake_never_establishes_witness:
  "x25519_point_length sample_crypto \<and>
   c_state (newConnection PerformanceOptions False 0) \<le> stateServerHello"
proof -
  have "reachable new_connection (conn_step sample_crypto) (newConnection PerformanceOptions False 0)"
    by (rule reach_init) (auto simp: new_connection_def)
  from handshake_never_establishes [OF sample_point_length this] sample_point_length
  show ?thesis by blast
qed

text \<open>
  C24. The first message of each preset. With the default options the call panics (after 32
  random bytes were drawn) and the connection stays in its initial state; with the
  conservative options it sends a ClientHello whose only extension is the PQ-only marker, with
  no key share; with the performance options, one with an X25519 key share.
\<close>

theorem clientHello_presets:
  assumes "64 \<le> length tape" "x25519 cr (take 32 (drop 32 tape)) (x25519_Basepoint cr) = Some A"
  shows "(\<exists>c'. clientHello cr (newConnection DefaultOptions srv now) tape
        = (Panic NilDereference, c', drop 32 tape) \<and> c_state c' = stateInit) \<and>
    (\<exists>c'. clientHello cr (newConnection ConservativeOptions srv now) tape
        = (Ok (1 # take 32 tape @ [0, 0, 0, 0, 0, 0, 1, 0xFF, 1, 0, 1, 1]), c', drop 32 tape) \<and>
      c_state c' = stateClientHello \<and> c_kem c' = Some MLKEM1024Type \<and> c_localKEMPK c' = None) \<and>
    (\<exists>c'. clientHello cr (newConnection PerformanceOptions srv now) tape
        = (Ok (1 # take 32 tape @ [0, 0, 0, 0, 0, 0, 1, 0, 0x33, 0, 32] @ bytes32 A), c', drop 64 tape) \<and>
      c_state c' = stateClientHello \<and> c_kem c' = Some X25519KEM)"
proof -
  have be: "be16 1 = [0, 1]" "be16 0xFF01 = [0xFF, 1]" "be16 0x33 = [0, 0x33]" "be16 32 = [0, 32]"
    by (simp_all add: be16_bytes)
  note defs = clientHello_def newConnection_def connection_getKEM_def getKEM_def generateEphemeral_def
    DefaultOptions_def rand_Read_ok buildClientHello_def clientHello_marshal_eq
    clientHello_layout_def ext_layout_def protocolVersion_def extPQOnly_def extKeyShare_def Let_def
  have "\<exists>c'. clientHello cr (newConnection DefaultOptions srv now) tape
        = (Panic NilDereference, c', drop 32 tape) \<and> c_state c' = stateInit"
    using assms(1) by (simp add: defs)
  moreover have "\<exists>c'. clientHello cr (newConnection ConservativeOptions srv now) tape
        = (Ok (1 # take 32 tape @ [0, 0, 0, 0, 0, 0, 1, 0xFF, 1, 0, 1, 1]), c', drop 32 tape) \<and>
      c_state c' = stateClientHello \<and> c_kem c' = Some MLKEM1024Type \<and> c_localKEMPK c' = None"
    using assms(1) by (simp add: defs ConservativeOptions_def be eval_nat_numeral)
  moreover have "\<exists>c'. clientHello cr (newConnection PerformanceOptions srv now) tape
        = (Ok (1 # take 32 tape @ [0, 0, 0, 0, 0, 0, 1, 0, 0x33, 0, 32] @ bytes32 A), c', drop 64 tape) \<and>
      c_state c' = stateClientHello \<and> c_kem c' = Some X25519KEM"
    using assms by (simp add: defs PerformanceOptions_def X25519_GenerateKeyPair_def be eval_nat_numeral)
  ultimately show ?thesis by blast
qed

theorem clientHello_presets_witness:
  "x25519 sample_crypto (replicate 32 2) (x25519_Basepoint sample_crypto)
     = Some (get_be (replicate 32 2)) \<and>
   (\<exists>c'. clientHello sample_crypto (newConnection DefaultOptions False 0) (replicate 64 2)
      = (Panic NilDereference, c', replicate 32 2))"
proof -
  have base: "x25519 sample_crypto (take 32 (drop 32 (replicate 64 2)))
      (x25519_Basepoint sample_crypto) = Some (get_be (replicate 32 2))"
    by (simp add: sample_crypto_def get_be_bytes32)
  from clientHello_presets [of "replicate 64 2", OF _ base] base show ?thesis by fastforce
qed

section \<open>Finished and key rotation\<close>

text \<open>Documented behaviour of an AEAD: opening what was sealed gives the plaintext back.\<close>

definition aead_roundtrip :: "crypto \<Rightarrow> bool" where
  "aead_roundtrip cr \<longleftrightarrow> (\<forall>algo key nonce plaintext ad.
     aead_Open cr algo key nonce (aead_Seal cr algo key nonce plaintext ad) ad = Some plaintext)"

lemma processFinished_eq:
  assumes "conn_wf c" "c_state c = stateClientKey" "c_keys c = Some ks"
  shows "processFinished cr c encData =
     (case aead_Open cr (AEAD (Suite (c_opts c))) (serverKey ks) (be32 1 @ be64 0) encData [] of
        None \<Rightarrow> (Err FinishedDecryptFailed, c)
      | Some plaintext \<Rightarrow>
          if take 32 plaintext = computeFinishedMAC cr (serverKey ks) (c_transcript c)
          then (Ok (), c\<lparr>c_state := stateEstablished, c_sharedSecret := exporterSecret ks\<rparr>)
          else (Err FinishedMACFailed, c))"
proof -
  from assms have aead: "c_serverAEAD c = Some (AEADCipher (AEAD (Suite (c_opts c))) (serverKey ks))"
    and sid: "c_streamID c = 1"
    by (auto simp: conn_wf_def keys_installed_iff state_order defaultStreamID_def)
  have "length p < 32 \<or> take 32 p \<noteq> computeFinishedMAC cr k m \<longleftrightarrow> take 32 p \<noteq> computeFinishedMAC cr k m"
    for p k m
    by (auto simp: computeFinishedMAC_def dest: arg_cong [where f = length])
  then show ?thesis using assms(2,3) aead sid
    by (simp add: processFinished_def finishedNonce_eq Let_def split: option.split)
qed

text \<open>
  C3. In state ClientKey a Finished message is accepted exactly when it opens under the
  server key with the nonce of stream 1 and sequence number 0 and the plaintext starts with
  the MAC of the whole transcript under that key; the connection is then established and
  exports the derived secret. Every other message is an error that changes nothing. A peer
  that has the server key and the same transcript is accepted.
\<close>

theorem finished_accepts_iff:
  assumes "conn_wf c" "c_state c = stateClientKey" "c_keys c = Some ks"
  shows "(fst (processFinished cr c encData) = Ok () \<longleftrightarrow>
       (\<exists>plaintext. aead_Open cr (AEAD (Suite (c_opts c))) (serverKey ks) (be32 1 @ be64 0) encData []
            = Some plaintext \<and>
          take 32 plaintext = computeFinishedMAC cr (serverKey ks) (c_transcript c))) \<and>
    snd (processFinished cr c encData) =
      (if fst (processFinished cr c encData) = Ok ()
       then c\<lparr>c_state := stateEstablished, c_sharedSecret := exporterSecret ks\<rparr> else c) \<and>
    (aead_roundtrip cr \<longrightarrow>
       fst (processFinished cr c (aead_Seal cr (AEAD (Suite (c_opts c))) (serverKey ks) (be32 1 @ be64 0)
         (computeFinishedMAC cr (serverKey ks) (c_transcript c) @ extra) [])) = Ok ())"
proof -
  note eq = processFinished_eq [OF assms]
  have "take 32 (computeFinishedMAC cr k m @ extra) = computeFinishedMAC cr k m" for k m
    by (simp add: computeFinishedMAC_def)
  then show ?thesis
    by (auto simp: eq aead_roundtrip_def split: option.splits)
qed

definition sample_keys :: keySet where
  "sample_keys = \<lparr>clientKey = replicate 32 1, serverKey = replicate 32 2, exporterSecret = replicate 32 3\<rparr>"

definition sample_conn :: connection where
  "sample_conn = (newConnection PerformanceOptions False 0)
     \<lparr>c_state := stateClientKey, c_clientRandom := replicate 32 0, c_serverRandom := replicate 32 0,
      c_kem := Some X25519KEM, c_remoteKEMPK := Some (publicKey []), c_keys := Some sample_keys,
      c_clientAEAD := Some (AEADCipher ChaCha20Poly1305 (replicate 32 1)),
      c_serverAEAD := Some (AEADCipher ChaCha20Poly1305 (replicate 32 2))\<rparr>"

lemma sample_conn_wf:
  "conn_wf sample_conn \<and> c_state sample_conn = stateClientKey \<and> c_keys sample_conn = Some sample_keys"
  by (simp add: conn_wf_def keys_installed_def sample_conn_def sample_keys_def newConnection_def
      PerformanceOptions_def connection_getKEM_def getKEM_def)

theorem finished_accepts_iff_witness:
  "aead_roundtrip sample_crypto \<and>
   fst (processFinished sample_crypto sample_conn
     (aead_Seal sample_crypto (AEAD (Suite (c_opts sample_conn))) (serverKey sample_keys) (be32 1 @ be64 0)
       (computeFinishedMAC sample_crypto (serverKey sample_keys) (c_transcript sample_conn) @ [9]) []))
     = Ok ()"
proof -
  have "aead_roundtrip sample_crypto" by (simp add: aead_roundtrip_def sample_crypto_def)
  then show ?thesis using finished_accepts_iff [of sample_conn sample_keys] sample_conn_wf by blast
qed

text \<open>
  C25. Keys are rotated by age only: on every reachable connection the message and byte counters
  are zero, so that \<open>needsKeyUpdate\<close> answers yes exactly when a maximal age is set and more
  time than that has passed since the last update, however much was sent.
\<close>

theorem rotation_by_age_only:
  assumes "reachable new_connection (conn_step cr) c"
  shows "needsKeyUpdate c now \<longleftrightarrow>
    0 < MaxAge (KeyRotation (c_opts c)) \<and>
    MaxAge (KeyRotation (c_opts c)) < Time_Sub now (c_lastKeyUpdate c)"
proof -
  have "c_messageCount c = 0" "c_byteCount c = 0"
    using conn.reachable_inv [OF assms] by (simp_all add: conn_wf_def)
  then show ?thesis by (auto simp: needsKeyUpdate_def Let_def)
qed

theorem rotation_by_age_only_witness:
  "needsKeyUpdate (newConnection DefaultOptions False 0) (11 * Minute) \<and>
   \<not> needsKeyUpdate (newConnection DefaultOptions False 0) (9 * Minute)"
proof -
  have "reachable new_connection (conn_step sample_crypto) (newConnection DefaultOptions False 0)"
    by (rule reach_init) (auto simp: new_connection_def)
  from rotation_by_age_only [OF this] show ?thesis
    by (simp add: newConnection_def DefaultOptions_def Time_Sub_def Minute_def Second_def)
qed

text \<open>
  C26. A key update derives fresh keys from 32 random bytes and the exported secret and hands
  them to the caller, but does not install them: the connection changes only in its
  counters and the time of the last update, after which no update is due until the
  maximal age has passed again. Without entropy it fails and changes nothing.
\<close>

theorem updateKeys_not_installed:
  assumes "rotation_set (KeyRotation (c_opts c))"
  shows "(length tape < 32 \<longrightarrow> updateKeys cr c now tape = (Err RandError, c, [])) \<and>
    (32 \<le> length tape \<longrightarrow> (\<exists>ks c'. updateKeys cr c now tape = (Ok ks, c', drop 32 tape) \<and>
       deriveKeys cr (take 32 tape) (c_sharedSecret c) (Hash (Suite (c_opts c))) = Ok ks \<and>
       c' = c\<lparr>c_messageCount := 0, c_byteCount := 0, c_lastKeyUpdate := now\<rparr> \<and>
       c_keys c' = c_keys c \<and> c_clientAEAD c' = c_clientAEAD c \<and> c_serverAEAD c' = c_serverAEAD c \<and>
       (\<forall>later. Time_Sub later now \<le> MaxAge (KeyRotation (c_opts c)) \<longrightarrow> \<not> needsKeyUpdate c' later)))"
proof -
  obtain ks where "deriveKeys cr (take 32 tape) (c_sharedSecret c) (Hash (Suite (c_opts c))) = Ok ks"
    by (simp add: deriveKeys_eq)
  with assms show ?thesis
    by (auto simp: updateKeys_eq rotation_set_def needsKeyUpdate_def Let_def)
qed

theorem updateKeys_not_installed_witness:
  "\<exists>ks c'. updateKeys sample_crypto sample_conn 5 (replicate 32 7) = (Ok ks, c', []) \<and>
     c_keys c' = Some sample_keys"
proof -
  have "rotation_set (KeyRotation (c_opts sample_conn))"
    by (simp add: sample_conn_def newConnection_def PerformanceOptions_def DefaultOptions_def
        rotation_set_def)
  from updateKeys_not_installed [OF this, of "replicate 32 7" sample_crypto 5] sample_conn_wf
  show ?thesis by auto
qed

end
