(* ===== verification/QZMQ_Socket.thy ===== *)
theory QZMQ_Socket
  imports QZMQ_Types
begin

text \<open>
  The socket of \<open>src/backend.go\<close> over the ZeroMQ library \<open>luxfi/zmq\<close>. The library is the record
  \<open>zmq_lib\<close>, an argument of the operations: its socket is a value of the type \<open>'z\<close>, which every
  library call may change, and what a call returns is arbitrary. Each operation is one
  function on the record of the socket; the lock is held throughout an operation that
  writes, so the runs below are sequences of operations (the reads that share the lock are
  treated in a theory of their own). The locale \<open>socket_contract\<close> states what closing promises.
\<close>

section \<open>The library\<close>

record zmqMsg =
  Frames :: "bytes list"

datatype zmq_option = OptionSubscribe | OptionUnsubscribe | OptionHWM

record 'z zmq_lib =
  zmq_New :: "SocketType \<Rightarrow> 'z option"
    \<comment> \<open>\<open>NewReq\<close>, \<open>NewRep\<close>, \dots on a fresh context; \<open>None\<close> is a nil socket\<close>
  zmq_NewMsg :: "bytes \<Rightarrow> zmqMsg"
  zmq_NewMsgFrom :: "bytes list \<Rightarrow> zmqMsg"
  zmq_Listen :: "'z \<Rightarrow> string \<Rightarrow> (error, unit) result \<times> 'z"
  zmq_Dial :: "'z \<Rightarrow> string \<Rightarrow> (error, unit) result \<times> 'z"
  zmq_Send :: "'z \<Rightarrow> zmqMsg \<Rightarrow> (error, unit) result \<times> 'z"
  zmq_Recv :: "'z \<Rightarrow> (error, zmqMsg) result \<times> 'z"
  zmq_SetOption :: "'z \<Rightarrow> zmq_option \<Rightarrow> gvalue \<Rightarrow> (error, unit) result \<times> 'z"
  zmq_Close :: "'z \<Rightarrow> (error, unit) result \<times> 'z"
  zmq_Cancelled :: "'z \<Rightarrow> 'z"
    \<comment> \<open>what the cancellation of its context does to a socket\<close>

section \<open>Sockets\<close>

record 'z zmqSocket =
  s_socket :: 'z
  s_socketType :: SocketType
  s_opts :: Options
  s_metrics :: SocketMetrics
  s_closed :: bool
  s_cancelled :: bool \<comment> \<open>the state of \<open>ctx\<close>\<close>

definition newGoSocket ::
  "'z zmq_lib \<Rightarrow> SocketType \<Rightarrow> Options \<Rightarrow> (error, 'z zmqSocket) result" where
  "newGoSocket lib socketType opts = (case socketType of
     SocketTypeOther _ \<Rightarrow> Err (UnsupportedSocketType socketType)
   | _ \<Rightarrow> (case zmq_New lib socketType of
        None \<Rightarrow> Err CreateSocketFailed
      | Some socket \<Rightarrow> Ok \<lparr>s_socket = socket, s_socketType = socketType, s_opts = opts,
          s_metrics = NewSocketMetrics, s_closed = False, s_cancelled = False\<rparr>))"

text \<open>A library call on the socket, with its outcome passed on.\<close>

definition via_lib :: "(error, 'a) result \<times> 'z \<Rightarrow> 'z zmqSocket \<Rightarrow> (error, 'a) result \<times> 'z zmqSocket" where
  "via_lib r s = (fst r, s\<lparr>s_socket := snd r\<rparr>)"

definition Bind :: "'z zmq_lib \<Rightarrow> 'z zmqSocket \<Rightarrow> string \<Rightarrow> (error, unit) result \<times> 'z zmqSocket" where
  "Bind lib s endpoint =
     (if s_closed s then (Err ErrNotConnected, s)
      else via_lib (zmq_Listen lib (s_socket s) endpoint) s)"

definition Connect :: "'z zmq_lib \<Rightarrow> 'z zmqSocket \<Rightarrow> string \<Rightarrow> (error, unit) result \<times> 'z zmqSocket" where
  "Connect lib s endpoint =
     (if s_closed s then (Err ErrNotConnected, s)
      else via_lib (zmq_Dial lib (s_socket s) endpoint) s)"

definition count_sent :: "nat \<Rightarrow> SocketMetrics \<Rightarrow> SocketMetrics" where
  "count_sent n m = m\<lparr>BytesSent := BytesSent m + of_nat n\<rparr>"

definition count_received :: "nat \<Rightarrow> SocketMetrics \<Rightarrow> SocketMetrics" where
  "count_received n m = m\<lparr>BytesReceived := BytesReceived m + of_nat n\<rparr>"

definition Send :: "'z zmq_lib \<Rightarrow> 'z zmqSocket \<Rightarrow> bytes \<Rightarrow> (error, unit) result \<times> 'z zmqSocket" where
  "Send lib s data =
     (if s_closed s then (Err ErrNotConnected, s)
      else
      let msg = zmq_NewMsg lib data in
      case zmq_Send lib (s_socket s) msg of
        (Err e, z) \<Rightarrow> (Err e, s\<lparr>s_socket := z\<rparr>)
      | (Panic q, z) \<Rightarrow> (Panic q, s\<lparr>s_socket := z\<rparr>)
      | (Ok _, z) \<Rightarrow>
          let m = s_metrics s;
              m = m\<lparr>MessagesSent := MessagesSent m + 1\<rparr>;
              m = count_sent (length data) m
          in (Ok (), s\<lparr>s_socket := z, s_metrics := m\<rparr>))"

definition SendMultipart ::
  "'z zmq_lib \<Rightarrow> 'z zmqSocket \<Rightarrow> bytes list \<Rightarrow> (error, unit) result \<times> 'z zmqSocket" where
  "SendMultipart lib s parts =
     (if s_closed s then (Err ErrNotConnected, s)
      else
      let msg = zmq_NewMsgFrom lib parts in
      case zmq_Send lib (s_socket s) msg of
        (Err e, z) \<Rightarrow> (Err e, s\<lparr>s_socket := z\<rparr>)
      | (Panic q, z) \<Rightarrow> (Panic q, s\<lparr>s_socket := z\<rparr>)
      | (Ok _, z) \<Rightarrow>
          let m = s_metrics s;
              m = m\<lparr>MessagesSent := MessagesSent m + 1\<rparr>;
              m = fold (\<lambda>part. count_sent (length part)) parts m
          in (Ok (), s\<lparr>s_socket := z, s_metrics := m\<rparr>))"

definition Recv :: "'z zmq_lib \<Rightarrow> 'z zmqSocket \<Rightarrow> (error, bytes) result \<times> 'z zmqSocket" where
  "Recv lib s =
     (if s_closed s then (Err ErrNotConnected, s)
      else case zmq_Recv lib (s_socket s) of
        (Err e, z) \<Rightarrow> (Err e, s\<lparr>s_socket := z\<rparr>)
      | (Panic q, z) \<Rightarrow> (Panic q, s\<lparr>s_socket := z\<rparr>)
      | (Ok msg, z) \<Rightarrow>
          (case Frames msg of
             [] \<Rightarrow> (Ok [], s\<lparr>s_socket := z\<rparr>)
           | data # _ \<Rightarrow>
               let m = s_metrics s;
                   m = m\<lparr>MessagesReceived := MessagesReceived m + 1\<rparr>;
                   m = count_received (length data) m
               in (Ok data, s\<lparr>s_socket := z, s_metrics := m\<rparr>)))"

definition RecvMultipart ::
  "'z zmq_lib \<Rightarrow> 'z zmqSocket \<Rightarrow> (error, bytes list) result \<times> 'z zmqSocket" where
  "RecvMultipart lib s =
     (if s_closed s then (Err ErrNotConnected, s)
      else case zmq_Recv lib (s_socket s) of
        (Err e, z) \<Rightarrow> (Err e, s\<lparr>s_socket := z\<rparr>)
      | (Panic q, z) \<Rightarrow> (Panic q, s\<lparr>s_socket := z\<rparr>)
      | (Ok msg, z) \<Rightarrow>
          let frames = Frames msg;
              m = s_metrics s;
              m = m\<lparr>MessagesReceived := MessagesReceived m + 1\<rparr>;
              m = fold (\<lambda>frame. count_received (length frame)) frames m
          in (Ok frames, s\<lparr>s_socket := z, s_metrics := m\<rparr>))"

definition Subscribe :: "'z zmq_lib \<Rightarrow> 'z zmqSocket \<Rightarrow> string \<Rightarrow> (error, unit) result \<times> 'z zmqSocket"
  where
  "Subscribe lib s filt =
     (if s_closed s then (Err ErrNotConnected, s)
      else if s_socketType s \<noteq> SUB \<and> s_socketType s \<noteq> XSUB then (Err SubscribeOnlyForSub, s)
      else if s_socketType s = XSUB
        then via_lib (zmq_Send lib (s_socket s) (zmq_NewMsg lib (1 # bytes_of_string filt))) s
      else via_lib (zmq_SetOption lib (s_socket s) OptionSubscribe (VString filt)) s)"

definition Unsubscribe :: "'z zmq_lib \<Rightarrow> 'z zmqSocket \<Rightarrow> string \<Rightarrow> (error, unit) result \<times> 'z zmqSocket"
  where
  "Unsubscribe lib s filt =
     (if s_closed s then (Err ErrNotConnected, s)
      else if s_socketType s \<noteq> SUB \<and> s_socketType s \<noteq> XSUB then (Err UnsubscribeOnlyForSub, s)
      else if s_socketType s = XSUB
        then via_lib (zmq_Send lib (s_socket s) (zmq_NewMsg lib (0 # bytes_of_string filt))) s
      else via_lib (zmq_SetOption lib (s_socket s) OptionUnsubscribe (VString filt)) s)"

definition Socket_SetOption ::
  "'z zmq_lib \<Rightarrow> 'z zmqSocket \<Rightarrow> string \<Rightarrow> gvalue \<Rightarrow> (error, unit) result \<times> 'z zmqSocket" where
  "Socket_SetOption lib s name value =
     (if s_closed s then (Err ErrNotConnected, s)
      else if name = ''sndhwm'' \<or> name = ''rcvhwm''
        then (case value of
            VInt v \<Rightarrow> via_lib (zmq_SetOption lib (s_socket s) OptionHWM (VInt v)) s
          | _ \<Rightarrow> (Err (UnsupportedOption name), s))
      else if name = ''linger'' then (Ok (), s)
      else if name = ''identity'' then (Ok (), s)
      else if name = ''rcvtimeo'' \<or> name = ''sndtimeo'' then (Ok (), s)
      else (Err (UnsupportedOption name), s))"

definition Socket_GetOption :: "'z zmqSocket \<Rightarrow> string \<Rightarrow> (error, gvalue) result" where
  "Socket_GetOption s name =
     (if s_closed s then Err ErrNotConnected
      else if name = ''type'' then Ok (VSocketType (s_socketType s))
      else if name = ''suite'' \<or> name = ''qzmq.suite'' then Ok (VSuite (Suite (s_opts s)))
      else if name = ''qzmq.encrypted''
        then Ok (VBool (KemAlgorithm_code (KEM (Suite (s_opts s))) \<noteq> 0 \<or>
                        SignatureAlgorithm_code (Sign (Suite (s_opts s))) \<noteq> 0))
      else if name = ''sndhwm'' \<or> name = ''rcvhwm'' then Ok (VInt 1000)
      else if name = ''identity'' then Ok (VString '''')
      else Err (UnsupportedOption name))"

text \<open>Cancelling a context a second time does nothing.\<close>

definition cancel :: "'z zmq_lib \<Rightarrow> 'z zmqSocket \<Rightarrow> 'z zmqSocket" where
  "cancel lib s =
     (if s_cancelled s then s
      else s\<lparr>s_cancelled := True, s_socket := zmq_Cancelled lib (s_socket s)\<rparr>)"

definition Close :: "'z zmq_lib \<Rightarrow> 'z zmqSocket \<Rightarrow> (error, unit) result \<times> 'z zmqSocket" where
  "Close lib s =
     (let s = cancel lib s in
      if s_closed s then (Ok (), s)
      else
      let s = s\<lparr>s_closed := True\<rparr> in via_lib (zmq_Close lib (s_socket s)) s)"

definition GetMetrics :: "'z zmqSocket \<Rightarrow> SocketMetrics" where
  "GetMetrics s = s_metrics s"

section \<open>Calls and runs\<close>

datatype sock_op = OpBind string | OpConnect string | OpSend bytes | OpSendMultipart "bytes list"
  | OpRecv | OpRecvMultipart | OpSubscribe string | OpUnsubscribe string
  | OpSetOption string gvalue | OpGetOption string | OpClose

datatype sock_out = OutUnit "(error, unit) result" | OutBytes "(error, bytes) result"
  | OutParts "(error, bytes list) result" | OutValue "(error, gvalue) result"

fun sock_exec :: "'z zmq_lib \<Rightarrow> sock_op \<Rightarrow> 'z zmqSocket \<Rightarrow> sock_out \<times> 'z zmqSocket" where
  "sock_exec lib (OpBind ep) s = apfst OutUnit (Bind lib s ep)"
| "sock_exec lib (OpConnect ep) s = apfst OutUnit (Connect lib s ep)"
| "sock_exec lib (OpSend d) s = apfst OutUnit (Send lib s d)"
| "sock_exec lib (OpSendMultipart ps) s = apfst OutUnit (SendMultipart lib s ps)"
| "sock_exec lib OpRecv s = apfst OutBytes (Recv lib s)"
| "sock_exec lib OpRecvMultipart s = apfst OutParts (RecvMultipart lib s)"
| "sock_exec lib (OpSubscribe f) s = apfst OutUnit (Subscribe lib s f)"
| "sock_exec lib (OpUnsubscribe f) s = apfst OutUnit (Unsubscribe lib s f)"
| "sock_exec lib (OpSetOption n v) s = apfst OutUnit (Socket_SetOption lib s n v)"
| "sock_exec lib (OpGetOption n) s = (OutValue (Socket_GetOption s n), s)"
| "sock_exec lib OpClose s = apfst OutUnit (Close lib s)"

primrec exec_run :: "(sock_op \<Rightarrow> 's \<Rightarrow> sock_out \<times> 's) \<Rightarrow> sock_op list \<Rightarrow> 's \<Rightarrow> sock_out list \<times> 's" where
  "exec_run ex [] s = ([], s)"
| "exec_run ex (op # ops) s =
     (let (out, s) = ex op s; (outs, s) = exec_run ex ops s in (out # outs, s))"

lemma exec_run_append:
  "exec_run ex (xs @ ys) s =
     (let (o1, s) = exec_run ex xs s; (o2, s) = exec_run ex ys s in (o1 @ o2, s))"
  by (induction xs arbitrary: s) (auto split: prod.split)

text \<open>The answer of a closed socket.\<close>

fun closed_answer :: "sock_op \<Rightarrow> sock_out" where
  "closed_answer OpRecv = OutBytes (Err ErrNotConnected)"
| "closed_answer OpRecvMultipart = OutParts (Err ErrNotConnected)"
| "closed_answer (OpGetOption n) = OutValue (Err ErrNotConnected)"
| "closed_answer OpClose = OutUnit (Ok ())"
| "closed_answer _ = OutUnit (Err ErrNotConnected)"

locale socket_contract =
  fixes ex :: "sock_op \<Rightarrow> 's \<Rightarrow> sock_out \<times> 's" and closed :: "'s \<Rightarrow> bool"
  assumes closed_call: "closed s \<Longrightarrow> ex op s = (closed_answer op, s)"
    and close_closes: "closed (snd (ex OpClose s))"
    and only_close_closes: "op \<noteq> OpClose \<Longrightarrow> closed (snd (ex op s)) \<Longrightarrow> closed s"
begin

lemma closed_run: "closed s \<Longrightarrow> exec_run ex ops s = (map closed_answer ops, s)"
  by (induction ops) (simp_all add: closed_call)

lemma after_close: "exec_run ex ops (snd (ex OpClose s)) = (map closed_answer ops, snd (ex OpClose s))"
  by (rule closed_run) (rule close_closes)

lemma closed_after_run:
  "closed (snd (exec_run ex ops s)) \<longleftrightarrow> closed s \<or> OpClose \<in> set ops"
proof (induction ops arbitrary: s)
  case (Cons op ops)
  have "closed (snd (ex op s)) \<longleftrightarrow> closed s \<or> op = OpClose"
    using closed_call [of s op] close_closes [of s] only_close_closes [of op s] by auto
  then show ?case using Cons [of "snd (ex op s)"] by (auto split: prod.splits)
qed simp

end

definition sock_shut :: "'z zmqSocket \<Rightarrow> bool" where
  "sock_shut s \<longleftrightarrow> s_closed s \<and> s_cancelled s"

lemmas sock_defs [sock_simps] = Bind_def Connect_def Send_def SendMultipart_def Recv_def
  RecvMultipart_def Subscribe_def Unsubscribe_def Socket_SetOption_def Socket_GetOption_def
  Close_def cancel_def via_lib_def

lemma sock_exec_shut:
  "op \<noteq> OpClose \<Longrightarrow> s_closed (snd (sock_exec lib op s)) = s_closed s
     \<and> s_cancelled (snd (sock_exec lib op s)) = s_cancelled s"
  by (cases op) (auto simp: sock_simps Let_def split: prod.split result.split list.split gvalue.split)

interpretation socket: socket_contract "sock_exec lib" sock_shut for lib
proof
  fix s op
  show "sock_shut s \<Longrightarrow> sock_exec lib op s = (closed_answer op, s)"
    by (cases op) (simp_all add: sock_shut_def sock_simps)
  show "sock_shut (snd (sock_exec lib OpClose s))"
    by (auto simp: sock_shut_def sock_simps Let_def)
  show "op \<noteq> OpClose \<Longrightarrow> sock_shut (snd (sock_exec lib op s)) \<Longrightarrow> sock_shut s"
    using sock_exec_shut [of op lib s] by (simp add: sock_shut_def)
qed

text \<open>
  C13. Closing is final: after \<open>Close\<close>, whether the library reports an error or not, every later
  call in any number and order leaves the socket as it is; a further \<open>Close\<close> succeeds
  and everything else answers \<open>ErrNotConnected\<close>, without reaching the library. No other
  call closes an open socket.
\<close>

theorem socket_close_final:
  "exec_run (sock_exec lib) ops (snd (Close lib s)) = (map closed_answer ops, snd (Close lib s)) \<and>
   (s_closed (snd (exec_run (sock_exec lib) ops s)) \<and> s_cancelled (snd (exec_run (sock_exec lib) ops s))
      \<longleftrightarrow> (s_closed s \<and> s_cancelled s) \<or> OpClose \<in> set ops)"
  using socket.after_close [of lib ops s] socket.closed_after_run [of lib ops s]
  by (simp add: sock_shut_def)

section \<open>Metrics\<close>

text \<open>The message parts that a call passed to, or took from, the library.\<close>

fun sent_parts :: "sock_op \<times> sock_out \<Rightarrow> bytes list option" where
  "sent_parts (OpSend d, OutUnit (Ok _)) = Some [d]"
| "sent_parts (OpSendMultipart ps, OutUnit (Ok _)) = Some ps"
| "sent_parts _ = None"

fun received_parts :: "sock_op \<times> sock_out \<Rightarrow> bytes list option" where
  "received_parts (OpRecv, OutBytes (Ok d)) = Some [d]"
| "received_parts (OpRecvMultipart, OutParts (Ok ps)) = Some ps"
| "received_parts _ = None"

definition sent_log :: "sock_op list \<Rightarrow> sock_out list \<Rightarrow> bytes list list" where
  "sent_log ops outs = List.map_filter sent_parts (zip ops outs)"

definition received_log :: "sock_op list \<Rightarrow> sock_out list \<Rightarrow> bytes list list" where
  "received_log ops outs = List.map_filter received_parts (zip ops outs)"

definition total_bytes :: "bytes list list \<Rightarrow> nat" where
  "total_bytes log = sum_list (map length (concat log))"

lemma total_bytes_simps [simp]:
  "total_bytes [] = 0" "total_bytes (ps # log) = sum_list (map length ps) + total_bytes log"
  by (simp_all add: total_bytes_def)

lemma log_simps [simp]:
  "sent_log [] outs = []"
  "sent_log (op # ops) (out # outs) =
     (case sent_parts (op, out) of None \<Rightarrow> [] | Some ps \<Rightarrow> [ps]) @ sent_log ops outs"
  "received_log [] outs = []"
  "received_log (op # ops) (out # outs) =
     (case received_parts (op, out) of None \<Rightarrow> [] | Some ps \<Rightarrow> [ps]) @ received_log ops outs"
  by (simp_all add: sent_log_def received_log_def List.map_filter_def split: option.split)

lemma fold_count_sent:
  "fold (\<lambda>part. count_sent (length part)) parts m
     = m\<lparr>BytesSent := BytesSent m + of_nat (sum_list (map length parts))\<rparr>"
  by (induction parts arbitrary: m) (simp_all add: count_sent_def add.assoc)

lemma fold_count_received:
  "fold (\<lambda>frame. count_received (length frame)) frames m
     = m\<lparr>BytesReceived := BytesReceived m + of_nat (sum_list (map length frames))\<rparr>"
  by (induction frames arbitrary: m) (simp_all add: count_received_def add.assoc)

text \<open>The library delivers no message without a frame.\<close>

definition delivers_frames :: "'z zmq_lib \<Rightarrow> bool" where
  "delivers_frames lib \<longleftrightarrow> (\<forall>z msg z'. zmq_Recv lib z = (Ok msg, z') \<longrightarrow> Frames msg \<noteq> [])"

definition counted :: "SocketMetrics \<Rightarrow> bytes list list \<Rightarrow> bytes list list \<Rightarrow> SocketMetrics \<Rightarrow> bool" where
  "counted m sent received m' \<longleftrightarrow>
     MessagesSent m' = MessagesSent m + of_nat (length sent) \<and>
     BytesSent m' = BytesSent m + of_nat (total_bytes sent) \<and>
     BytesReceived m' = BytesReceived m + of_nat (total_bytes received) \<and>
     Errors m' = Errors m \<and> KeyUpdates m' = KeyUpdates m \<and> AverageLatency m' = AverageLatency m"

lemma sock_exec_counted:
  assumes "sock_exec lib op s = (out, s')"
  shows "counted (s_metrics s) (sent_log [op] [out]) (received_log [op] [out]) (s_metrics s')"
  using assms
  by (cases op) (auto simp: sock_simps Let_def counted_def fold_count_sent fold_count_received
      count_sent_def count_received_def
      split: if_splits prod.splits result.splits list.splits gvalue.splits)

lemma sock_exec_counts_received:
  assumes "sock_exec lib op s = (out, s')" "delivers_frames lib"
  shows "MessagesReceived (s_metrics s')
    = MessagesReceived (s_metrics s) + of_nat (length (received_log [op] [out]))"
  using assms
  by (cases op) (auto simp: sock_simps Let_def fold_count_sent fold_count_received
      count_sent_def count_received_def delivers_frames_def
      split: if_splits prod.splits result.splits list.splits gvalue.splits)

lemma counted_trans:
  "counted m a b m' \<Longrightarrow> counted m' c d m'' \<Longrightarrow> counted m (a @ c) (b @ d) m''"
  by (simp add: counted_def total_bytes_def)

text \<open>
  C8. The metrics are exact modulo \<open>2\<^sup>6\<^sup>4\<close>: after any sequence of calls, the counters of sent
  messages, sent bytes and received bytes have grown by exactly what the successful calls
  sent and returned, whatever the library did, and so has the counter of received messages if
  the library delivers no empty message. Failed calls, subscriptions and options count nothing,
  and the counters of errors, key updates and latency are never written.
\<close>

theorem metrics_account_for_run:
  assumes "exec_run (sock_exec lib) ops s = (outs, s')"
  shows "counted (s_metrics s) (sent_log ops outs) (received_log ops outs) (s_metrics s') \<and>
    (delivers_frames lib \<longrightarrow> MessagesReceived (s_metrics s')
       = MessagesReceived (s_metrics s) + of_nat (length (received_log ops outs)))"
  using assms
proof (induction ops arbitrary: s outs)
  case Nil
  then show ?case by (simp add: counted_def)
next
  case (Cons op ops)
  from Cons.prems obtain out s1 outs' where step: "sock_exec lib op s = (out, s1)"
    and run: "exec_run (sock_exec lib) ops s1 = (outs', s')" and outs: "outs = out # outs'"
    by (auto simp: Let_def split: prod.splits)
  from counted_trans [OF sock_exec_counted [OF step] conjunct1 [OF Cons.IH [OF run]]]
    sock_exec_counts_received [OF step] conjunct2 [OF Cons.IH [OF run]]
  show ?case by (simp add: outs)
qed

text \<open>An instance of the library: an echo socket, the state being the messages not yet read.\<close>

definition echo_lib :: "zmqMsg list zmq_lib" where
  "echo_lib = \<lparr>zmq_New = (\<lambda>t. Some []), zmq_NewMsg = (\<lambda>d. \<lparr>Frames = [d]\<rparr>),
     zmq_NewMsgFrom = (\<lambda>ps. \<lparr>Frames = ps\<rparr>),
     zmq_Listen = (\<lambda>z ep. (Ok (), z)), zmq_Dial = (\<lambda>z ep. (Ok (), z)),
     zmq_Send = (\<lambda>z m. if Frames m = [] then (Err (LibError ''empty''), z) else (Ok (), z @ [m])),
     zmq_Recv = (\<lambda>z. case z of [] \<Rightarrow> (Err (LibError ''timeout''), z)
        | m # z' \<Rightarrow> (if Frames m = [] then (Err (LibError ''empty''), z') else (Ok m, z'))),
     zmq_SetOption = (\<lambda>z n v. (Ok (), z)), zmq_Close = (\<lambda>z. (Ok (), [])),
     zmq_Cancelled = (\<lambda>z. z)\<rparr>"

definition echo_socket :: "SocketType \<Rightarrow> zmqMsg list zmqSocket" where
  "echo_socket t = \<lparr>s_socket = [], s_socketType = t, s_opts = DefaultOptions,
     s_metrics = NewSocketMetrics, s_closed = False, s_cancelled = False\<rparr>"

lemma echo_delivers: "delivers_frames echo_lib"
  by (auto simp: delivers_frames_def echo_lib_def split: list.splits if_splits)

theorem metrics_account_for_run_witness:
  "\<exists>outs s'. exec_run (sock_exec echo_lib) [OpSend [1, 2, 3], OpRecv] (echo_socket PAIR) = (outs, s') \<and>
     BytesSent (s_metrics s') = 3 \<and> MessagesReceived (s_metrics s') = 1"
proof -
  obtain s' where run: "exec_run (sock_exec echo_lib) [OpSend [1, 2, 3], OpRecv] (echo_socket PAIR)
      = ([OutUnit (Ok ()), OutBytes (Ok [1, 2, 3])], s')"
    by (simp add: sock_simps echo_lib_def echo_socket_def Let_def)
  from metrics_account_for_run [OF run] echo_delivers run show ?thesis
    by (auto simp: counted_def echo_socket_def NewSocketMetrics_def)
qed

section \<open>Configuration\<close>

lemma sock_exec_opts:
  assumes "\<forall>n. op \<noteq> OpGetOption n"
  shows "sock_exec lib op (s\<lparr>s_opts := opts\<rparr>) = apsnd (\<lambda>s. s\<lparr>s_opts := opts\<rparr>) (sock_exec lib op s)"
  using assms
  by (cases op) (auto simp: sock_simps Let_def split: prod.split result.split list.split gvalue.split)

text \<open>
  C23. The options of a socket, its cipher suite among them, have no influence on what is
  sent and received: two sockets that differ only in their options give, on the same calls, the
  same results, the same calls to the library and the same metrics, reading an option
  back excepted. In particular the bytes passed to the library are the caller's, unencrypted,
  for every suite.
\<close>

theorem suite_has_no_effect:
  assumes "\<forall>op \<in> set ops. \<forall>n. op \<noteq> OpGetOption n"
  shows "exec_run (sock_exec lib) ops (s\<lparr>s_opts := opts\<rparr>)
      = apsnd (\<lambda>s. s\<lparr>s_opts := opts\<rparr>) (exec_run (sock_exec lib) ops s)"
  using assms
  by (induction ops arbitrary: s) (simp_all add: sock_exec_opts Let_def split: prod.split)

theorem suite_has_no_effect_witness:
  "s_socket (snd (exec_run (sock_exec echo_lib) [OpSend [1, 2]]
      ((echo_socket PUB)\<lparr>s_opts := ConservativeOptions\<rparr>))) = [\<lparr>Frames = [[1, 2]]\<rparr>]"
proof -
  have "s_socket (snd (exec_run (sock_exec echo_lib) [OpSend [1, 2]] (echo_socket PUB)))
      = [\<lparr>Frames = [[1, 2]]\<rparr>]"
    by (simp add: sock_simps echo_lib_def echo_socket_def Let_def)
  then show ?thesis
    using suite_has_no_effect [of "[OpSend [1, 2]]" echo_lib ConservativeOptions "echo_socket PUB"]
    by (simp add: apsnd_def map_prod_def split: prod.splits)
qed

text \<open>
  C34. Socket creation accepts exactly the twelve declared types (given that the library builds
  them); the new socket is open, reports the type and the suite it was made with, and
  reports \<open>qzmq.encrypted\<close> as false exactly when its suite is X25519 with Ed25519.
\<close>

theorem newGoSocket_reports:
  assumes "zmq_New lib t \<noteq> None"
  shows "if SocketType_code t < 12
    then \<exists>s. newGoSocket lib t opts = Ok s \<and> \<not> s_closed s \<and> GetMetrics s = NewSocketMetrics \<and>
      Socket_GetOption s ''type'' = Ok (VSocketType t) \<and>
      Socket_GetOption s ''qzmq.suite'' = Ok (VSuite (Suite opts)) \<and>
      Socket_GetOption s ''qzmq.encrypted''
        = Ok (VBool (\<not> (KEM (Suite opts) = X25519 \<and> Sign (Suite opts) = Ed25519)))
    else newGoSocket lib t opts = Err (UnsupportedSocketType t)"
proof -
  from assms obtain z where z: "zmq_New lib t = Some z" by blast
  let ?s = "\<lparr>s_socket = z, s_socketType = t, s_opts = opts, s_metrics = NewSocketMetrics,
    s_closed = False, s_cancelled = False\<rparr>"
  have codes: "KemAlgorithm_code k = 0 \<longleftrightarrow> k = X25519" "SignatureAlgorithm_code g = 0 \<longleftrightarrow> g = Ed25519"
    for k g by (cases k; simp) (cases g; simp)
  have "SocketType_code t < 12 \<Longrightarrow> newGoSocket lib t opts = Ok ?s"
    and bad: "\<not> SocketType_code t < 12 \<Longrightarrow> newGoSocket lib t opts = Err (UnsupportedSocketType t)"
    using z by (cases t; simp add: newGoSocket_def)+
  moreover have "\<not> s_closed ?s \<and> GetMetrics ?s = NewSocketMetrics \<and>
      Socket_GetOption ?s ''type'' = Ok (VSocketType t) \<and>
      Socket_GetOption ?s ''qzmq.suite'' = Ok (VSuite (Suite opts)) \<and>
      Socket_GetOption ?s ''qzmq.encrypted''
        = Ok (VBool (\<not> (KEM (Suite opts) = X25519 \<and> Sign (Suite opts) = Ed25519)))"
    by (simp add: Socket_GetOption_def GetMetrics_def codes)
  ultimately show ?thesis by auto
qed

theorem newGoSocket_reports_witness:
  "(\<exists>s. newGoSocket echo_lib DEALER PerformanceOptions = Ok s \<and>
      Socket_GetOption s ''qzmq.encrypted'' = Ok (VBool False)) \<and>
   newGoSocket echo_lib (SocketTypeOther 3) DefaultOptions
     = Err (UnsupportedSocketType (SocketTypeOther 3))"
  using newGoSocket_reports [of echo_lib DEALER PerformanceOptions]
    newGoSocket_reports [of echo_lib "SocketTypeOther 3" DefaultOptions]
  by (auto simp: echo_lib_def PerformanceOptions_def)

end
