(* ===== verification/QZMQ_Transport.thy ===== *)
theory QZMQ_Transport
  imports QZMQ_Socket "HOL-Library.AList" "HOL-Library.Multiset"
begin

text \<open>
  The transport of \<open>src/qzmq.go\<close>: creation with validated options, the table of its sockets, its
  options, statistics and closing. Sockets are shared between the table and the caller, so
  they live in a heap and the table holds their addresses under the printed pointer, as
  \<open>fmt.Sprintf("%p", socket)\<close> does. A Go map that may be nil is an optional association list; the
  order in which a \<open>range\<close> loop visits it is an argument. \<open>trans_step\<close> interleaves the
  transport's operations with any calls on the sockets; the lemmas establish its invariant,
  what closing does to all sockets, and the option store.
\<close>

section \<open>State and operations\<close>

type_synonym 'z heap = "nat \<rightharpoonup> 'z zmqSocket"

record transport =
  t_opts :: Options
  t_backend :: Backend
  t_sockets :: "(string \<times> nat) list option"
  t_stats :: Stats
  t_options :: "(string \<times> gvalue) list option"
  t_closed :: bool

definition initGoBackend :: "(error, unit) result" where
  "initGoBackend = Ok ()"

definition initBackend :: "transport \<Rightarrow> (error, unit) result" where
  "initBackend t = (case t_backend t of
     BackendGo \<Rightarrow> initGoBackend
   | _ \<Rightarrow> Err (UnsupportedBackend (t_backend t)))"

definition New :: "Options \<Rightarrow> (error, transport) result" where
  "New opts = (case validateOptions (Some opts) of
     Err e \<Rightarrow> Err e
   | Panic q \<Rightarrow> Panic q
   | Ok opts \<Rightarrow>
     let backend = Backend opts;
         backend = (if backend = BackendAuto then BackendGo else backend);
         t = \<lparr>t_opts = opts, t_backend = backend, t_sockets = Some [], t_stats = zeroStats,
              t_options = None, t_closed = False\<rparr>
     in case initBackend t of
       Err e \<Rightarrow> Err (InitBackendFailed e)
     | Panic q \<Rightarrow> Panic q
     | Ok _ \<Rightarrow> Ok t)"

text \<open>The new socket is allocated at \<open>addr\<close>. Storing into a nil map panics.\<close>

definition NewSocket :: "'z zmq_lib \<Rightarrow> transport \<Rightarrow> 'z heap \<Rightarrow> SocketType \<Rightarrow> nat
    \<Rightarrow> (error, nat) result \<times> transport \<times> 'z heap" where
  "NewSocket lib t h socketType addr =
     (if t_closed t then (Err TransportClosed, t, h)
      else case t_backend t of
        BackendGo \<Rightarrow>
          (case newGoSocket lib socketType (t_opts t) of
             Err e \<Rightarrow> (Err e, t, h)
           | Panic q \<Rightarrow> (Panic q, t, h)
           | Ok socket \<Rightarrow>
             let h = h(addr \<mapsto> socket);
                 socketID = sprintf_p addr
             in case t_sockets t of
               None \<Rightarrow> (Panic NilDereference, t, h)
             | Some sockets \<Rightarrow>
                 (Ok addr, t\<lparr>t_sockets := Some (AList.update socketID addr sockets)\<rparr>, h))
      | _ \<Rightarrow> (Err (UnsupportedBackend (t_backend t)), t, h))"

definition Transport_SetOption :: "transport \<Rightarrow> string \<Rightarrow> gvalue \<Rightarrow> (error, unit) result \<times> transport"
  where
  "Transport_SetOption t name value =
     (let opts = (case t_options t of None \<Rightarrow> [] | Some m \<Rightarrow> m)
      in (Ok (), t\<lparr>t_options := Some (AList.update name value opts)\<rparr>))"

definition Transport_GetOption :: "transport \<Rightarrow> string \<Rightarrow> (error, gvalue) result" where
  "Transport_GetOption t name =
     (if name = ''backend'' then Ok (VBackend (t_backend t))
      else if name = ''socket_count''
        then Ok (VInt (case t_sockets t of None \<Rightarrow> 0 | Some m \<Rightarrow> int (length m)))
      else case t_options t of
        None \<Rightarrow> Err (UnknownOption name)
      | Some m \<Rightarrow> (case map_of m name of Some v \<Rightarrow> Ok v | None \<Rightarrow> Err (UnknownOption name)))"

text \<open>The loop of \<open>Close\<close>, which ignores the errors of the sockets; a panic of one of them ends it.\<close>

fun closeSockets :: "'z zmq_lib \<Rightarrow> 'z heap \<Rightarrow> (string \<times> nat) list \<Rightarrow> (error, unit) result \<times> 'z heap"
  where
  "closeSockets lib h [] = (Ok (), h)"
| "closeSockets lib h ((_, addr) # rest) = (case h addr of
     None \<Rightarrow> (Panic NilDereference, h)
   | Some socket \<Rightarrow>
     (case Close lib socket of
        (Panic q, s) \<Rightarrow> (Panic q, h(addr \<mapsto> s))
      | (_, s) \<Rightarrow> closeSockets lib (h(addr \<mapsto> s)) rest))"

definition Transport_Close :: "'z zmq_lib \<Rightarrow> transport \<Rightarrow> 'z heap \<Rightarrow> (string \<times> nat) list
    \<Rightarrow> (error, unit) result \<times> transport \<times> 'z heap" where
  "Transport_Close lib t h order =
     (if t_closed t then (Ok (), t, h)
      else case closeSockets lib h order of
        (Ok _, h) \<Rightarrow> (Ok (), t\<lparr>t_sockets := None, t_closed := True\<rparr>, h)
      | (Err e, h) \<Rightarrow> (Err e, t, h)
      | (Panic q, h) \<Rightarrow> (Panic q, t, h))"

definition Transport_Stats :: "transport \<Rightarrow> Stats" where
  "Transport_Stats t = t_stats t"

section \<open>Steps\<close>

type_synonym 'z world = "transport \<times> 'z heap"

datatype trans_event = TNewSocket "(error, nat) result" | TSetOption string gvalue | TClose "(error, unit) result"
  | TSocket nat sock_op sock_out

text \<open>An iteration order of a map visits each entry once.\<close>

definition iteration :: "transport \<Rightarrow> (string \<times> nat) list \<Rightarrow> bool" where
  "iteration t order \<longleftrightarrow> mset order = mset (case t_sockets t of None \<Rightarrow> [] | Some m \<Rightarrow> m)"

inductive trans_step :: "'z zmq_lib \<Rightarrow> 'z world \<Rightarrow> trans_event \<Rightarrow> 'z world \<Rightarrow> bool" for lib where
  tstep_new: "h addr = None \<Longrightarrow> NewSocket lib t h ty addr = (r, t', h') \<Longrightarrow>
    trans_step lib (t, h) (TNewSocket r) (t', h')"
| tstep_set: "Transport_SetOption t name v = (r, t') \<Longrightarrow>
    trans_step lib (t, h) (TSetOption name v) (t', h)"
| tstep_close: "iteration t order \<Longrightarrow> Transport_Close lib t h order = (r, t', h') \<Longrightarrow>
    trans_step lib (t, h) (TClose r) (t', h')"
| tstep_socket: "h addr = Some s \<Longrightarrow> sock_exec lib op s = (out, s') \<Longrightarrow>
    trans_step lib (t, h) (TSocket addr op out) (t, h(addr \<mapsto> s'))"

definition new_world :: "'z world \<Rightarrow> bool" where
  "new_world w \<longleftrightarrow> (\<exists>opts. New opts = Ok (fst w)) \<and> snd w = Map.empty"

definition trans_wf :: "'z world \<Rightarrow> bool" where
  "trans_wf w \<longleftrightarrow> (case w of (t, h) \<Rightarrow>
     t_backend t = BackendGo \<and> valid_options (t_opts t) \<and> t_stats t = zeroStats \<and>
     (case t_sockets t of
        None \<Rightarrow> t_closed t \<and> (\<forall>s \<in> ran h. sock_shut s)
      | Some m \<Rightarrow> \<not> t_closed t \<and> distinct (map snd m) \<and> set (map snd m) = dom h \<and>
          list_all (\<lambda>(k, a). k = sprintf_p a) m))"

lemma New_Ok_iff:
  "New opts = Ok t \<longleftrightarrow> pq_policy opts \<and> Backend opts \<in> {BackendAuto, BackendGo} \<and>
     t = \<lparr>t_opts = opts\<lparr>KeyRotation := fillKeyRotation (KeyRotation opts)\<rparr>, t_backend = BackendGo,
          t_sockets = Some [], t_stats = zeroStats, t_options = None, t_closed = False\<rparr>"
  by (cases "Backend opts")
    (auto simp: New_def validateOptions_def pq_policy_def initBackend_def initGoBackend_def Let_def)

lemma new_world_wf: "new_world w \<Longrightarrow> trans_wf w"
  by (cases w) (auto simp: new_world_def trans_wf_def New_Ok_iff valid_options_def pq_policy_def)

lemma trans_wf_options [simp]: "trans_wf (t\<lparr>t_options := x\<rparr>, h) \<longleftrightarrow> trans_wf (t, h)"
  by (simp add: trans_wf_def split: option.split)

lemma update_fresh: "k \<notin> set (map fst m) \<Longrightarrow> AList.update k v m = m @ [(k, v)]"
  by (induction m) auto

lemma NewSocket_wf:
  assumes "trans_wf (t, h)" "h addr = None" "NewSocket lib t h ty addr = (r, t', h')"
  shows "trans_wf (t', h') \<and> \<not> is_panic r"
proof (cases "t_sockets t")
  case None
  with assms show ?thesis by (auto simp: trans_wf_def NewSocket_def)
next
  case (Some m)
  with assms(1) have m: "\<not> t_closed t" "t_backend t = BackendGo" "distinct (map snd m)"
    "set (map snd m) = dom h" "list_all (\<lambda>(k, a). k = sprintf_p a) m"
    by (auto simp: trans_wf_def)
  have "sprintf_p addr \<notin> set (map fst m)"
  proof
    assume "sprintf_p addr \<in> set (map fst m)"
    with m(5) have "addr \<in> set (map snd m)" by (force simp: list_all_iff)
    with m(4) assms(2) show False by auto
  qed
  then have "AList.update (sprintf_p addr) addr m = m @ [(sprintf_p addr, addr)]"
    by (rule update_fresh)
  moreover have "addr \<notin> snd ` set m" using m(4) assms(2) by auto
  moreover have "newGoSocket lib ty opts \<noteq> Panic q" for opts q
    by (auto simp: newGoSocket_def split: SocketType.splits option.splits)
  ultimately show ?thesis
    using assms Some m by (auto simp: trans_wf_def NewSocket_def Let_def split: result.splits)
qed

lemma Close_shut: "sock_shut (snd (Close lib s))"
  using socket.close_closes [of lib s] by simp

lemma Close_keeps_shut: "Close lib s = (r, s') \<Longrightarrow> sock_shut s'"
  using Close_shut [of lib s] by simp

lemma closeSockets_general:
  assumes "snd ` set order \<subseteq> dom h" "closeSockets lib h order = (r, h')"
  shows "dom h' = dom h \<and> (\<forall>a. a \<notin> snd ` set order \<longrightarrow> h' a = h a) \<and> (\<forall>e. r \<noteq> Err e) \<and>
    (\<forall>a s. h a = Some s \<longrightarrow> sock_shut s \<longrightarrow> (\<exists>s'. h' a = Some s' \<and> sock_shut s')) \<and>
    (r = Ok () \<longrightarrow> (\<forall>a \<in> snd ` set order. \<exists>s'. h' a = Some s' \<and> sock_shut s'))"
  using assms
proof (induction order arbitrary: h)
  case Nil
  then show ?case by auto
next
  case (Cons e rest)
  obtain k addr where e: "e = (k, addr)" by (cases e)
  from Cons.prems(1) obtain s where s: "h addr = Some s" by (auto simp: e)
  obtain r1 s1 where close: "Close lib s = (r1, s1)" by (cases "Close lib s")
  have shut: "sock_shut s1" using close by (rule Close_keeps_shut)
  show ?case
  proof (cases "is_panic r1")
    case True
    with Cons.prems(2) s close have "h' = h(addr \<mapsto> s1)" "is_panic r"
      by (cases r1; auto simp: e)+
    with s shut show ?thesis by (auto simp: e split: if_splits)
  next
    case False
    with Cons.prems(2) s close have run: "closeSockets lib (h(addr \<mapsto> s1)) rest = (r, h')"
      by (cases r1) (auto simp: e)
    have "snd ` set rest \<subseteq> dom (h(addr \<mapsto> s1))" using Cons.prems(1) by auto
    from Cons.IH [OF this run] s shut show ?thesis
      by (auto simp: e split: if_splits)
  qed
qed

text \<open>Documented behaviour of the library: closing a socket returns.\<close>

definition close_returns :: "'z zmq_lib \<Rightarrow> bool" where
  "close_returns lib \<longleftrightarrow> (\<forall>z. \<not> is_panic (fst (zmq_Close lib z)))"

lemma Close_returns: "close_returns lib \<Longrightarrow> fst (Close lib s) \<noteq> Panic q"
  by (auto simp: close_returns_def Close_def cancel_def via_lib_def Let_def)
     (metis is_panic.simps(1))+

lemma closeSockets_eq:
  assumes "close_returns lib" "distinct (map snd order)" "snd ` set order \<subseteq> dom h"
  shows "closeSockets lib h order =
    (Ok (), \<lambda>a. if a \<in> snd ` set order then map_option (\<lambda>s. snd (Close lib s)) (h a) else h a)"
  using assms(2,3)
proof (induction order arbitrary: h)
  case (Cons e rest)
  obtain k addr where e: "e = (k, addr)" by (cases e)
  from Cons.prems obtain s where s: "h addr = Some s" by (auto simp: e)
  let ?h = "h(addr \<mapsto> snd (Close lib s))"
  have "closeSockets lib h (e # rest) = closeSockets lib ?h rest"
    using s Close_returns [OF assms(1), of s] by (cases "Close lib s"; cases "fst (Close lib s)") (auto simp: e)
  also have "\<dots> = (Ok (), \<lambda>a. if a \<in> snd ` set rest then map_option (\<lambda>s. snd (Close lib s)) (?h a) else ?h a)"
    using Cons.prems by (intro Cons.IH) (auto simp: e)
  also have "\<dots> = (Ok (), \<lambda>a. if a \<in> snd ` set (e # rest)
      then map_option (\<lambda>s. snd (Close lib s)) (h a) else h a)"
    using Cons.prems s by (auto simp: e fun_eq_iff)
  finally show ?case .
qed simp

lemma iteration_facts:
  assumes "trans_wf (t, h)" "t_sockets t = Some m" "iteration t order"
  shows "snd ` set order = dom h" "distinct (map snd order)"
proof -
  from assms(2,3) have eq: "mset order = mset m" by (simp add: iteration_def)
  then have "set order = set m" by (rule mset_eq_setD)
  with assms(1,2) show "snd ` set order = dom h" by (auto simp: trans_wf_def)
  from eq have "mset (map snd order) = mset (map snd m)" by simp
  then have "distinct (map snd order) = distinct (map snd m)" by (rule mset_eq_imp_distinct_iff)
  with assms(1,2) show "distinct (map snd order)" by (auto simp: trans_wf_def)
qed

lemma Transport_Close_wf:
  assumes "trans_wf (t, h)" "iteration t order" "Transport_Close lib t h order = (r, t', h')"
  shows "trans_wf (t', h')"
proof (cases "t_sockets t")
  case None
  with assms show ?thesis by (auto simp: trans_wf_def Transport_Close_def)
next
  case (Some m)
  note it = iteration_facts [OF assms(1) Some assms(2)]
  obtain r1 h1 where run: "closeSockets lib h order = (r1, h1)" by (cases "closeSockets lib h order")
  have sub: "snd ` set order \<subseteq> dom h" using it(1) by simp
  have dom: "dom h1 = dom h" and no_err: "r1 \<noteq> Err e" for e
    using closeSockets_general [OF sub run] by simp_all
  have shut: "\<exists>s'. h1 a = Some s' \<and> sock_shut s'" if "r1 = Ok ()" "a \<in> dom h" for a
    using closeSockets_general [OF sub run] that unfolding it(1) by simp
  have cl: "\<not> t_closed t" using assms(1) Some by (simp add: trans_wf_def)
  show ?thesis
  proof (cases r1)
    case (Ok u)
    with assms(3) run cl have "t' = t\<lparr>t_sockets := None, t_closed := True\<rparr>" "h' = h1"
      by (auto simp: Transport_Close_def)
    moreover have "\<forall>s \<in> ran h1. sock_shut s"
    proof
      fix s assume "s \<in> ran h1"
      then obtain a where a: "h1 a = Some s" by (auto simp: ran_def)
      with dom shut [of a] Ok show "sock_shut s" by auto
    qed
    ultimately show ?thesis using assms(1) by (simp add: trans_wf_def)
  next
    case (Err e)
    with no_err show ?thesis by blast
  next
    case (Panic q)
    with assms(3) run cl have "t' = t" "h' = h1" by (auto simp: Transport_Close_def)
    with dom show ?thesis using assms(1) Some by (simp add: trans_wf_def)
  qed
qed

lemma sock_exec_keeps_shut: "sock_shut s \<Longrightarrow> sock_exec lib op s = (out, s') \<Longrightarrow> s' = s"
  using socket.closed_call by (metis prod.inject)

interpretation trans: invariant_system new_world "trans_step lib" trans_wf for lib
proof
  show "new_world w \<Longrightarrow> trans_wf w" for w :: "'a world" by (rule new_world_wf)
  fix w e and w' :: "'a world"
  assume wf: "trans_wf w" and "trans_step lib w e w'"
  from this(2) show "trans_wf w'"
  proof cases
    case (tstep_new h addr t ty r t' h')
    with wf NewSocket_wf show ?thesis by metis
  next
    case (tstep_set t name v r t' h)
    with wf show ?thesis by (auto simp: Transport_SetOption_def Let_def)
  next
    case (tstep_close t order h r t' h')
    with wf Transport_Close_wf show ?thesis by metis
  next
    case (tstep_socket h addr s op out s' t)
    have "sock_shut s \<Longrightarrow> s' = s" using tstep_socket(5) sock_exec_keeps_shut by blast
    with wf tstep_socket show ?thesis
      by (auto simp: trans_wf_def ran_def split: option.splits if_splits)
  qed
qed

section \<open>Properties\<close>


text \<open>
  C11. The invariant of a transport and its sockets under any interleaving of transport calls
  and socket calls: the socket table lists every socket created, each once, under its printed
  address; \<open>NewSocket\<close> never panics (the table is nil only on a closed transport) and, when
  the library builds the socket, succeeds on every open transport; and the transport's
  statistics are always zero.
\<close>

theorem transport_invariant:
  assumes "reachable new_world (trans_step lib) (t, h)" "h addr = None"
  shows "trans_wf (t, h) \<and> Transport_Stats t = zeroStats \<and>
    \<not> is_panic (fst (NewSocket lib t h ty addr)) \<and>
    (\<not> t_closed t \<and> SocketType_code ty < 12 \<and> zmq_New lib ty \<noteq> None \<longrightarrow>
       fst (NewSocket lib t h ty addr) = Ok addr)"
proof -
  have wf: "trans_wf (t, h)" by (rule trans.reachable_inv [OF assms(1)])
  then have "\<not> is_panic (fst (NewSocket lib t h ty addr))"
    using NewSocket_wf [OF wf assms(2)] by (cases "NewSocket lib t h ty addr") auto
  moreover have "SocketType_code ty < 12 \<Longrightarrow> zmq_New lib ty = Some z \<Longrightarrow>
      \<exists>s. newGoSocket lib ty (t_opts t) = Ok s" for z
    by (cases ty) (auto simp: newGoSocket_def)
  ultimately show ?thesis using wf
    by (auto simp: trans_wf_def NewSocket_def Transport_Stats_def Let_def split: option.splits)
qed

theorem transport_invariant_witness:
  "\<exists>t. New DefaultOptions = Ok t \<and> fst (NewSocket echo_lib t Map.empty ROUTER 7) = Ok 7"
proof -
  obtain t where t: "New DefaultOptions = Ok t"
    using New_Ok_iff [of DefaultOptions] by (simp add: pq_policy_def DefaultOptions_def)
  then have "new_world (t, Map.empty :: zmqMsg list heap)" by (auto simp: new_world_def)
  then have "reachable new_world (trans_step echo_lib) (t, Map.empty)" by (rule reach_init)
  from transport_invariant [OF this, where addr = 7 and ty = ROUTER] t show ?thesis
    by (auto simp: New_Ok_iff echo_lib_def)
qed

text \<open>
  C4. Closing a transport closes everything: whatever order the map is visited in, \<open>Close\<close>
  succeeds even if sockets report errors, all sockets ever created are closed and answer
  every later call as closed sockets do, the heap is the same for every visiting order, no
  socket can be created afterwards, and a second \<open>Close\<close> does nothing.
\<close>

theorem transport_close_closes_all:
  assumes "reachable new_world (trans_step lib) (t, h)" "close_returns lib"
    and "iteration t order" "iteration t order'"
  shows "\<exists>t' h'. Transport_Close lib t h order = (Ok (), t', h') \<and>
    Transport_Close lib t h order' = (Ok (), t', h') \<and>
    dom h' = dom h \<and> t_closed t' \<and>
    (\<forall>addr s ops. h' addr = Some s \<longrightarrow> exec_run (sock_exec lib) ops s = (map closed_answer ops, s)) \<and>
    (\<forall>ty addr. NewSocket lib t' h' ty addr = (Err TransportClosed, t', h')) \<and>
    (\<forall>any. Transport_Close lib t' h' any = (Ok (), t', h'))"
proof (cases "t_sockets t")
  case None
  with trans.reachable_inv [OF assms(1)] have "t_closed t" "\<forall>s \<in> ran h. sock_shut s"
    by (auto simp: trans_wf_def)
  then show ?thesis
    by (auto simp: Transport_Close_def NewSocket_def ran_def intro!: socket.closed_run)
next
  case (Some m)
  have wf: "trans_wf (t, h)" by (rule trans.reachable_inv [OF assms(1)])
  let ?h = "\<lambda>a. if a \<in> dom h then map_option (\<lambda>s. snd (Close lib s)) (h a) else h a"
  have run: "closeSockets lib h ord = (Ok (), ?h)" if "iteration t ord" for ord
    using closeSockets_eq [OF assms(2), of ord h] iteration_facts [OF wf Some that] by simp
  have "\<not> t_closed t" using wf Some by (simp add: trans_wf_def)
  then have "Transport_Close lib t h ord = (Ok (), t\<lparr>t_sockets := None, t_closed := True\<rparr>, ?h)"
    if "iteration t ord" for ord
    using run [OF that] by (simp add: Transport_Close_def)
  moreover have "exec_run (sock_exec lib) ops s = (map closed_answer ops, s)" if "?h a = Some s" for a s ops
    using that Close_shut by (auto split: if_splits intro!: socket.closed_run)
  moreover have "dom ?h = dom h" by (auto split: if_splits)
  moreover have "NewSocket lib (t\<lparr>t_sockets := None, t_closed := True\<rparr>) k ty addr
      = (Err TransportClosed, t\<lparr>t_sockets := None, t_closed := True\<rparr>, k)" for k ty addr
    by (simp add: NewSocket_def)
  moreover have "Transport_Close lib (t\<lparr>t_sockets := None, t_closed := True\<rparr>) k any
      = (Ok (), t\<lparr>t_sockets := None, t_closed := True\<rparr>, k)" for k any
    by (simp add: Transport_Close_def)
  ultimately show ?thesis using assms(3,4)
    by (intro exI [of _ "t\<lparr>t_sockets := None, t_closed := True\<rparr>"] exI [of _ ?h]) auto
qed

lemma echo_close_returns: "close_returns echo_lib"
  by (simp add: close_returns_def echo_lib_def)

theorem transport_close_closes_all_witness:
  "\<exists>t t' h'. New ConservativeOptions = Ok t \<and>
     Transport_Close echo_lib t Map.empty [] = (Ok (), t', h') \<and> t_closed t'"
proof -
  obtain t where t: "New ConservativeOptions = Ok t"
    using New_Ok_iff [of ConservativeOptions]
    by (simp add: pq_policy_def ConservativeOptions_def DefaultOptions_def)
  then have "new_world (t, Map.empty :: zmqMsg list heap)" by (auto simp: new_world_def)
  then have r: "reachable new_world (trans_step echo_lib) (t, Map.empty)" by (rule reach_init)
  from t have "iteration t []" by (auto simp: New_Ok_iff iteration_def)
  from transport_close_closes_all [OF r echo_close_returns this this] t show ?thesis by blast
qed

text \<open>A transport option that was set is read back, and setting one name does not affect the
  others; only the names \<open>backend\<close> and \<open>socket_count\<close> are computed and cannot be set.\<close>

lemma transport_options_store:
  "snd (Transport_SetOption t name v) = t' \<Longrightarrow>
   fst (Transport_SetOption t name v) = Ok () \<and>
   Transport_GetOption t' other =
     (if other = name \<and> name \<noteq> ''backend'' \<and> name \<noteq> ''socket_count'' then Ok v
      else Transport_GetOption t other)"
  by (cases "t_options t")
    (auto simp: Transport_SetOption_def Transport_GetOption_def Let_def update_conv')

text \<open>The option \<open>socket_count\<close> is the number of sockets created, closed ones included, and zero
  after \<open>Close\<close>.\<close>

lemma socket_count_counts_created:
  assumes "reachable new_world (trans_step lib) (t, h)"
  shows "Transport_GetOption t ''socket_count''
    = Ok (VInt (if t_closed t then 0 else int (card (dom h))))"
proof (cases "t_sockets t")
  case None
  with trans.reachable_inv [OF assms] show ?thesis by (simp add: trans_wf_def Transport_GetOption_def)
next
  case (Some m)
  with trans.reachable_inv [OF assms] have "\<not> t_closed t" "distinct (map snd m)" "set (map snd m) = dom h"
    by (auto simp: trans_wf_def)
  then have "card (dom h) = length m" using distinct_card [of "map snd m"] by simp
  with \<open>\<not> t_closed t\<close> Some show ?thesis by (simp add: Transport_GetOption_def)
qed

end
