(* ===== verification/QZMQ_Registry.thy ===== *)
theory QZMQ_Registry
  imports QZMQ_Transport
begin

text \<open>
  The specification of a transport as a registry of sockets, each open or shut, and the
  refinement: the transport of \<open>src/qzmq.go\<close> with its socket table, heap and the sockets of
  \<open>src/backend.go\<close> implements it. The registry says nothing of tables, addresses under printed
  names, metrics or the library; it says who may create, call and close what, and with which
  answer. What holds of all runs of the registry then holds of the program.
\<close>

section \<open>The registry\<close>

text \<open>Whether the transport is closed, and for each socket whether it is shut.\<close>

type_synonym registry = "bool \<times> (nat \<rightharpoonup> bool)"

inductive registry_spec :: "registry \<Rightarrow> trans_event \<Rightarrow> registry \<Rightarrow> bool" where
  reg_create: "m a = None \<Longrightarrow>
    registry_spec (False, m) (TNewSocket (Ok a)) (False, m(a \<mapsto> False))"
| reg_refuse: "(c \<longrightarrow> e = TransportClosed) \<Longrightarrow> registry_spec (c, m) (TNewSocket (Err e)) (c, m)"
| reg_option: "registry_spec (c, m) (TSetOption name v) (c, m)"
| reg_close: "registry_spec (c, m) (TClose (Ok ())) (True, map_option (\<lambda>_. True) \<circ> m)"
| reg_close_panic: "dom m' = dom m \<Longrightarrow> (\<And>a. m a = Some True \<Longrightarrow> m' a = Some True) \<Longrightarrow>
    registry_spec (False, m) (TClose (Panic q)) (False, m')"
| reg_call: "m a = Some False \<Longrightarrow> op \<noteq> OpClose \<Longrightarrow> registry_spec (c, m) (TSocket a op out) (c, m)"
| reg_call_close: "m a = Some False \<Longrightarrow> registry_spec (c, m) (TSocket a OpClose out) (c, m(a \<mapsto> True))"
| reg_call_shut: "m a = Some True \<Longrightarrow> registry_spec (c, m) (TSocket a op (closed_answer op)) (c, m)"

inductive_cases registry_newE: "registry_spec w (TNewSocket r) w'"
inductive_cases registry_closeE: "registry_spec w (TClose r) w'"
inductive_cases registry_socketE: "registry_spec w (TSocket a op out) w'"

definition registry_view :: "'z world \<Rightarrow> registry" where
  "registry_view w = (t_closed (fst w), \<lambda>a. map_option sock_shut (snd w a))"

section \<open>The transport implements the registry\<close>

lemma NewSocket_registry:
  assumes "trans_wf (t, h)" "h addr = None" "NewSocket lib t h ty addr = (r, t', h')"
  shows "registry_spec (registry_view (t, h)) (TNewSocket r) (registry_view (t', h'))"
proof (cases r)
  case (Ok a)
  with assms(3) obtain s where "\<not> t_closed t" "newGoSocket lib ty (t_opts t) = Ok s" "a = addr"
    "\<not> t_closed t'" "h' = h(addr \<mapsto> s)"
    by (auto simp: NewSocket_def Let_def split: if_splits Backend.splits result.splits option.splits)
  moreover from this have "\<not> sock_shut s"
    by (auto simp: newGoSocket_def sock_shut_def split: SocketType.splits option.splits)
  moreover from this have "(\<lambda>x. map_option sock_shut ((h(addr \<mapsto> s)) x))
      = (\<lambda>x. map_option sock_shut (h x))(addr \<mapsto> False)" by (auto simp: fun_eq_iff)
  ultimately show ?thesis using assms(2) Ok by (auto simp: registry_view_def intro: reg_create)
next
  case (Err e)
  with assms(3) have "t' = t" "h' = h" "t_closed t \<longrightarrow> e = TransportClosed"
    by (auto simp: NewSocket_def Let_def split: if_splits Backend.splits result.splits option.splits)
  with Err show ?thesis by (auto simp: registry_view_def intro: reg_refuse)
next
  case (Panic q)
  with NewSocket_wf [OF assms] show ?thesis by simp
qed

lemma Transport_Close_registry:
  assumes "trans_wf (t, h)" "iteration t order" "Transport_Close lib t h order = (r, t', h')"
  shows "registry_spec (registry_view (t, h)) (TClose r) (registry_view (t', h'))"
proof (cases "t_sockets t")
  case None
  with assms(1,3) have "t_closed t" and shut: "\<forall>s \<in> ran h. sock_shut s" and "r = Ok ()" "t' = t" "h' = h"
    by (auto simp: trans_wf_def Transport_Close_def)
  moreover have "map_option sock_shut (h a) = map_option (\<lambda>_. True) (map_option sock_shut (h a))" for a
    using shut by (cases "h a") (auto simp: ran_def)
  ultimately show ?thesis
    using reg_close [of True "\<lambda>a. map_option sock_shut (h a)"] by (simp add: registry_view_def comp_def)
next
  case (Some m)
  note it = iteration_facts [OF assms(1) Some assms(2)]
  obtain r1 h1 where run: "closeSockets lib h order = (r1, h1)" by (cases "closeSockets lib h order")
  have sub: "snd ` set order \<subseteq> dom h" using it(1) by simp
  note general = closeSockets_general [OF sub run]
  have open_t: "\<not> t_closed t" using assms(1) Some by (simp add: trans_wf_def)
  show ?thesis
  proof (cases r1)
    case (Ok u)
    with assms(3) run open_t have "t_closed t'" "h' = h1" "r = Ok ()" by (auto simp: Transport_Close_def)
    moreover have "map_option sock_shut (h1 a) = map_option (\<lambda>_. True) (map_option sock_shut (h a))" for a
    proof (cases "h a")
      case None
      with general have "h1 a = None" by (metis domIff)
      with None show ?thesis by simp
    next
      case (Some s)
      then have "a \<in> snd ` set order" unfolding it(1) by blast
      with general Ok obtain s' where "h1 a = Some s'" "sock_shut s'" by auto
      with Some show ?thesis by simp
    qed
    ultimately show ?thesis using open_t
      using reg_close [of False "\<lambda>a. map_option sock_shut (h a)"] by (simp add: registry_view_def comp_def)
  next
    case (Err e)
    with general show ?thesis by simp
  next
    case (Panic q)
    with assms(3) run open_t have "t' = t" "h' = h1" "r = Panic q" by (auto simp: Transport_Close_def)
    moreover have "dom (\<lambda>a. map_option sock_shut (h1 a)) = dom (\<lambda>a. map_option sock_shut (h a))"
      using general by (auto simp: dom_def)
    moreover have "map_option sock_shut (h1 a) = Some True" if "map_option sock_shut (h a) = Some True" for a
      using general that by auto
    ultimately show ?thesis using open_t by (auto simp: registry_view_def intro: reg_close_panic)
  qed
qed

lemma sock_exec_registry:
  assumes "h addr = Some s" "sock_exec lib op s = (out, s')"
  shows "registry_spec (registry_view (t, h)) (TSocket addr op out) (registry_view (t, h(addr \<mapsto> s')))"
proof -
  have view: "registry_view (t, h(addr \<mapsto> s')) = (t_closed t, (\<lambda>a. map_option sock_shut (h a))(addr \<mapsto> sock_shut s'))"
    by (auto simp: registry_view_def fun_eq_iff)
  have same: "sock_shut s' = sock_shut s \<Longrightarrow> registry_view (t, h(addr \<mapsto> s')) = registry_view (t, h)"
    unfolding view using assms(1) by (auto simp: registry_view_def fun_eq_iff)
  consider "sock_shut s" | "\<not> sock_shut s" "op = OpClose" | "\<not> sock_shut s" "op \<noteq> OpClose" by blast
  then show ?thesis
  proof cases
    case 1
    with socket.closed_call [of s lib op] assms(2) have "out = closed_answer op" "s' = s" by simp_all
    with 1 same assms(1) show ?thesis by (auto simp: registry_view_def intro: reg_call_shut)
  next
    case 2
    with socket.close_closes [of lib s] assms(2) have "sock_shut s'" by (metis snd_conv)
    with 2 view assms(1) show ?thesis by (auto simp: registry_view_def intro: reg_call_close)
  next
    case 3
    with socket.only_close_closes [of op lib s] assms(2) have "\<not> sock_shut s'" by auto
    with 3 same assms(1) show ?thesis by (auto simp: registry_view_def intro: reg_call)
  qed
qed

interpretation reg: simulation new_world "trans_step lib" trans_wf registry_view
  "\<lambda>v. v = (False, Map.empty)" registry_spec for lib
proof
  show "new_world w \<Longrightarrow> registry_view w = (False, Map.empty)" for w :: "'a world"
    by (cases w) (auto simp: new_world_def registry_view_def New_Ok_iff)
  fix w e and w' :: "'a world"
  assume "trans_wf w" "trans_step lib w e w'"
  from this(2,1) show "registry_spec (registry_view w) e (registry_view w')"
  proof cases
    case (tstep_set t name v r t' h)
    then show ?thesis using reg_option
      by (auto simp: registry_view_def Transport_SetOption_def Let_def)
  next
    case (tstep_socket h addr s op out s' t)
    then show ?thesis using sock_exec_registry [where h = h and addr = addr and t = t, OF tstep_socket(4,5)] by simp
  qed (use NewSocket_registry Transport_Close_registry in blast)+
qed

section \<open>Runs of the registry\<close>

text \<open>The answers of a closed transport and of its sockets.\<close>

fun closed_event :: "trans_event \<Rightarrow> bool" where
  "closed_event (TNewSocket r) \<longleftrightarrow> r = Err TransportClosed"
| "closed_event (TSetOption name v) \<longleftrightarrow> True"
| "closed_event (TClose r) \<longleftrightarrow> r = Ok ()"
| "closed_event (TSocket addr op out) \<longleftrightarrow> out = closed_answer op"

definition all_shut :: "registry \<Rightarrow> bool" where
  "all_shut w \<longleftrightarrow> fst w \<and> ran (snd w) \<subseteq> {True}"

lemma all_shut_step: "registry_spec w e w' \<Longrightarrow> all_shut w \<Longrightarrow> all_shut w' \<and> closed_event e"
  by (induction rule: registry_spec.induct) (auto simp: all_shut_def ran_def)

lemma close_shuts_all: "registry_spec w (TClose (Ok ())) w' \<Longrightarrow> all_shut w'"
  by (erule registry_closeE) (auto simp: all_shut_def ran_def)

lemma close_keeps_dom: "registry_spec w (TClose r) w' \<Longrightarrow> dom (snd w') = dom (snd w)"
  by (erule registry_closeE) (auto simp: dom_def)

lemma close_no_error: "\<not> registry_spec w (TClose (Err e)) w'"
  by (auto elim: registry_closeE)

lemma dom_registry_view [simp]: "dom (snd (registry_view w)) = dom (snd w)"
  by (auto simp: registry_view_def dom_def)

lemma all_shut_view: "all_shut (registry_view w) \<longleftrightarrow> t_closed (fst w) \<and> (\<forall>s \<in> ran (snd w). sock_shut s)"
  by (auto simp: all_shut_def registry_view_def ran_def)

lemma registry_after_close:
  assumes "run registry_spec w es w'" "es = es1 @ TClose (Ok ()) # es2"
  shows "all_shut w' \<and> list_all closed_event es2"
  using assms
proof (induction arbitrary: es2 rule: run.induct)
  case (run_snoc es v e v')
  show ?case
  proof (cases es2 rule: rev_cases)
    case Nil
    with run_snoc.prems run_snoc.hyps(2) close_shuts_all show ?thesis by auto
  next
    case (snoc es3 e3)
    with run_snoc.prems have "es = es1 @ TClose (Ok ()) # es3" "e3 = e" by simp_all
    with run_snoc.IH run_snoc.hyps(2) all_shut_step snoc show ?thesis by auto
  qed
qed simp

text \<open>
  C6. A transport with its sockets implements the registry of open and shut sockets: every run
  of transport calls and socket calls, in any interleaving and over any library, is a run of the
  registry with the same calls and answers. In particular, in every run everything that
  follows a successful \<open>Close\<close> of the transport is answered as closed: creating a socket
  is refused, every call on every socket the answer of a closed socket, and closing succeeds.
\<close>

theorem transport_refines_registry:
  assumes "new_world w" "run (trans_step lib) w es w'"
  shows "registry_view w = (False, Map.empty) \<and>
    run registry_spec (registry_view w) es (registry_view w') \<and>
    (\<forall>es1 es2. es = es1 @ TClose (Ok ()) # es2 \<longrightarrow> list_all closed_event es2)"
  using reg.initial_run_abs [OF assms] registry_after_close by blast

theorem transport_refines_registry_witness:
  "\<exists>t t' h'. New DefaultOptions = Ok t \<and>
     run (trans_step echo_lib) (t, Map.empty) [TNewSocket (Ok 5), TSocket 5 OpClose (OutUnit (Ok ()))] (t', h') \<and>
     run registry_spec (False, Map.empty) [TNewSocket (Ok 5), TSocket 5 OpClose (OutUnit (Ok ()))]
       (registry_view (t', h'))"
proof -
  obtain t where t: "New DefaultOptions = Ok t"
    using New_Ok_iff [of DefaultOptions] by (simp add: pq_policy_def DefaultOptions_def)
  then have new: "new_world (t, Map.empty :: zmqMsg list heap)" by (auto simp: new_world_def)
  obtain t1 h1 where sock: "NewSocket echo_lib t Map.empty ROUTER 5 = (Ok 5, t1, h1)"
    using t by (auto simp: NewSocket_def newGoSocket_def echo_lib_def New_Ok_iff)
  then obtain s where s: "h1 5 = Some s" "\<not> s_closed s"
    by (auto simp: NewSocket_def newGoSocket_def Let_def split: if_splits Backend.splits option.splits)
  then have "fst (Close echo_lib s) = Ok ()"
    by (auto simp: Close_def via_lib_def echo_lib_def cancel_def Let_def)
  then obtain s' where close: "sock_exec echo_lib OpClose s = (OutUnit (Ok ()), s')"
    by (cases "Close echo_lib s") auto
  have "run (trans_step echo_lib) (t, Map.empty) ([] @ [TNewSocket (Ok 5)]) (t1, h1)"
    by (rule run_snoc [OF run_nil]) (rule tstep_new [OF _ sock], simp)
  then have "run (trans_step echo_lib) (t, Map.empty) (([] @ [TNewSocket (Ok 5)]) @ [TSocket 5 OpClose (OutUnit (Ok ()))])
      (t1, h1(5 \<mapsto> s'))"
    by (rule run_snoc) (rule tstep_socket [where h = h1 and addr = 5, OF s(1) close])
  then have r: "run (trans_step echo_lib) (t, Map.empty) [TNewSocket (Ok 5), TSocket 5 OpClose (OutUnit (Ok ()))]
      (t1, h1(5 \<mapsto> s'))" by simp
  from transport_refines_registry [OF new r] r t show ?thesis by metis
qed

end
