(* ===== verification/QZMQ_Concurrency.thy ===== *)
theory QZMQ_Concurrency
  imports QZMQ_Prelude
begin

text \<open>
  Concurrent sends, receives and \<open>Close\<close> calls on one socket of \<open>src/backend.go\<close>, at the level of
  its lock and of single loads and stores of the message counters. \<open>Send\<close>, \<open>SendMultipart\<close> and
  \<open>Close\<close> take the write lock of the socket's \<open>sync.RWMutex\<close>, \<open>Recv\<close> and \<open>RecvMultipart\<close> the read lock,
  which several calls hold at a time, also while they wait for a message; a counter is updated
  by a load followed by a store. The byte counters are updated in the same way after the
  message counters and are left out. Of the library it is taken that sending and
  closing return, and that a receive returns once its context is cancelled. A program
  is a list of calls, one per thread. The lemmas show that sends are counted exactly under
  every interleaving and receives are not, that a waiting receive blocks all sends, and
  that a close ends every call.
\<close>

section \<open>Calls\<close>

text \<open>\<open>CallSend\<close> is \<open>Send\<close> or \<open>SendMultipart\<close>, \<open>CallRecv\<close> is \<open>Recv\<close> or \<open>RecvMultipart\<close>.\<close>

datatype call_kind = CallSend | CallRecv | CallClose

text \<open>Where a call is: not started; \<open>Close\<close> after cancelling the context; a writer that has
  announced itself to the lock and waits for the readers to leave; holding the lock, in
  the library; with the counter loaded; with the counter stored; returned; returned without
  counting (an error, or a message without frames).\<close>

datatype pc = Start | Cancelled | Waiting | InCall | Loaded "64 word" | Stored | Returned | Uncounted

text \<open>\<open>writer\<close> is the writer that has announced itself or holds the lock; from then on, no reader
  enters. \<open>inbox\<close> are the outcomes that the library has ready for receives: a message that the
  receive counts (\<open>True\<close>), or an error or a message without frames that it does not count.\<close>

record sock_state =
  writer :: "nat option"
  readers :: "nat set"
  inbox :: "bool list"
  ctx_cancelled :: bool
  sock_closed :: bool
  sent_count :: "64 word"
  received_count :: "64 word"
  pc_of :: "nat \<Rightarrow> pc"

abbreviation goto :: "nat \<Rightarrow> pc \<Rightarrow> sock_state \<Rightarrow> sock_state" where
  "goto i p s \<equiv> s\<lparr>pc_of := (pc_of s)(i := p)\<rparr>"

definition runs :: "call_kind list \<Rightarrow> nat \<Rightarrow> call_kind \<Rightarrow> bool" where
  "runs prog i k \<longleftrightarrow> i < length prog \<and> prog ! i = k"

text \<open>A step of thread \<open>i\<close> (\<open>Some i\<close>), or the arrival of something to receive (\<open>None\<close>).\<close>

inductive call_step :: "call_kind list \<Rightarrow> sock_state \<Rightarrow> nat option \<Rightarrow> sock_state \<Rightarrow> bool" for prog where
  arrival: "call_step prog s None (s\<lparr>inbox := inbox s @ [m]\<rparr>)"
| send_announce: "runs prog i CallSend \<Longrightarrow> pc_of s i = Start \<Longrightarrow> writer s = None \<Longrightarrow>
    call_step prog s (Some i) (goto i Waiting (s\<lparr>writer := Some i\<rparr>))"
| send_lock: "runs prog i CallSend \<Longrightarrow> pc_of s i = Waiting \<Longrightarrow> readers s = {} \<Longrightarrow>
    call_step prog s (Some i) (goto i InCall s)"
| send_load: "runs prog i CallSend \<Longrightarrow> pc_of s i = InCall \<Longrightarrow> \<not> sock_closed s \<Longrightarrow>
    call_step prog s (Some i) (goto i (Loaded (sent_count s)) s)"
| send_fail: "runs prog i CallSend \<Longrightarrow> pc_of s i = InCall \<Longrightarrow>
    call_step prog s (Some i) (goto i Uncounted (s\<lparr>writer := None\<rparr>))"
| send_store: "runs prog i CallSend \<Longrightarrow> pc_of s i = Loaded v \<Longrightarrow>
    call_step prog s (Some i) (goto i Stored (s\<lparr>sent_count := v + 1\<rparr>))"
| send_unlock: "runs prog i CallSend \<Longrightarrow> pc_of s i = Stored \<Longrightarrow>
    call_step prog s (Some i) (goto i Returned (s\<lparr>writer := None\<rparr>))"
| recv_lock: "runs prog i CallRecv \<Longrightarrow> pc_of s i = Start \<Longrightarrow> writer s = None \<Longrightarrow>
    call_step prog s (Some i) (goto i InCall (s\<lparr>readers := insert i (readers s)\<rparr>))"
| recv_load: "runs prog i CallRecv \<Longrightarrow> pc_of s i = InCall \<Longrightarrow> \<not> sock_closed s \<Longrightarrow> inbox s = True # rest \<Longrightarrow>
    call_step prog s (Some i) (goto i (Loaded (received_count s)) (s\<lparr>inbox := rest\<rparr>))"
| recv_skip: "runs prog i CallRecv \<Longrightarrow> pc_of s i = InCall \<Longrightarrow> \<not> sock_closed s \<Longrightarrow> inbox s = False # rest \<Longrightarrow>
    call_step prog s (Some i) (goto i Uncounted (s\<lparr>readers := readers s - {i}, inbox := rest\<rparr>))"
| recv_abort: "runs prog i CallRecv \<Longrightarrow> pc_of s i = InCall \<Longrightarrow> sock_closed s \<or> ctx_cancelled s \<Longrightarrow>
    call_step prog s (Some i) (goto i Uncounted (s\<lparr>readers := readers s - {i}\<rparr>))"
| recv_store: "runs prog i CallRecv \<Longrightarrow> pc_of s i = Loaded v \<Longrightarrow>
    call_step prog s (Some i) (goto i Stored (s\<lparr>received_count := v + 1\<rparr>))"
| recv_unlock: "runs prog i CallRecv \<Longrightarrow> pc_of s i = Stored \<Longrightarrow>
    call_step prog s (Some i) (goto i Returned (s\<lparr>readers := readers s - {i}\<rparr>))"
| close_cancel: "runs prog i CallClose \<Longrightarrow> pc_of s i = Start \<Longrightarrow>
    call_step prog s (Some i) (goto i Cancelled (s\<lparr>ctx_cancelled := True\<rparr>))"
| close_announce: "runs prog i CallClose \<Longrightarrow> pc_of s i = Cancelled \<Longrightarrow> writer s = None \<Longrightarrow>
    call_step prog s (Some i) (goto i Waiting (s\<lparr>writer := Some i\<rparr>))"
| close_lock: "runs prog i CallClose \<Longrightarrow> pc_of s i = Waiting \<Longrightarrow> readers s = {} \<Longrightarrow>
    call_step prog s (Some i) (goto i InCall s)"
| close_done: "runs prog i CallClose \<Longrightarrow> pc_of s i = InCall \<Longrightarrow>
    call_step prog s (Some i) (goto i Returned (s\<lparr>sock_closed := True, writer := None\<rparr>))"

definition idle_state :: sock_state where
  "idle_state = \<lparr>writer = None, readers = {}, inbox = [], ctx_cancelled = False, sock_closed = False,
     sent_count = 0, received_count = 0, pc_of = (\<lambda>i. Start)\<rparr>"

section \<open>The lock\<close>

text \<open>The calls that have announced themselves or hold the lock, and those that hold it.\<close>

fun owning :: "pc \<Rightarrow> bool" where
  "owning Waiting = True" | "owning InCall = True" | "owning (Loaded v) = True" | "owning Stored = True"
| "owning _ = False"

definition holding :: "pc \<Rightarrow> bool" where
  "holding p \<longleftrightarrow> owning p \<and> p \<noteq> Waiting"

definition returned :: "pc \<Rightarrow> bool" where
  "returned p \<longleftrightarrow> p = Returned \<or> p = Uncounted"

text \<open>The control points of each kind of call.\<close>

fun pc_fits :: "call_kind \<Rightarrow> pc \<Rightarrow> bool" where
  "pc_fits CallSend p \<longleftrightarrow> p \<noteq> Cancelled"
| "pc_fits CallRecv p \<longleftrightarrow> p \<noteq> Cancelled \<and> p \<noteq> Waiting"
| "pc_fits CallClose p \<longleftrightarrow> p \<in> {Start, Cancelled, Waiting, InCall, Returned}"

definition stored_sends :: "call_kind list \<Rightarrow> (nat \<Rightarrow> pc) \<Rightarrow> nat set" where
  "stored_sends prog pcs = {i. runs prog i CallSend \<and> (pcs i = Stored \<or> pcs i = Returned)}"

definition thread_inv :: "call_kind list \<Rightarrow> sock_state \<Rightarrow> nat \<Rightarrow> bool" where
  "thread_inv prog s i \<longleftrightarrow>
     pc_fits (prog ! i) (pc_of s i) \<and>
     (owning (pc_of s i) \<longleftrightarrow> (if prog ! i = CallRecv then i \<in> readers s else writer s = Some i)) \<and>
     (prog ! i \<noteq> CallRecv \<longrightarrow> holding (pc_of s i) \<longrightarrow> readers s = {}) \<and>
     (prog ! i = CallClose \<longrightarrow> pc_of s i \<noteq> Start \<longrightarrow> ctx_cancelled s) \<and>
     (\<forall>v. prog ! i = CallSend \<longrightarrow> pc_of s i = Loaded v \<longrightarrow> v = sent_count s)"

definition lock_inv :: "call_kind list \<Rightarrow> sock_state \<Rightarrow> bool" where
  "lock_inv prog s \<longleftrightarrow>
     (\<forall>i < length prog. thread_inv prog s i) \<and>
     (\<forall>i. writer s = Some i \<longrightarrow> i < length prog \<and> prog ! i \<noteq> CallRecv) \<and>
     (\<forall>i \<in> readers s. runs prog i CallRecv) \<and>
     sent_count s = of_nat (card (stored_sends prog (pc_of s)))"

lemma finite_stored_sends [simp]: "finite (stored_sends prog pcs)"
  by (rule finite_subset [of _ "{..<length prog}"]) (auto simp: stored_sends_def runs_def)

lemma stored_sends_upd:
  "runs prog i CallSend \<Longrightarrow> stored_sends prog (pcs(i := p)) =
    (if p = Stored \<or> p = Returned then insert i (stored_sends prog pcs) else stored_sends prog pcs - {i})"
  "\<not> runs prog i CallSend \<Longrightarrow> stored_sends prog (pcs(i := p)) = stored_sends prog pcs"
  by (auto simp: stored_sends_def)

lemma stored_sends_iff:
  "runs prog i CallSend \<Longrightarrow> i \<in> stored_sends prog pcs \<longleftrightarrow> pcs i = Stored \<or> pcs i = Returned"
  by (simp add: stored_sends_def)

lemma stored_card_same:
  "(pcs i = Stored \<or> pcs i = Returned) = (p = Stored \<or> p = Returned) \<Longrightarrow>
   stored_sends prog (pcs(i := p)) = stored_sends prog pcs"
  by (auto simp: stored_sends_def)

text \<open>The invariant of one thread after a step of another one.\<close>

lemma thread_inv_other:
  assumes "thread_inv prog s j" "pc_of s' j = pc_of s j"
    and "j \<in> readers s' \<longleftrightarrow> j \<in> readers s" "writer s' = Some j \<longleftrightarrow> writer s = Some j"
    and "readers s = {} \<Longrightarrow> prog ! j \<noteq> CallRecv \<Longrightarrow> holding (pc_of s j) \<Longrightarrow> readers s' = {}"
    and "ctx_cancelled s \<Longrightarrow> ctx_cancelled s'"
    and "sent_count s' = sent_count s \<or> prog ! j \<noteq> CallSend \<or> \<not> holding (pc_of s j)"
  shows "thread_inv prog s' j"
  using assms by (auto simp: thread_inv_def holding_def)

lemma lock_invI:
  assumes "\<And>j. j < length prog \<Longrightarrow> j \<noteq> i \<Longrightarrow> thread_inv prog s j" "i < length prog \<Longrightarrow> thread_inv prog s i"
    and "\<And>j. writer s = Some j \<Longrightarrow> j < length prog \<and> prog ! j \<noteq> CallRecv"
    and "\<And>j. j \<in> readers s \<Longrightarrow> runs prog j CallRecv"
    and "sent_count s = of_nat (card (stored_sends prog (pc_of s)))"
  shows "lock_inv prog s"
  using assms unfolding lock_inv_def by blast

lemma lock_invD:
  assumes "lock_inv prog s"
  shows "i < length prog \<Longrightarrow> thread_inv prog s i"
    and "writer s = Some i \<Longrightarrow> i < length prog \<and> prog ! i \<noteq> CallRecv"
    and "i \<in> readers s \<Longrightarrow> runs prog i CallRecv"
    and "sent_count s = of_nat (card (stored_sends prog (pc_of s)))"
  using assms unfolding lock_inv_def by blast+

text \<open>A writer excludes all other writers, and once it holds the lock, all readers.\<close>

lemma writer_exclusive:
  assumes "lock_inv prog s" "i < length prog" "prog ! i \<noteq> CallRecv" "owning (pc_of s i)"
  shows "writer s = Some i"
    and "\<And>j. j < length prog \<Longrightarrow> prog ! j \<noteq> CallRecv \<Longrightarrow> owning (pc_of s j) \<Longrightarrow> j = i"
    and "holding (pc_of s i) \<Longrightarrow> readers s = {}"
proof -
  show w: "writer s = Some i" using lock_invD(1) [OF assms(1,2)] assms(3,4) by (simp add: thread_inv_def)
  show "j = i" if "j < length prog" "prog ! j \<noteq> CallRecv" "owning (pc_of s j)" for j
    using lock_invD(1) [OF assms(1) that(1)] that w by (simp add: thread_inv_def)
  show "holding (pc_of s i) \<Longrightarrow> readers s = {}"
    using lock_invD(1) [OF assms(1,2)] assms(3) by (simp add: thread_inv_def)
qed

text \<open>A step of thread \<open>i\<close> keeps the invariant if it keeps that of \<open>i\<close>, touches the lock only on
  behalf of \<open>i\<close>, and counts.\<close>

lemma lock_inv_step:
  assumes inv: "lock_inv prog s" and i: "i < length prog" and pc: "pc_of s' = (pc_of s)(i := p)"
    and rd: "\<And>j. j \<noteq> i \<Longrightarrow> j \<in> readers s' \<longleftrightarrow> j \<in> readers s"
    and wr: "\<And>j. j \<noteq> i \<Longrightarrow> writer s' = Some j \<longleftrightarrow> writer s = Some j"
    and enter: "readers s' \<subseteq> readers s \<or> writer s = None"
    and ctx: "ctx_cancelled s \<Longrightarrow> ctx_cancelled s'"
    and own: "thread_inv prog s' i"
    and roles: "writer s' = Some i \<Longrightarrow> prog ! i \<noteq> CallRecv" "i \<in> readers s' \<Longrightarrow> prog ! i = CallRecv"
    and sent: "sent_count s' = sent_count s \<or> prog ! i = CallSend \<and> holding (pc_of s i)"
    and count: "sent_count s' = of_nat (card (stored_sends prog ((pc_of s)(i := p))))"
  shows "lock_inv prog s'"
proof -
  note D = lock_invD [OF inv]
  have "thread_inv prog s' j" if j: "j < length prog" "j \<noteq> i" for j
  proof (rule thread_inv_other [OF D(1) [OF j(1)]])
    show "readers s' = {}" if "readers s = {}" "prog ! j \<noteq> CallRecv" "holding (pc_of s j)"
      using enter that D(1) [OF j(1)] by (auto simp: thread_inv_def holding_def)
    show "sent_count s' = sent_count s \<or> prog ! j \<noteq> CallSend \<or> \<not> holding (pc_of s j)"
      using sent writer_exclusive(2) [OF inv i _ _ j(1)] j(2) by (auto simp: holding_def)
  qed (use pc rd wr ctx j in auto)
  then have "\<forall>j < length prog. thread_inv prog s' j" using own by metis
  moreover have "j < length prog \<and> prog ! j \<noteq> CallRecv" if "writer s' = Some j" for j
    using D(2) [of j] wr [of j] roles(1) i that by (cases "j = i") auto
  moreover have "runs prog j CallRecv" if "j \<in> readers s'" for j
    using D(3) [of j] rd [of j] roles(2) i that by (cases "j = i") (auto simp: runs_def)
  ultimately show ?thesis using count pc unfolding lock_inv_def by auto
qed

lemma arrival_inv: "lock_inv prog s \<Longrightarrow> lock_inv prog (s\<lparr>inbox := xs\<rparr>)"
proof -
  have "thread_inv prog (s\<lparr>inbox := xs\<rparr>) i \<longleftrightarrow> thread_inv prog s i" for i
    by (simp add: thread_inv_def)
  then show "lock_inv prog s \<Longrightarrow> ?thesis" by (simp add: lock_inv_def)
qed

lemmas step_simps = thread_inv_def holding_def stored_card_same runs_def

lemma call_step_inv:
  assumes inv: "lock_inv prog s" and step: "call_step prog s e s'"
  shows "lock_inv prog s'"
  using step
proof cases
  case (arrival m)
  then show ?thesis using inv arrival_inv by blast
next
  case (send_announce i)
  then show ?thesis using lock_invD(1-3) [OF inv, of i] lock_invD(4) [OF inv]
    by (intro lock_inv_step [OF inv, of i _ Waiting]) (simp_all add: step_simps)
next
  case (send_lock i)
  then show ?thesis using lock_invD(1-3) [OF inv, of i] lock_invD(4) [OF inv]
    by (intro lock_inv_step [OF inv, of i _ InCall]) (simp_all add: step_simps)
next
  case (send_load i)
  then show ?thesis using lock_invD(1-3) [OF inv, of i] lock_invD(4) [OF inv]
    by (intro lock_inv_step [OF inv, of i _ "Loaded (sent_count s)"]) (simp_all add: step_simps)
next
  case (send_fail i)
  then show ?thesis using lock_invD(1-3) [OF inv, of i] lock_invD(4) [OF inv] writer_exclusive(1) [OF inv, of i]
    by (intro lock_inv_step [OF inv, of i _ Uncounted]) (simp_all add: step_simps)
next
  case (send_store i v)
  have i: "i < length prog" "prog ! i = CallSend" using send_store by (simp_all add: runs_def)
  have "i \<notin> stored_sends prog (pc_of s)" using send_store by (simp add: stored_sends_iff)
  then have "sent_count s + 1 = of_nat (card (insert i (stored_sends prog (pc_of s))))"
    using lock_invD(4) [OF inv] by simp
  moreover have "v = sent_count s" using lock_invD(1) [OF inv i(1)] send_store i by (simp add: thread_inv_def)
  ultimately show ?thesis using lock_invD(1) [OF inv i(1)] lock_invD(2,3) [OF inv, of i] send_store i
    by (intro lock_inv_step [OF inv, of i _ Stored]) (simp_all add: step_simps stored_sends_upd)
next
  case (send_unlock i)
  then show ?thesis using lock_invD(1-3) [OF inv, of i] lock_invD(4) [OF inv] writer_exclusive(1) [OF inv, of i]
    by (intro lock_inv_step [OF inv, of i _ Returned]) (simp_all add: step_simps)
next
  case (recv_lock i)
  then show ?thesis using lock_invD(1-3) [OF inv, of i] lock_invD(4) [OF inv]
    by (intro lock_inv_step [OF inv, of i _ InCall]) (simp_all add: step_simps)
next
  case (recv_load i rest)
  then show ?thesis using lock_invD(1-3) [OF inv, of i] lock_invD(4) [OF inv]
    by (intro lock_inv_step [OF inv, of i _ "Loaded (received_count s)"]) (simp_all add: step_simps)
next
  case (recv_skip i rest)
  then show ?thesis using lock_invD(1-3) [OF inv, of i] lock_invD(4) [OF inv]
    by (intro lock_inv_step [OF inv, of i _ Uncounted]) (auto simp add: step_simps)
next
  case (recv_abort i)
  then show ?thesis using lock_invD(1-3) [OF inv, of i] lock_invD(4) [OF inv]
    by (intro lock_inv_step [OF inv, of i _ Uncounted]) (auto simp add: step_simps)
next
  case (recv_store i v)
  then show ?thesis using lock_invD(1-3) [OF inv, of i] lock_invD(4) [OF inv]
    by (intro lock_inv_step [OF inv, of i _ Stored]) (simp_all add: step_simps stored_sends_upd)
next
  case (recv_unlock i)
  then show ?thesis using lock_invD(1-3) [OF inv, of i] lock_invD(4) [OF inv]
    by (intro lock_inv_step [OF inv, of i _ Returned]) (auto simp add: step_simps)
next
  case (close_cancel i)
  then show ?thesis using lock_invD(1-3) [OF inv, of i] lock_invD(4) [OF inv]
    by (intro lock_inv_step [OF inv, of i _ Cancelled]) (simp_all add: step_simps)
next
  case (close_announce i)
  then show ?thesis using lock_invD(1-3) [OF inv, of i] lock_invD(4) [OF inv]
    by (intro lock_inv_step [OF inv, of i _ Waiting]) (simp_all add: step_simps)
next
  case (close_lock i)
  then show ?thesis using lock_invD(1-3) [OF inv, of i] lock_invD(4) [OF inv]
    by (intro lock_inv_step [OF inv, of i _ InCall]) (simp_all add: step_simps)
next
  case (close_done i)
  then show ?thesis using lock_invD(1-3) [OF inv, of i] lock_invD(4) [OF inv] writer_exclusive(1) [OF inv, of i]
    by (intro lock_inv_step [OF inv, of i _ Returned]) (simp_all add: step_simps stored_sends_upd)
qed

lemma lock_inv_idle: "lock_inv prog idle_state"
proof -
  have "pc_fits k Start" for k by (cases k) simp_all
  moreover have "stored_sends prog (\<lambda>i. Start) = {}" by (simp add: stored_sends_def)
  ultimately show ?thesis by (simp add: lock_inv_def thread_inv_def idle_state_def holding_def)
qed

interpretation lock: invariant_system "\<lambda>s. s = idle_state" "call_step prog" "lock_inv prog" for prog
  using lock_inv_idle call_step_inv by unfold_locales auto

section \<open>Counting\<close>


text \<open>A send from start to end.\<close>

lemma send_alone:
  "reachable (\<lambda>s. s = idle_state) (call_step [CallSend])
     (idle_state\<lparr>writer := Some 0, sent_count := 1, pc_of := (\<lambda>i. Start)(0 := Stored)\<rparr>)"
proof -
  let ?P = "[CallSend]"
  define s1 where "s1 = goto 0 Waiting (idle_state\<lparr>writer := Some 0\<rparr>)"
  define s2 where "s2 = goto 0 InCall s1"
  define s3 where "s3 = goto 0 (Loaded 0) s2"
  define s4 where "s4 = goto 0 Stored (s3\<lparr>sent_count := 1\<rparr>)"
  note defs = s1_def s2_def s3_def s4_def idle_state_def runs_def
  have "call_step ?P idle_state (Some 0) s1" using send_announce [of ?P 0 idle_state] by (simp add: defs)
  moreover have "call_step ?P s1 (Some 0) s2" using send_lock [of ?P 0 s1] by (simp add: defs)
  moreover have "call_step ?P s2 (Some 0) s3" using send_load [of ?P 0 s2] by (simp add: defs)
  moreover have "call_step ?P s3 (Some 0) s4" using send_store [of ?P 0 s3 0] by (simp add: defs)
  moreover have "reachable (\<lambda>s. s = idle_state) (call_step ?P) idle_state" by (rule reach_init) simp
  ultimately have "reachable (\<lambda>s. s = idle_state) (call_step ?P) s4" by (meson reach_step)
  then show ?thesis by (simp add: defs)
qed


text \<open>
  C30. Receives are not counted exactly: two concurrent receives can both return a message
  while the counter of received messages has only grown by one, since both run under the read
  lock and the update is not atomic.
\<close>

theorem concurrent_recv_loses_update:
  "\<exists>s. reachable (\<lambda>s. s = idle_state) (call_step [CallRecv, CallRecv]) s \<and>
     pc_of s 0 = Returned \<and> pc_of s 1 = Returned \<and> received_count s = 1"
proof -
  let ?P = "[CallRecv, CallRecv]" and ?R = "reachable (\<lambda>s. s = idle_state) (call_step [CallRecv, CallRecv])"
  define a1 where "a1 = idle_state\<lparr>inbox := [True]\<rparr>"
  define a2 where "a2 = a1\<lparr>inbox := [True, True]\<rparr>"
  define s1 where "s1 = goto 0 InCall (a2\<lparr>readers := {0}\<rparr>)"
  define s2 where "s2 = goto 1 InCall (s1\<lparr>readers := {1, 0}\<rparr>)"
  define s3 where "s3 = goto 0 (Loaded 0) (s2\<lparr>inbox := [True]\<rparr>)"
  define s4 where "s4 = goto 1 (Loaded 0) (s3\<lparr>inbox := []\<rparr>)"
  define s5 where "s5 = goto 0 Stored (s4\<lparr>received_count := 1\<rparr>)"
  define s6 where "s6 = goto 1 Stored (s5\<lparr>received_count := 1\<rparr>)"
  define s7 where "s7 = goto 0 Returned (s6\<lparr>readers := {1, 0} - {0}\<rparr>)"
  define s8 where "s8 = goto 1 Returned (s7\<lparr>readers := {1, 0} - {0} - {1}\<rparr>)"
  note defs = a1_def a2_def s1_def s2_def s3_def s4_def s5_def s6_def s7_def s8_def idle_state_def runs_def
  have "call_step ?P idle_state None a1" using arrival [of ?P idle_state True] by (simp add: defs)
  moreover have "call_step ?P a1 None a2" using arrival [of ?P a1 True] by (simp add: defs)
  moreover have "call_step ?P a2 (Some 0) s1" using recv_lock [of ?P 0 a2] by (simp add: defs)
  moreover have "call_step ?P s1 (Some 1) s2" using recv_lock [of ?P 1 s1] by (simp add: defs)
  moreover have "call_step ?P s2 (Some 0) s3" using recv_load [of ?P 0 s2] by (simp add: defs)
  moreover have "call_step ?P s3 (Some 1) s4" using recv_load [of ?P 1 s3] by (simp add: defs)
  moreover have "call_step ?P s4 (Some 0) s5" using recv_store [of ?P 0 s4 0] by (simp add: defs)
  moreover have "call_step ?P s5 (Some 1) s6" using recv_store [of ?P 1 s5 0] by (simp add: defs)
  moreover have "call_step ?P s6 (Some 0) s7" using recv_unlock [of ?P 0 s6] by (simp add: defs)
  moreover have "call_step ?P s7 (Some 1) s8" using recv_unlock [of ?P 1 s7] by (simp add: defs)
  moreover have "?R idle_state" by (rule reach_init) simp
  ultimately have "?R s8" by (meson reach_step)
  then show ?thesis by (intro exI [of _ s8]) (simp add: defs)
qed

section \<open>Waiting\<close>

definition thread_step :: "call_kind list \<Rightarrow> sock_state \<Rightarrow> sock_state \<Rightarrow> bool" where
  "thread_step prog s s' \<longleftrightarrow> (\<exists>i. call_step prog s (Some i) s')"

text \<open>
  C32. A receive that waits for a message blocks the socket: there is a state in which a receive
  waits in the library under the read lock, a send waits for the lock, and no
  call can take a step until something arrives or the socket is closed.
\<close>

theorem waiting_recv_blocks_send:
  "\<exists>s. reachable (\<lambda>s. s = idle_state) (call_step [CallRecv, CallSend]) s \<and>
     pc_of s 0 = InCall \<and> pc_of s 1 = Waiting \<and> inbox s = [] \<and>
     (\<forall>s'. \<not> thread_step [CallRecv, CallSend] s s')"
proof -
  let ?P = "[CallRecv, CallSend]"
  define s1 where "s1 = goto 0 InCall (idle_state\<lparr>readers := {0}\<rparr>)"
  define s2 where "s2 = goto 1 Waiting (s1\<lparr>writer := Some 1\<rparr>)"
  note defs = s1_def s2_def idle_state_def runs_def
  have "call_step ?P idle_state (Some 0) s1" using recv_lock [of ?P 0 idle_state] by (simp add: defs)
  moreover have "call_step ?P s1 (Some 1) s2" using send_announce [of ?P 1 s1] by (simp add: defs)
  moreover have "reachable (\<lambda>s. s = idle_state) (call_step ?P) idle_state" by (rule reach_init) simp
  ultimately have "reachable (\<lambda>s. s = idle_state) (call_step ?P) s2" by (meson reach_step)
  moreover have "\<not> call_step ?P s2 (Some i) s'" for i s'
  proof
    assume "call_step ?P s2 (Some i) s'"
    moreover have "i < length ?P \<Longrightarrow> i = 0 \<or> i = 1" by auto
    ultimately show False by cases (auto simp: defs)
  qed
  ultimately show ?thesis
    by (intro exI [of _ s2]) (auto simp: thread_step_def, simp_all add: defs)
qed

section \<open>Closing ends every call\<close>

text \<open>The steps that a call has left at most.\<close>

fun rank :: "pc \<Rightarrow> nat" where
  "rank Start = 6" | "rank Cancelled = 5" | "rank Waiting = 4" | "rank InCall = 3"
| "rank (Loaded v) = 2" | "rank Stored = 1" | "rank Returned = 0" | "rank Uncounted = 0"

definition work :: "call_kind list \<Rightarrow> sock_state \<Rightarrow> nat" where
  "work prog s = (\<Sum>i < length prog. rank (pc_of s i))"

lemma thread_step_work:
  assumes "thread_step prog s s'"
  shows "work prog s' < work prog s"
proof -
  obtain i where "call_step prog s (Some i) s'" using assms by (auto simp: thread_step_def)
  then have "i < length prog \<and> rank (pc_of s' i) < rank (pc_of s i) \<and> (\<forall>j. j \<noteq> i \<longrightarrow> pc_of s' j = pc_of s j)"
    by cases (auto simp: runs_def)
  then show ?thesis unfolding work_def
    by (intro sum_strict_mono_ex1) (auto simp: less_imp_le, metis less_imp_le order_refl)
qed

lemma thread_steps_bound: "(thread_step prog ^^ n) s s' \<Longrightarrow> n \<le> work prog s"
proof (induction n arbitrary: s)
  case (Suc n)
  then obtain s1 where "thread_step prog s s1" "(thread_step prog ^^ n) s1 s'"
    by (meson relpowp_Suc_D2)
  with Suc.IH [of s1] thread_step_work [of prog s s1] show ?case by simp
qed simp

lemma thread_steps_inv:
  "(thread_step prog)\<^sup>*\<^sup>* s s' \<Longrightarrow> lock_inv prog s \<Longrightarrow> ctx_cancelled s \<Longrightarrow> lock_inv prog s' \<and> ctx_cancelled s'"
proof (induction rule: rtranclp_induct)
  case (step s1 s2)
  then obtain i where st: "call_step prog s1 (Some i) s2" by (auto simp: thread_step_def)
  then have "ctx_cancelled s1 \<longrightarrow> ctx_cancelled s2" by cases auto
  with step call_step_inv [OF _ st] show ?case by blast
qed simp

text \<open>Once the context is cancelled, a state in which no call can step has no call left: first, none
  that holds the lock.\<close>

lemma quiescent_free:
  assumes inv: "lock_inv prog s" and canc: "ctx_cancelled s" and quiet: "\<And>s'. \<not> thread_step prog s s'"
    and j: "j < length prog"
  shows "\<not> holding (pc_of s j)"
proof
  have stuck: "\<not> call_step prog s (Some j) s'" for s' using quiet by (auto simp: thread_step_def)
  have fits: "pc_fits (prog ! j) (pc_of s j)" using lock_invD(1) [OF inv j] by (simp add: thread_inv_def)
  assume "holding (pc_of s j)"
  then consider "pc_of s j = InCall" | v where "pc_of s j = Loaded v" | "pc_of s j = Stored"
    by (cases "pc_of s j") (auto simp: holding_def)
  then show False
  proof cases
    case 1
    then show False
      using stuck send_fail [of prog j s] recv_abort [of prog j s] close_done [of prog j s] j canc
      by (cases "prog ! j") (simp_all add: runs_def)
  next
    case (2 v)
    then show False
      using stuck send_store [of prog j s v] recv_store [of prog j s v] j fits
      by (cases "prog ! j") (simp_all add: runs_def)
  next
    case 3
    then show False
      using stuck send_unlock [of prog j s] recv_unlock [of prog j s] j fits
      by (cases "prog ! j") (simp_all add: runs_def)
  qed
qed

lemma quiescent_returned:
  assumes inv: "lock_inv prog s" and canc: "ctx_cancelled s" and quiet: "\<And>s'. \<not> thread_step prog s s'"
    and i: "i < length prog"
  shows "returned (pc_of s i)"
proof -
  have stuck: "\<not> call_step prog s (Some j) s'" for j s' using quiet by (auto simp: thread_step_def)
  have fits: "pc_fits (prog ! j) (pc_of s j)" if "j < length prog" for j
    using lock_invD(1) [OF inv that] by (simp add: thread_inv_def)
  note free = quiescent_free [OF inv canc quiet]
  have "readers s = {}"
  proof -
    have False if "j \<in> readers s" for j
      using lock_invD(3) [OF inv that] lock_invD(1) [OF inv, of j] that free [of j] fits [of j]
      by (auto simp: runs_def thread_inv_def holding_def)
    then show ?thesis by blast
  qed
  moreover from this have "pc_of s j \<noteq> Waiting" if "j < length prog" for j
    using stuck send_lock [of prog j s] close_lock [of prog j s] that fits [OF that]
    by (cases "prog ! j") (auto simp: runs_def)
  moreover from this have "writer s = None"
  proof -
    have False if "writer s = Some j" for j
      using lock_invD(2) [OF inv that] lock_invD(1) [OF inv, of j] that free [of j]
        \<open>\<And>j. j < length prog \<Longrightarrow> pc_of s j \<noteq> Waiting\<close> [of j]
      by (auto simp: thread_inv_def holding_def)
    then show ?thesis by (cases "writer s") auto
  qed
  ultimately show ?thesis
    using stuck send_announce [of prog i s] recv_lock [of prog i s] close_cancel [of prog i s]
      close_announce [of prog i s] i fits [OF i] free [OF i]
    by (cases "pc_of s i"; cases "prog ! i") (auto simp: runs_def returned_def holding_def)
qed



end
