(* ===== verification/QZMQ_Atomicity.thy ===== *)
theory QZMQ_Atomicity
  imports QZMQ_Socket
begin

text \<open>
  Concurrent calls on one socket of \<open>src/backend.go\<close>, with the values they compute: any number of
  goroutines, each with one call, share the record \<open>zmqSocket\<close> under its \<open>sync.RWMutex\<close>. A call
  enters the lock, runs its body up to the library's answer, and then updates the
  counters, each addition being a load followed by a store; \<open>Close\<close> cancels the context before it asks for the
  lock; \<open>GetMetrics\<close> copies the counters one by one. The specification runs the sequential
  operations of \<open>QZMQ_Socket\<close> one at a time. With at most one receiving goroutine the
  calls are linearizable; the copy of the metrics is not atomic.
\<close>

section \<open>Counters\<close>

datatype metric = MSent | MReceived | BSent | BReceived

fun get_metric :: "metric \<Rightarrow> SocketMetrics \<Rightarrow> 64 word" where
  "get_metric MSent m = MessagesSent m"
| "get_metric MReceived m = MessagesReceived m"
| "get_metric BSent m = BytesSent m"
| "get_metric BReceived m = BytesReceived m"

fun set_metric :: "metric \<Rightarrow> 64 word \<Rightarrow> SocketMetrics \<Rightarrow> SocketMetrics" where
  "set_metric MSent v m = m\<lparr>MessagesSent := v\<rparr>"
| "set_metric MReceived v m = m\<lparr>MessagesReceived := v\<rparr>"
| "set_metric BSent v m = m\<lparr>BytesSent := v\<rparr>"
| "set_metric BReceived v m = m\<lparr>BytesReceived := v\<rparr>"

text \<open>The additions that a call has to make, in order.\<close>

type_synonym additions = "(metric \<times> nat) list"

definition add_all :: "additions \<Rightarrow> SocketMetrics \<Rightarrow> SocketMetrics" where
  "add_all todo = fold (\<lambda>(f, n) m. set_metric f (get_metric f m + of_nat n) m) todo"

section \<open>The body of a call\<close>

text \<open>What a call does under the lock before it counts: its answer, the socket, and the
  additions. For \<open>Close\<close> this is the part after the cancellation.\<close>

fun call_body :: "'z zmq_lib \<Rightarrow> sock_op \<Rightarrow> 'z zmqSocket \<Rightarrow> sock_out \<times> 'z zmqSocket \<times> additions" where
  "call_body lib (OpSend data) s =
     (if s_closed s then (OutUnit (Err ErrNotConnected), s, [])
      else case zmq_Send lib (s_socket s) (zmq_NewMsg lib data) of
        (Ok _, z) \<Rightarrow> (OutUnit (Ok ()), s\<lparr>s_socket := z\<rparr>, [(MSent, 1), (BSent, length data)])
      | (r, z) \<Rightarrow> (OutUnit r, s\<lparr>s_socket := z\<rparr>, []))"
| "call_body lib (OpSendMultipart parts) s =
     (if s_closed s then (OutUnit (Err ErrNotConnected), s, [])
      else case zmq_Send lib (s_socket s) (zmq_NewMsgFrom lib parts) of
        (Ok _, z) \<Rightarrow> (OutUnit (Ok ()), s\<lparr>s_socket := z\<rparr>,
          (MSent, 1) # map (\<lambda>part. (BSent, length part)) parts)
      | (r, z) \<Rightarrow> (OutUnit r, s\<lparr>s_socket := z\<rparr>, []))"
| "call_body lib OpRecv s =
     (if s_closed s then (OutBytes (Err ErrNotConnected), s, [])
      else case zmq_Recv lib (s_socket s) of
        (Err e, z) \<Rightarrow> (OutBytes (Err e), s\<lparr>s_socket := z\<rparr>, [])
      | (Panic q, z) \<Rightarrow> (OutBytes (Panic q), s\<lparr>s_socket := z\<rparr>, [])
      | (Ok msg, z) \<Rightarrow>
          (case Frames msg of
             [] \<Rightarrow> (OutBytes (Ok []), s\<lparr>s_socket := z\<rparr>, [])
           | data # _ \<Rightarrow> (OutBytes (Ok data), s\<lparr>s_socket := z\<rparr>, [(MReceived, 1), (BReceived, length data)])))"
| "call_body lib OpRecvMultipart s =
     (if s_closed s then (OutParts (Err ErrNotConnected), s, [])
      else case zmq_Recv lib (s_socket s) of
        (Err e, z) \<Rightarrow> (OutParts (Err e), s\<lparr>s_socket := z\<rparr>, [])
      | (Panic q, z) \<Rightarrow> (OutParts (Panic q), s\<lparr>s_socket := z\<rparr>, [])
      | (Ok msg, z) \<Rightarrow> (OutParts (Ok (Frames msg)), s\<lparr>s_socket := z\<rparr>,
          (MReceived, 1) # map (\<lambda>frame. (BReceived, length frame)) (Frames msg)))"
| "call_body lib OpClose s =
     (if s_closed s then (OutUnit (Ok ()), s, [])
      else case zmq_Close lib (s_socket s) of
        (r, z) \<Rightarrow> (OutUnit r, s\<lparr>s_closed := True, s_socket := z\<rparr>, []))"
| "call_body lib op s = (case sock_exec lib op s of (out, s) \<Rightarrow> (out, s, []))"

text \<open>A body with its additions made at once; this is the sequential operation.\<close>

definition atomic_call :: "'z zmq_lib \<Rightarrow> sock_op \<Rightarrow> 'z zmqSocket \<Rightarrow> sock_out \<times> 'z zmqSocket" where
  "atomic_call lib op s =
     (case call_body lib op s of (out, s, todo) \<Rightarrow> (out, s\<lparr>s_metrics := add_all todo (s_metrics s)\<rparr>))"

lemma add_all_simps [simp]:
  "add_all [] m = m"
  "add_all ((f, n) # todo) m = add_all todo (set_metric f (get_metric f m + of_nat n) m)"
  by (simp_all add: add_all_def)

lemma add_all_parts:
  "add_all (map (\<lambda>part. (BSent, length part)) parts) m = fold (\<lambda>part. count_sent (length part)) parts m"
  "add_all (map (\<lambda>part. (BReceived, length part)) parts) m = fold (\<lambda>part. count_received (length part)) parts m"
  by (induction parts arbitrary: m) (simp_all add: count_sent_def count_received_def)

lemma atomic_call_sequential: "op \<noteq> OpClose \<Longrightarrow> atomic_call lib op s = sock_exec lib op s"
  by (cases op) (auto simp: atomic_call_def sock_simps Let_def add_all_parts count_sent_def count_received_def
      split: prod.split result.split list.split)

lemma atomic_call_close: "atomic_call lib OpClose (cancel lib s) = sock_exec lib OpClose s"
  by (auto simp: atomic_call_def Close_def via_lib_def Let_def split: prod.split)

text \<open>A body neither reads nor writes the counters.\<close>

lemma call_body_metrics:
  "call_body lib op (s\<lparr>s_metrics := m\<rparr>) = (case call_body lib op s of (out, s, todo) \<Rightarrow> (out, s\<lparr>s_metrics := m\<rparr>, todo))"
  by (cases op) (auto simp: sock_simps Let_def split: prod.split result.split list.split gvalue.split)

lemma call_body_keeps_metrics: "call_body lib op s = (out, s', todo) \<Longrightarrow> s_metrics s' = s_metrics s"
  by (cases op) (auto simp: sock_simps Let_def
      split: if_splits prod.splits result.splits list.splits gvalue.splits)

section \<open>Goroutines on a shared socket\<close>

datatype task = Call sock_op | CopyMetrics

text \<open>The calls under the read lock, and among them those that count.\<close>

fun reads :: "task \<Rightarrow> bool" where
  "reads CopyMetrics = True" | "reads (Call OpRecv) = True" | "reads (Call OpRecvMultipart) = True"
| "reads (Call (OpGetOption n)) = True" | "reads (Call _) = False"

fun receives :: "task \<Rightarrow> bool" where
  "receives (Call OpRecv) = True" | "receives (Call OpRecvMultipart) = True" | "receives _ = False"

text \<open>
  Where a goroutine is: not started; \<open>Close\<close> after the cancellation; a writer that has
  announced itself and waits for the readers to leave; inside the lock; with additions left;
  with a counter loaded for an addition; copying counters; returned.
\<close>

datatype point = NotStarted | AfterCancel | Announced | Inside
  | Counting additions sock_out | Adding metric nat "64 word" additions sock_out | Answered sock_out
  | Copying "metric list" SocketMetrics | Copied SocketMetrics

record 'z arena =
  lock_writer :: "nat option"
  lock_readers :: "nat set"
  shared :: "'z zmqSocket"
  point_of :: "nat \<Rightarrow> point"

definition open_arena :: "'z zmqSocket \<Rightarrow> 'z arena" where
  "open_arena s = \<lparr>lock_writer = None, lock_readers = {}, shared = s, point_of = (\<lambda>i. NotStarted)\<rparr>"

abbreviation move :: "nat \<Rightarrow> point \<Rightarrow> 'z arena \<Rightarrow> 'z arena" where
  "move i p c \<equiv> c\<lparr>point_of := (point_of c)(i := p)\<rparr>"

datatype arena_event = Linearized nat sock_out | Cancels nat | Internal nat

definition entry_point :: "task \<Rightarrow> point" where
  "entry_point t = (if t = Call OpClose then AfterCancel else NotStarted)"

inductive shared_step :: "'z zmq_lib \<Rightarrow> task list \<Rightarrow> 'z arena \<Rightarrow> arena_event \<Rightarrow> 'z arena \<Rightarrow> bool"
  for lib prog where
  sh_cancel: "i < length prog \<Longrightarrow> prog ! i = Call OpClose \<Longrightarrow> point_of c i = NotStarted \<Longrightarrow>
    shared_step lib prog c (Cancels i) (move i AfterCancel (c\<lparr>shared := cancel lib (shared c)\<rparr>))"
| sh_announce: "i < length prog \<Longrightarrow> \<not> reads (prog ! i) \<Longrightarrow> point_of c i = entry_point (prog ! i) \<Longrightarrow>
    lock_writer c = None \<Longrightarrow>
    shared_step lib prog c (Internal i) (move i Announced (c\<lparr>lock_writer := Some i\<rparr>))"
| sh_lock: "i < length prog \<Longrightarrow> point_of c i = Announced \<Longrightarrow> lock_readers c = {} \<Longrightarrow>
    shared_step lib prog c (Internal i) (move i Inside c)"
| sh_rlock: "i < length prog \<Longrightarrow> reads (prog ! i) \<Longrightarrow> point_of c i = NotStarted \<Longrightarrow> lock_writer c = None \<Longrightarrow>
    shared_step lib prog c (Internal i) (move i Inside (c\<lparr>lock_readers := insert i (lock_readers c)\<rparr>))"
| sh_body: "i < length prog \<Longrightarrow> prog ! i = Call op \<Longrightarrow> point_of c i = Inside \<Longrightarrow>
    call_body lib op (shared c) = (out, s, todo) \<Longrightarrow>
    shared_step lib prog c (Linearized i out) (move i (Counting todo out) (c\<lparr>shared := s\<rparr>))"
| sh_load: "i < length prog \<Longrightarrow> point_of c i = Counting ((f, n) # todo) out \<Longrightarrow>
    shared_step lib prog c (Internal i) (move i (Adding f n (get_metric f (s_metrics (shared c))) todo out) c)"
| sh_store: "i < length prog \<Longrightarrow> point_of c i = Adding f n v todo out \<Longrightarrow>
    shared_step lib prog c (Internal i) (move i (Counting todo out)
      (c\<lparr>shared := (shared c)\<lparr>s_metrics := set_metric f (v + of_nat n) (s_metrics (shared c))\<rparr>\<rparr>))"
| sh_unlock: "i < length prog \<Longrightarrow> \<not> reads (prog ! i) \<Longrightarrow> point_of c i = Counting [] out \<Longrightarrow>
    shared_step lib prog c (Internal i) (move i (Answered out) (c\<lparr>lock_writer := None\<rparr>))"
| sh_runlock: "i < length prog \<Longrightarrow> reads (prog ! i) \<Longrightarrow> point_of c i = Counting [] out \<Longrightarrow>
    shared_step lib prog c (Internal i) (move i (Answered out) (c\<lparr>lock_readers := lock_readers c - {i}\<rparr>))"
| sh_copy_start: "i < length prog \<Longrightarrow> prog ! i = CopyMetrics \<Longrightarrow> point_of c i = Inside \<Longrightarrow>
    shared_step lib prog c (Internal i)
      (move i (Copying [MSent, MReceived, BSent, BReceived] (s_metrics (shared c))) c)"
| sh_copy: "i < length prog \<Longrightarrow> point_of c i = Copying (f # fs) m \<Longrightarrow>
    shared_step lib prog c (Internal i)
      (move i (Copying fs (set_metric f (get_metric f (s_metrics (shared c))) m)) c)"
| sh_copy_end: "i < length prog \<Longrightarrow> point_of c i = Copying [] m \<Longrightarrow>
    shared_step lib prog c (Internal i) (move i (Copied m) (c\<lparr>lock_readers := lock_readers c - {i}\<rparr>))"

text \<open>The next step of a goroutine is determined, if it has one.\<close>

definition next_step :: "'z zmq_lib \<Rightarrow> task list \<Rightarrow> nat \<Rightarrow> 'z arena \<Rightarrow> (arena_event \<times> 'z arena) option" where
  "next_step lib prog i c = (if length prog \<le> i then None else case point_of c i of
     NotStarted \<Rightarrow>
       (if prog ! i = Call OpClose then Some (Cancels i, move i AfterCancel (c\<lparr>shared := cancel lib (shared c)\<rparr>))
        else if lock_writer c \<noteq> None then None
        else if reads (prog ! i)
          then Some (Internal i, move i Inside (c\<lparr>lock_readers := insert i (lock_readers c)\<rparr>))
        else Some (Internal i, move i Announced (c\<lparr>lock_writer := Some i\<rparr>)))
   | AfterCancel \<Rightarrow>
       (if prog ! i = Call OpClose \<and> lock_writer c = None
        then Some (Internal i, move i Announced (c\<lparr>lock_writer := Some i\<rparr>)) else None)
   | Announced \<Rightarrow> (if lock_readers c = {} then Some (Internal i, move i Inside c) else None)
   | Inside \<Rightarrow>
       (case prog ! i of
          Call op \<Rightarrow> (case call_body lib op (shared c) of (out, s, todo) \<Rightarrow>
            Some (Linearized i out, move i (Counting todo out) (c\<lparr>shared := s\<rparr>)))
        | CopyMetrics \<Rightarrow>
            Some (Internal i, move i (Copying [MSent, MReceived, BSent, BReceived] (s_metrics (shared c))) c))
   | Counting todo out \<Rightarrow>
       (case todo of
          (f, n) # rest \<Rightarrow>
            Some (Internal i, move i (Adding f n (get_metric f (s_metrics (shared c))) rest out) c)
        | [] \<Rightarrow> Some (Internal i, move i (Answered out)
            (if reads (prog ! i) then c\<lparr>lock_readers := lock_readers c - {i}\<rparr> else c\<lparr>lock_writer := None\<rparr>)))
   | Adding f n v todo out \<Rightarrow> Some (Internal i, move i (Counting todo out)
       (c\<lparr>shared := (shared c)\<lparr>s_metrics := set_metric f (v + of_nat n) (s_metrics (shared c))\<rparr>\<rparr>))
   | Copying fs m \<Rightarrow>
       (case fs of
          f # rest \<Rightarrow> Some (Internal i, move i (Copying rest (set_metric f (get_metric f (s_metrics (shared c))) m)) c)
        | [] \<Rightarrow> Some (Internal i, move i (Copied m) (c\<lparr>lock_readers := lock_readers c - {i}\<rparr>)))
   | _ \<Rightarrow> None)"

lemma next_step_sound: "next_step lib prog i c = Some (e, c') \<Longrightarrow> shared_step lib prog c e c'"
proof -
  assume next_i: "next_step lib prog i c = Some (e, c')"
  then have i: "i < length prog" by (simp add: next_step_def split: if_splits)
  show ?thesis
  proof (cases "point_of c i")
    case NotStarted
    with next_i i show ?thesis
      using sh_cancel [of i prog c lib] sh_rlock [of i prog c lib] sh_announce [of i prog c lib]
      by (auto simp: next_step_def entry_point_def split: if_splits)
  next
    case AfterCancel
    with next_i i show ?thesis using sh_announce [of i prog c lib]
      by (auto simp: next_step_def entry_point_def split: if_splits)
  next
    case Announced
    with next_i i show ?thesis by (auto simp: next_step_def intro: sh_lock split: if_splits)
  next
    case Inside
    with next_i i show ?thesis
      using sh_body [of i prog _ c lib] sh_copy_start [of i prog c lib]
      by (cases "prog ! i") (auto simp: next_step_def simp del: call_body.simps split: prod.splits)
  next
    case (Counting todo out)
    with next_i i show ?thesis
      using sh_load [of i prog c _ _ _ out lib] sh_unlock [of i prog c out lib] sh_runlock [of i prog c out lib]
      by (cases todo) (auto simp: next_step_def split: if_splits)
  next
    case (Adding f n v todo out)
    with next_i i show ?thesis using sh_store [OF i Adding, of lib] by (auto simp: next_step_def)
  next
    case (Copying fs m)
    with next_i i show ?thesis using sh_copy [of i prog c _ _ m lib] sh_copy_end [of i prog c m lib]
      by (cases fs) (auto simp: next_step_def)
  qed (use next_i in \<open>simp_all add: next_step_def split: if_splits\<close>)
qed

text \<open>A schedule names the goroutine that moves next.\<close>

primrec play :: "'z zmq_lib \<Rightarrow> task list \<Rightarrow> nat list \<Rightarrow> 'z arena \<Rightarrow> (arena_event list \<times> 'z arena) option" where
  "play lib prog [] c = Some ([], c)"
| "play lib prog (i # is) c = (case next_step lib prog i c of
     None \<Rightarrow> None
   | Some (e, c) \<Rightarrow> (case play lib prog is c of None \<Rightarrow> None | Some (es, c) \<Rightarrow> Some (e # es, c)))"

lemma play_run: "play lib prog is c = Some (es, c') \<Longrightarrow> run (shared_step lib prog) c es c'"
proof (induction "is" arbitrary: c es)
  case (Cons i rest)
  then obtain e c1 es1 where "next_step lib prog i c = Some (e, c1)" "play lib prog rest c1 = Some (es1, c')"
    "es = e # es1" by (auto split: option.splits)
  then show ?case using run_Cons [OF Cons.IH next_step_sound] by metis
qed (auto intro: run_nil)

section \<open>The lock\<close>

fun inside :: "point \<Rightarrow> bool" where
  "inside Inside = True" | "inside (Counting todo out) = True" | "inside (Adding f n v todo out) = True"
| "inside (Copying fs m) = True" | "inside _ = False"

text \<open>The additions that a goroutine has still to make.\<close>

fun owed_by :: "point \<Rightarrow> additions" where
  "owed_by (Counting todo out) = todo"
| "owed_by (Adding f n v todo out) = (f, n) # todo"
| "owed_by _ = []"

definition slot_ok :: "task list \<Rightarrow> 'z arena \<Rightarrow> nat \<Rightarrow> bool" where
  "slot_ok prog c i \<longleftrightarrow> (let t = prog ! i; p = point_of c i in
     (p = AfterCancel \<longrightarrow> t = Call OpClose) \<and>
     (p = Announced \<longrightarrow> \<not> reads t) \<and>
     (inside p \<or> p = Announced \<longleftrightarrow> (if reads t then i \<in> lock_readers c else lock_writer c = Some i)) \<and>
     (\<not> reads t \<and> inside p \<longrightarrow> lock_readers c = {}) \<and>
     (reads t \<and> owed_by p \<noteq> [] \<longrightarrow> receives t) \<and>
     (\<forall>fs m. p = Copying fs m \<longrightarrow> t = CopyMetrics) \<and>
     (\<forall>f n v todo out. p = Adding f n v todo out \<longrightarrow> v = get_metric f (s_metrics (shared c))))"

definition arena_inv :: "task list \<Rightarrow> 'z arena \<Rightarrow> bool" where
  "arena_inv prog c \<longleftrightarrow>
     (\<forall>i < length prog. slot_ok prog c i) \<and>
     (\<forall>i. lock_writer c = Some i \<longrightarrow> i < length prog \<and> \<not> reads (prog ! i)) \<and>
     (\<forall>i \<in> lock_readers c. i < length prog \<and> reads (prog ! i))"

definition one_receiver :: "task list \<Rightarrow> bool" where
  "one_receiver prog \<longleftrightarrow> length (filter receives prog) \<le> 1"

lemma one_receiverD:
  assumes "one_receiver prog" "i < length prog" "j < length prog" "receives (prog ! i)" "receives (prog ! j)"
  shows "i = j"
proof (rule ccontr)
  assume "i \<noteq> j"
  have "card {k. k < length prog \<and> receives (prog ! k)} \<le> 1"
    using assms(1) by (simp add: one_receiver_def length_filter_conv_card)
  moreover have "card {i, j} \<le> card {k. k < length prog \<and> receives (prog ! k)}"
    using assms by (intro card_mono) auto
  ultimately show False using \<open>i \<noteq> j\<close> by simp
qed

lemma slotD:
  assumes "arena_inv prog c" "i < length prog"
  shows "slot_ok prog c i"
  using assms by (simp add: arena_inv_def)

text \<open>Only one goroutine at a time has additions to make.\<close>

lemma owed_inside: "owed_by p \<noteq> [] \<Longrightarrow> inside p"
  by (cases p) simp_all

lemma counting_unique:
  assumes "arena_inv prog c" "one_receiver prog" "i < length prog" "j < length prog"
    and "owed_by (point_of c i) \<noteq> []" "owed_by (point_of c j) \<noteq> []"
  shows "i = j"
proof -
  note i = slotD [OF assms(1,3)] owed_inside [OF assms(5)] and j = slotD [OF assms(1,4)] owed_inside [OF assms(6)]
  show ?thesis
  proof (cases "reads (prog ! i) \<longleftrightarrow> reads (prog ! j)")
    case True
    then show ?thesis using i j assms(5,6) one_receiverD [OF assms(2,3,4)]
      by (auto simp: slot_ok_def Let_def split: if_splits)
  next
    case False
    then show ?thesis using i j by (auto simp: slot_ok_def Let_def split: if_splits)
  qed
qed

lemma slot_other:
  assumes "slot_ok prog c j" "point_of c' j = point_of c j"
    and "j \<in> lock_readers c' \<longleftrightarrow> j \<in> lock_readers c" "lock_writer c' = Some j \<longleftrightarrow> lock_writer c = Some j"
    and "\<not> reads (prog ! j) \<Longrightarrow> inside (point_of c j) \<Longrightarrow> lock_readers c' = {}"
    and "owed_by (point_of c j) \<noteq> [] \<Longrightarrow> s_metrics (shared c') = s_metrics (shared c)"
  shows "slot_ok prog c' j"
  using assms by (cases "point_of c j") (simp_all add: slot_ok_def Let_def split: if_splits)

lemma arena_inv_step:
  assumes inv: "arena_inv prog c" and one: "one_receiver prog" and i: "i < length prog"
    and pt: "point_of c' = (point_of c)(i := p)"
    and rd: "\<And>j. j \<noteq> i \<Longrightarrow> j \<in> lock_readers c' \<longleftrightarrow> j \<in> lock_readers c"
    and wr: "\<And>j. j \<noteq> i \<Longrightarrow> lock_writer c' = Some j \<longleftrightarrow> lock_writer c = Some j"
    and enter: "lock_readers c' \<subseteq> lock_readers c \<or> lock_writer c = None"
    and own: "slot_ok prog c' i"
    and roles: "lock_writer c' = Some i \<Longrightarrow> \<not> reads (prog ! i)" "i \<in> lock_readers c' \<Longrightarrow> reads (prog ! i)"
    and met: "s_metrics (shared c') = s_metrics (shared c) \<or> owed_by (point_of c i) \<noteq> []"
  shows "arena_inv prog c'"
proof -
  have "slot_ok prog c' j" if j: "j < length prog" "j \<noteq> i" for j
  proof (rule slot_other [OF slotD [OF inv j(1)]])
    show "lock_readers c' = {}" if "\<not> reads (prog ! j)" "inside (point_of c j)"
      using slotD [OF inv j(1)] that enter by (simp add: slot_ok_def Let_def)
    show "s_metrics (shared c') = s_metrics (shared c)" if "owed_by (point_of c j) \<noteq> []"
      using met counting_unique [OF inv one i j(1) _ that] j(2) by blast
  qed (simp_all add: pt rd wr j)
  with own have "\<forall>j < length prog. slot_ok prog c' j" by metis
  moreover have "j < length prog \<and> \<not> reads (prog ! j)" if "lock_writer c' = Some j" for j
    using that inv wr [of j] roles(1) i by (cases "j = i") (auto simp: arena_inv_def)
  moreover have "j < length prog \<and> reads (prog ! j)" if "j \<in> lock_readers c'" for j
    using that inv rd [of j] roles(2) i by (cases "j = i") (auto simp: arena_inv_def)
  ultimately show ?thesis by (auto simp: arena_inv_def)
qed

lemma arena_inv_move:
  assumes "arena_inv prog c" "one_receiver prog" "i < length prog" "slot_ok prog (move i p c) i"
  shows "arena_inv prog (move i p c)"
  using assms(1) by (intro arena_inv_step [OF assms(1-3), of _ p]) (auto simp: arena_inv_def assms(4))

lemma cancel_metrics [simp]: "s_metrics (cancel lib s) = s_metrics s"
  by (simp add: cancel_def)

lemma reader_owes: "call_body lib op s = (out, s', todo) \<Longrightarrow> reads (Call op) \<Longrightarrow> todo \<noteq> [] \<Longrightarrow> receives (Call op)"
  by (cases op) (auto simp: Let_def)

lemma reads_not_close [simp]: "\<not> reads (Call OpClose)"
  by simp

lemmas slot_simps = slot_ok_def entry_point_def Let_def

lemma shared_step_inv:
  assumes inv: "arena_inv prog c" and one: "one_receiver prog" and step: "shared_step lib prog c e c'"
  shows "arena_inv prog c'"
proof -
  note D = slotD [OF inv]
  have L: "lock_writer c = Some k \<Longrightarrow> k < length prog \<and> \<not> reads (prog ! k)"
    "k \<in> lock_readers c \<Longrightarrow> k < length prog \<and> reads (prog ! k)" for k
    using inv by (auto simp: arena_inv_def)
  from step show ?thesis
  proof cases
    case (sh_cancel i)
    then show ?thesis using D [of i] L [of i]
      by (intro arena_inv_step [OF inv one, of i _ AfterCancel]) (auto simp: slot_simps)
  next
    case (sh_announce i)
    then show ?thesis using D [of i] L [of i]
      by (cases "prog ! i = Call OpClose"; intro arena_inv_step [OF inv one, of i _ Announced])
        (simp_all add: slot_simps)
  next
    case (sh_lock i)
    have "slot_ok prog c' i" using D [OF sh_lock(3)] sh_lock(2,4,5) by (simp add: slot_simps)
    then show ?thesis unfolding sh_lock(2) by (rule arena_inv_move [OF inv one sh_lock(3)])
  next
    case (sh_rlock i)
    then show ?thesis using D [of i] L [of i]
      by (intro arena_inv_step [OF inv one, of i _ Inside]) (auto simp: slot_simps)
  next
    case (sh_body i op out s todo)
    have "s_metrics s = s_metrics (shared c)" using sh_body(6) by (rule call_body_keeps_metrics)
    moreover have "reads (prog ! i) \<Longrightarrow> todo \<noteq> [] \<Longrightarrow> receives (prog ! i)"
      using reader_owes [OF sh_body(6)] sh_body(4) by simp
    ultimately have "slot_ok prog c' i"
      using D [of i] sh_body(2,3,5) by (cases "reads (prog ! i)") (simp_all add: slot_simps)
    moreover have "s_metrics (shared c') = s_metrics (shared c)"
      using sh_body(2) call_body_keeps_metrics [OF sh_body(6)] by simp
    ultimately show ?thesis using L [of i] sh_body(2,3)
      by (intro arena_inv_step [OF inv one, of i c' "Counting todo out"]) simp_all
  next
    case (sh_load i f n todo out)
    have "slot_ok prog c' i" using D [OF sh_load(3)] sh_load(2,4)
      by (cases "reads (prog ! i)") (simp_all add: slot_simps)
    then show ?thesis unfolding sh_load(2) by (rule arena_inv_move [OF inv one sh_load(3)])
  next
    case (sh_store i f n v todo out)
    have "slot_ok prog c' i" using D [OF sh_store(3)] sh_store(2,4)
      by (cases "reads (prog ! i)") (simp_all add: slot_simps)
    then show ?thesis using L [of i] sh_store(2-4)
      by (intro arena_inv_step [OF inv one, of i c' "Counting todo out"]) simp_all
  next
    case (sh_unlock i out)
    have "slot_ok prog c' i" using D [OF sh_unlock(3)] sh_unlock(2,4,5) by (simp add: slot_simps)
    then show ?thesis using L [of i] sh_unlock(2-4) D [OF sh_unlock(3)] sh_unlock(5)
      by (intro arena_inv_step [OF inv one, of i c' "Answered out"]) (simp_all add: slot_simps)
  next
    case (sh_runlock i out)
    have "slot_ok prog c' i" using D [OF sh_runlock(3)] sh_runlock(2,4,5) by (simp add: slot_simps)
    then show ?thesis using L [of i] sh_runlock(2-4)
      by (intro arena_inv_step [OF inv one, of i c' "Answered out"]) auto
  next
    case (sh_copy_start i)
    have "slot_ok prog c' i" using D [OF sh_copy_start(3)] sh_copy_start(2,4,5) by (simp add: slot_simps)
    then show ?thesis unfolding sh_copy_start(2) by (rule arena_inv_move [OF inv one sh_copy_start(3)])
  next
    case (sh_copy i f fs m)
    have "slot_ok prog c' i" using D [OF sh_copy(3)] sh_copy(2,4) by (simp add: slot_simps)
    then show ?thesis unfolding sh_copy(2) by (rule arena_inv_move [OF inv one sh_copy(3)])
  next
    case (sh_copy_end i m)
    have "slot_ok prog c' i" using D [OF sh_copy_end(3)] sh_copy_end(2,4) by (simp add: slot_simps)
    then show ?thesis using L [of i] sh_copy_end(2-4)
      by (intro arena_inv_step [OF inv one, of i c' "Copied m"]) auto
  qed
qed

lemma open_arena_inv: "arena_inv prog (open_arena s)"
  by (auto simp: arena_inv_def open_arena_def slot_simps)

section \<open>The specification: one call at a time\<close>

text \<open>
  The sequential operations of \<open>QZMQ_Socket\<close>, each in one step; \<open>Close\<close> takes two, the cancellation
  and the rest. Internal steps do nothing.
\<close>

inductive atomic_step :: "'z zmq_lib \<Rightarrow> task list \<Rightarrow> 'z zmqSocket \<Rightarrow> arena_event \<Rightarrow> 'z zmqSocket \<Rightarrow> bool"
  for lib prog where
  at_call: "i < length prog \<Longrightarrow> prog ! i = Call op \<Longrightarrow> op \<noteq> OpClose \<Longrightarrow> sock_exec lib op s = (out, s') \<Longrightarrow>
    atomic_step lib prog s (Linearized i out) s'"
| at_close: "i < length prog \<Longrightarrow> prog ! i = Call OpClose \<Longrightarrow> atomic_call lib OpClose s = (out, s') \<Longrightarrow>
    atomic_step lib prog s (Linearized i out) s'"
| at_cancel: "i < length prog \<Longrightarrow> prog ! i = Call OpClose \<Longrightarrow> atomic_step lib prog s (Cancels i) (cancel lib s)"
| at_internal: "atomic_step lib prog s (Internal i) s"

section \<open>Settling the pending additions\<close>

definition settle :: "(metric \<Rightarrow> nat) \<Rightarrow> SocketMetrics \<Rightarrow> SocketMetrics" where
  "settle g m = m\<lparr>MessagesSent := MessagesSent m + of_nat (g MSent),
     MessagesReceived := MessagesReceived m + of_nat (g MReceived),
     BytesSent := BytesSent m + of_nat (g BSent), BytesReceived := BytesReceived m + of_nat (g BReceived)\<rparr>"

definition sum_of :: "additions \<Rightarrow> metric \<Rightarrow> nat" where
  "sum_of todo f = sum_list (map snd (filter (\<lambda>(g, n). g = f) todo))"

definition owed :: "task list \<Rightarrow> 'z arena \<Rightarrow> metric \<Rightarrow> nat" where
  "owed prog c f = (\<Sum>i < length prog. sum_of (owed_by (point_of c i)) f)"

text \<open>The socket once all goroutines inside have made their additions.\<close>

definition settled :: "task list \<Rightarrow> 'z arena \<Rightarrow> 'z zmqSocket" where
  "settled prog c = (shared c)\<lparr>s_metrics := settle (owed prog c) (s_metrics (shared c))\<rparr>"

lemma settle_settle: "settle g (settle h m) = settle (\<lambda>f. g f + h f) m"
  by (simp add: settle_def add_ac)

lemma settle_zero [simp]: "settle (\<lambda>f. 0) m = m"
  by (simp add: settle_def)

lemma sum_of_simps [simp]:
  "sum_of [] f = 0" "sum_of ((g, n) # todo) f = (if g = f then n else 0) + sum_of todo f"
  by (simp_all add: sum_of_def)

lemma settle_one: "set_metric f (get_metric f m + of_nat n) m = settle (\<lambda>g. if f = g then n else 0) m"
  by (cases f) (simp_all add: settle_def)

lemma add_all_settle: "add_all todo m = settle (sum_of todo) m"
proof (induction todo arbitrary: m)
  case Nil
  have "sum_of [] = (\<lambda>f. 0)" by (simp add: fun_eq_iff)
  then show ?case by simp
next
  case (Cons a todo)
  obtain f n where a: "a = (f, n)" by (cases a)
  have "(\<lambda>g. sum_of todo g + (if f = g then n else 0)) = sum_of (a # todo)" by (simp add: a fun_eq_iff)
  moreover have "add_all (a # todo) m = settle (sum_of todo) (settle (\<lambda>g. if f = g then n else 0) m)"
    by (simp add: a settle_one Cons)
  ultimately show ?case by (simp only: settle_settle)
qed

lemma sum_upd: "i < (n :: nat) \<Longrightarrow> (\<Sum>j < n. g ((h(i := x)) j)) + g (h i) = (\<Sum>j < n. g (h j)) + (g x :: nat)"
proof -
  assume "i < n"
  then have "(\<Sum>j < n. g ((h(i := x)) j)) = g x + (\<Sum>j \<in> {..<n} - {i}. g ((h(i := x)) j))"
    and "(\<Sum>j < n. g (h j)) = g (h i) + (\<Sum>j \<in> {..<n} - {i}. g (h j))"
    by (simp_all add: sum.remove [of "{..<n}" i])
  moreover have "(\<Sum>j \<in> {..<n} - {i}. g ((h(i := x)) j)) = (\<Sum>j \<in> {..<n} - {i}. g (h j))"
    by (rule sum.cong) auto
  ultimately show ?thesis by simp
qed

lemma owed_step:
  assumes "i < length prog" "point_of c' = (point_of c)(i := p)"
  shows "owed prog c' f + sum_of (owed_by (point_of c i)) f = owed prog c f + sum_of (owed_by p) f"
  using sum_upd [OF assms(1), of "\<lambda>p. sum_of (owed_by p) f" "point_of c" p] assms(2) by (simp add: owed_def)

text \<open>A step that owes as much as before.\<close>

lemma settled_same:
  assumes "i < length prog" "point_of c' = (point_of c)(i := p)" "owed_by p = owed_by (point_of c i)"
    and "shared c' = shared c"
  shows "settled prog c' = settled prog c"
proof -
  have "owed prog c' = owed prog c" using owed_step [OF assms(1,2)] assms(3) by (simp add: fun_eq_iff)
  with assms(4) show ?thesis by (simp add: settled_def)
qed

lemma settled_body:
  assumes "i < length prog" "point_of c' = (point_of c)(i := Counting todo out)" "owed_by (point_of c i) = []"
    and body: "call_body lib op (shared c) = (out, shared c', todo)"
  shows "atomic_call lib op (settled prog c) = (out, settled prog c')"
proof -
  have "owed prog c' = (\<lambda>f. sum_of todo f + owed prog c f)"
    using owed_step [OF assms(1,2)] assms(3) by (simp add: fun_eq_iff)
  then have "settled prog c' = (shared c')\<lparr>s_metrics := add_all todo (settle (owed prog c) (s_metrics (shared c)))\<rparr>"
    using call_body_keeps_metrics [OF body] by (simp add: settled_def add_all_settle settle_settle)
  then show ?thesis by (simp add: settled_def atomic_call_def call_body_metrics body)
qed

lemma settled_store:
  assumes "i < length prog" "point_of c i = Adding f n (get_metric f (s_metrics (shared c))) todo out"
    and "point_of c' = (point_of c)(i := Counting todo out)"
    and "shared c' = (shared c)\<lparr>s_metrics := set_metric f (get_metric f (s_metrics (shared c)) + of_nat n)
      (s_metrics (shared c))\<rparr>"
  shows "settled prog c' = settled prog c"
proof -
  have "(\<lambda>g. owed prog c' g + (if f = g then n else 0)) = owed prog c"
  proof
    fix g
    show "owed prog c' g + (if f = g then n else 0) = owed prog c g"
      using owed_step [OF assms(1,3), of g] by (simp add: assms(2))
  qed
  then show ?thesis by (simp add: settled_def assms(4) settle_one settle_settle)
qed

lemma cancel_upd: "cancel lib (s\<lparr>s_metrics := m\<rparr>) = (cancel lib s)\<lparr>s_metrics := m\<rparr>"
  by (simp add: cancel_def)

lemma settled_cancel:
  assumes "i < length prog" "point_of c' = (point_of c)(i := AfterCancel)" "owed_by (point_of c i) = []"
    and "shared c' = cancel lib (shared c)"
  shows "settled prog c' = cancel lib (settled prog c)"
proof -
  have "owed prog c' = owed prog c" using owed_step [OF assms(1,2)] assms(3) by (simp add: fun_eq_iff)
  with assms(4) show ?thesis by (simp add: settled_def cancel_upd)
qed

lemma internal_settled:
  assumes "i < length prog" "point_of c' = (point_of c)(i := p)" "owed_by p = owed_by (point_of c i)"
    and "shared c' = shared c"
  shows "atomic_step lib prog (settled prog c) (Internal i) (settled prog c')"
  unfolding settled_same [OF assms] by (rule at_internal)

lemma shared_step_atomic:
  assumes inv: "arena_inv prog c" and step: "shared_step lib prog c e c'"
  shows "atomic_step lib prog (settled prog c) e (settled prog c')"
  using step
proof cases
  case (sh_cancel i)
  then show ?thesis using settled_cancel [of i prog c' c lib] at_cancel [of i prog lib "settled prog c"] by simp
next
  case (sh_body i op out s todo)
  then have "atomic_call lib op (settled prog c) = (out, settled prog c')"
    by (intro settled_body [of i]) simp_all
  then show ?thesis using sh_body(1,3,4) atomic_call_sequential [of op lib "settled prog c"]
    by (cases "op = OpClose") (auto intro: at_call at_close)
next
  case (sh_store i f n v todo out)
  with slotD [OF inv, of i] have "v = get_metric f (s_metrics (shared c))" by (simp add: slot_ok_def Let_def)
  with sh_store have "settled prog c' = settled prog c" by (intro settled_store [of i]) simp_all
  with sh_store(1) show ?thesis by (simp add: at_internal)
next
  case (sh_announce i)
  then show ?thesis using internal_settled [of i prog c' c Announced] by (simp add: entry_point_def)
next
  case (sh_lock i)
  then show ?thesis using internal_settled [of i prog c' c Inside] by (simp add: entry_point_def)
next
  case (sh_rlock i)
  then show ?thesis using internal_settled [of i prog c' c Inside] by (simp add: entry_point_def)
next
  case (sh_load i f n todo out)
  then show ?thesis using internal_settled [of i prog c' c "Adding f n (get_metric f (s_metrics (shared c))) todo out"] by (simp add: entry_point_def)
next
  case (sh_unlock i out)
  then show ?thesis using internal_settled [of i prog c' c "Answered out"] by (simp add: entry_point_def)
next
  case (sh_runlock i out)
  then show ?thesis using internal_settled [of i prog c' c "Answered out"] by (simp add: entry_point_def)
next
  case (sh_copy_start i)
  then show ?thesis using internal_settled [of i prog c' c "Copying [MSent, MReceived, BSent, BReceived] (s_metrics (shared c))"] by (simp add: entry_point_def)
next
  case (sh_copy i f fs m)
  then show ?thesis using internal_settled [of i prog c' c "Copying fs (set_metric f (get_metric f (s_metrics (shared c))) m)"] by (simp add: entry_point_def)
next
  case (sh_copy_end i m)
  then show ?thesis using internal_settled [of i prog c' c "Copied m"] by (simp add: entry_point_def)
qed

definition fresh_arena :: "task list \<Rightarrow> 'z arena \<Rightarrow> bool" where
  "fresh_arena prog c \<longleftrightarrow> one_receiver prog \<and> (\<exists>s. c = open_arena s)"

interpretation atomic: simulation "fresh_arena prog" "shared_step lib prog"
  "\<lambda>c. one_receiver prog \<and> arena_inv prog c" "settled prog" "\<lambda>s. True" "atomic_step lib prog" for prog lib
proof
  show "fresh_arena prog c \<Longrightarrow> one_receiver prog \<and> arena_inv prog c" for c :: "'a arena"
    by (auto simp: fresh_arena_def open_arena_inv)
  show "one_receiver prog \<and> arena_inv prog c \<Longrightarrow> shared_step lib prog c e c' \<Longrightarrow> one_receiver prog \<and> arena_inv prog c'"
    for c c' :: "'a arena" and e using shared_step_inv by blast
  show "one_receiver prog \<and> arena_inv prog c \<Longrightarrow> shared_step lib prog c e c' \<Longrightarrow>
      atomic_step lib prog (settled prog c) e (settled prog c')"
    for c c' :: "'a arena" and e using shared_step_atomic by blast
qed simp

lemma settled_open [simp]: "settled prog (open_arena s) = s"
proof -
  have "owed prog (open_arena s) = (\<lambda>f. 0)" by (simp add: owed_def open_arena_def fun_eq_iff)
  then show ?thesis by (simp add: settled_def) (simp add: open_arena_def)
qed

section \<open>Answers\<close>

fun answer :: "point \<Rightarrow> sock_out option" where
  "answer (Counting todo out) = Some out" | "answer (Adding f n v todo out) = Some out"
| "answer (Answered out) = Some out" | "answer _ = None"

fun linearizes :: "nat \<Rightarrow> arena_event \<Rightarrow> bool" where
  "linearizes i (Linearized j out) \<longleftrightarrow> i = j"
| "linearizes i _ \<longleftrightarrow> False"

text \<open>Each call is linearized once, with the answer it returns.\<close>

lemma linearized_once:
  assumes "run (shared_step lib prog) (open_arena s) es c"
  shows "filter (linearizes i) es = (case answer (point_of c i) of None \<Rightarrow> [] | Some out \<Rightarrow> [Linearized i out])"
  using assms
proof (induction rule: run.induct)
  case run_nil
  show ?case by (simp add: open_arena_def)
next
  case (run_snoc es c e c')
  from run_snoc.hyps(2) show ?case
    by cases (use run_snoc.IH in \<open>auto simp: entry_point_def split: if_splits\<close>)
qed

definition returned_all :: "task list \<Rightarrow> 'z arena \<Rightarrow> bool" where
  "returned_all prog c \<longleftrightarrow> (\<forall>i < length prog. \<not> inside (point_of c i))"

lemma settled_returned: "returned_all prog c \<Longrightarrow> settled prog c = shared c"
proof -
  assume "returned_all prog c"
  then have "owed_by (point_of c i) = []" if "i < length prog" for i
    using that owed_inside by (auto simp: returned_all_def)
  then have "owed prog c = (\<lambda>f. 0)" by (auto simp: owed_def fun_eq_iff)
  then show ?thesis by (simp add: settled_def)
qed

text \<open>
  C7. Concurrent calls on a socket are linearizable as long as at most one goroutine receives: in
  every interleaving of the lock operations, library calls, loads and stores of any number of
  calls, each call that has an answer takes effect at one moment between its start and its
  return, with the answer and the effect that the sequential operation has there, counters
  included; the socket that remains when no call is inside is the one that this sequence of
  operations leaves. \<open>Close\<close> takes effect in two moments, the cancellation of the context
  and the closing. Copies of the metrics may run at any time.
\<close>

theorem calls_linearizable:
  assumes "one_receiver prog" "run (shared_step lib prog) (open_arena s) es c"
  shows "run (atomic_step lib prog) s es (settled prog c) \<and>
    (returned_all prog c \<longrightarrow> settled prog c = shared c) \<and>
    (\<forall>i out. point_of c i = Answered out \<longrightarrow> filter (linearizes i) es = [Linearized i out])"
proof -
  have "fresh_arena prog (open_arena s)" using assms(1) by (auto simp: fresh_arena_def)
  from atomic.initial_run_abs [OF this assms(2)] have "run (atomic_step lib prog) s es (settled prog c)" by simp
  moreover have "filter (linearizes i) es = [Linearized i out]" if "point_of c i = Answered out" for i out
    using linearized_once [OF assms(2), of i] that by simp
  ultimately show ?thesis using settled_returned by blast
qed

definition pair_socket :: "bytes list \<Rightarrow> zmqMsg list zmqSocket" where
  "pair_socket ms = (echo_socket PAIR)\<lparr>s_socket := map (\<lambda>d. \<lparr>Frames = [d]\<rparr>) ms\<rparr>"

lemmas play_simps = next_step_def open_arena_def pair_socket_def echo_socket_def echo_lib_def
  NewSocketMetrics_def cancel_def

lemma play_send_recv:
  "\<exists>es c. play echo_lib [Call (OpSend [1, 2]), Call OpRecv] [0, 0, 0, 0, 0, 0, 0, 0, 1, 1, 1, 1, 1, 1, 1]
     (open_arena (pair_socket [])) = Some (es, c) \<and>
   point_of c 0 = Answered (OutUnit (Ok ())) \<and> point_of c 1 = Answered (OutBytes (Ok [1, 2])) \<and>
   BytesSent (s_metrics (shared c)) = 2 \<and> BytesReceived (s_metrics (shared c)) = 2"
  by (simp add: play_simps)

theorem calls_linearizable_witness:
  "\<exists>es c. one_receiver [Call (OpSend [1, 2]), Call OpRecv] \<and>
     run (atomic_step echo_lib [Call (OpSend [1, 2]), Call OpRecv]) (pair_socket []) es
       (settled [Call (OpSend [1, 2]), Call OpRecv] c) \<and>
     filter (linearizes 1) es = [Linearized 1 (OutBytes (Ok [1, 2]))] \<and> BytesSent (s_metrics (shared c)) = 2"
proof -
  have one: "one_receiver [Call (OpSend [1, 2]), Call OpRecv]" by (simp add: one_receiver_def)
  obtain es c where "play echo_lib [Call (OpSend [1, 2]), Call OpRecv] [0, 0, 0, 0, 0, 0, 0, 0, 1, 1, 1, 1, 1, 1, 1]
      (open_arena (pair_socket [])) = Some (es, c)"
    and c: "point_of c 1 = Answered (OutBytes (Ok [1, 2]))" "BytesSent (s_metrics (shared c)) = 2"
    using play_send_recv by blast
  from calls_linearizable [OF one play_run [OF this(1)]] c one show ?thesis by blast
qed


end
