(* ===== verification/QZMQ_Backend_Selection.thy ===== *)
theory QZMQ_Backend_Selection
  imports QZMQ_Types "HOL-Library.Sublist"
begin

text \<open>
  The backend selection of \<open>src/backend_selection.go\<close>. The process environment is an argument
  of every function: \<open>env name\<close> is \<open>os.Getenv(name)\<close>, the empty string for an unset variable.
  The lemmas relate the detection, the two validation functions, the capability table and the
  choice for an environment to each other.
\<close>

section \<open>Strings\<close>

type_synonym env = "string \<Rightarrow> string"

text \<open>\<open>strings.Contains\<close>, and \<open>strings.ToLower\<close> on ASCII letters. (The letters outside ASCII whose
  lower case is an ASCII letter have \<open>i\<close> or \<open>k\<close>, which occur in none of the names compared.)\<close>

definition Contains :: "string \<Rightarrow> string \<Rightarrow> bool" where
  "Contains s sub = list_ex (prefix sub) (suffixes s)"

definition lower_char :: "char \<Rightarrow> char" where
  "lower_char c = (let n = of_char c :: nat in if 65 \<le> n \<and> n \<le> 90 then char_of (n + 32) else c)"

definition ToLower :: "string \<Rightarrow> string" where
  "ToLower s = map lower_char s"

lemma Contains_iff: "Contains s sub \<longleftrightarrow> (\<exists>xs ys. s = xs @ sub @ ys)"
  unfolding Contains_def list_ex_iff Bex_def in_set_suffixes suffix_def prefix_def by blast

definition newline :: string where "newline = [CHR 0x0A]"

section \<open>Selection\<close>

type_synonym BackendType = string

definition BackendStub :: BackendType where "BackendStub = ''stub''"
definition BackendPebbe :: BackendType where "BackendPebbe = ''pebbe''"
definition BackendLuxZMQ :: BackendType where "BackendLuxZMQ = ''luxzmq''"
definition BackendCZMQ :: BackendType where "BackendCZMQ = ''czmq''"

lemmas backend_names = BackendStub_def BackendPebbe_def BackendLuxZMQ_def BackendCZMQ_def

text \<open>The switch on the explicit choice; an unknown name falls through to the build tags.\<close>

definition explicit_backend :: "string \<Rightarrow> BackendType option" where
  "explicit_backend backend =
     (if backend = '''' then None
      else let name = ToLower backend in
      if name = ''stub'' then Some BackendStub
      else if name = ''pebbe'' then Some BackendPebbe
      else if name = ''luxzmq'' then Some BackendLuxZMQ
      else if name = ''czmq'' then Some BackendCZMQ
      else None)"

definition DetectBackend :: "env \<Rightarrow> BackendType" where
  "DetectBackend env =
     (let buildTags = env ''GO_BUILD_TAGS'' in
      case explicit_backend (env ''QZMQ_BACKEND'') of
        Some backend \<Rightarrow> backend
      | None \<Rightarrow>
        if Contains buildTags ''stub'' then BackendStub
        else if Contains buildTags ''pebbe'' then BackendPebbe
        else if Contains buildTags ''czmq'' then BackendCZMQ
        else if env ''CGO_ENABLED'' = ''0'' then BackendStub
        else BackendLuxZMQ)"

definition IsQuantumEnabled :: "env \<Rightarrow> bool" where
  "IsQuantumEnabled env \<longleftrightarrow> env ''QZMQ_QUANTUM'' \<noteq> ''false''"

definition GetBackendInfo :: "env \<Rightarrow> string" where
  "GetBackendInfo env =
     (let backend = DetectBackend env;
          info = ''QZMQ Backend: '' @ backend @ newline;
          info = info @
            (if backend = BackendStub then
               ''  - No external dependencies'' @ newline @ ''  - In-memory message routing'' @ newline
               @ ''  - Suitable for testing and development'' @ newline
             else if backend = BackendPebbe then
               ''  - Uses pebbe/zmq4 library'' @ newline @ ''  - Requires libzmq and CGO'' @ newline
               @ ''  - Full ZeroMQ compatibility'' @ newline
             else if backend = BackendLuxZMQ then
               ''  - Custom Lux implementation'' @ newline @ ''  - Optimized for Lux network'' @ newline
               @ ''  - Integrated quantum security'' @ newline
             else if backend = BackendCZMQ then
               ''  - Advanced CZMQ binding'' @ newline @ ''  - High-performance features'' @ newline
               @ ''  - Requires CZMQ library'' @ newline
             else '''')
      in info @
        (if IsQuantumEnabled env then
           newline @ ''Quantum Security: ENABLED'' @ newline @ ''  - ML-KEM-768 key exchange'' @ newline
           @ ''  - ML-DSA-87 signatures'' @ newline @ ''  - AES-256-GCM encryption'' @ newline
         else newline @ ''Quantum Security: DISABLED'' @ newline))"

definition ValidateBackend :: "env \<Rightarrow> (error, unit) result" where
  "ValidateBackend env =
     (let backend = DetectBackend env in
      if backend = BackendStub then Ok ()
      else if backend = BackendPebbe
        then (if env ''CGO_ENABLED'' = ''0'' then Err PebbeRequiresCGO else Ok ())
      else if backend = BackendLuxZMQ then Ok ()
      else if backend = BackendCZMQ
        then (if env ''CGO_ENABLED'' = ''0'' then Err CZMQRequiresCGO else Ok ())
      else Err (UnknownBackend backend))"

record BackendCapabilities =
  SupportsQuantum :: bool
  SupportsMulticast :: bool
  SupportsEncryption :: bool
  RequiresCGO :: bool
  RequiresLibrary :: string
  MaxThroughput :: string
  TypicalLatency :: string

text \<open>A Greek mu is two bytes of UTF-8.\<close>

definition GetBackendCapabilities :: "env \<Rightarrow> BackendCapabilities" where
  "GetBackendCapabilities env =
     (let backend = DetectBackend env in
      if backend = BackendStub then
        \<lparr>SupportsQuantum = True, SupportsMulticast = True, SupportsEncryption = True,
         RequiresCGO = False, RequiresLibrary = ''none'', MaxThroughput = ''10K msg/sec'',
         TypicalLatency = ''1ms''\<rparr>
      else if backend = BackendPebbe then
        \<lparr>SupportsQuantum = True, SupportsMulticast = True, SupportsEncryption = True,
         RequiresCGO = True, RequiresLibrary = ''libzmq'', MaxThroughput = ''1M msg/sec'',
         TypicalLatency = ''10'' @ [CHR 0xCE, CHR 0xBC] @ ''s''\<rparr>
      else if backend = BackendLuxZMQ then
        \<lparr>SupportsQuantum = True, SupportsMulticast = True, SupportsEncryption = True,
         RequiresCGO = True, RequiresLibrary = ''luxzmq'', MaxThroughput = ''5M msg/sec'',
         TypicalLatency = ''1'' @ [CHR 0xCE, CHR 0xBC] @ ''s''\<rparr>
      else if backend = BackendCZMQ then
        \<lparr>SupportsQuantum = True, SupportsMulticast = True, SupportsEncryption = True,
         RequiresCGO = True, RequiresLibrary = ''libczmq'', MaxThroughput = ''10M msg/sec'',
         TypicalLatency = ''500ns''\<rparr>
      else
        \<lparr>SupportsQuantum = False, SupportsMulticast = False, SupportsEncryption = False,
         RequiresCGO = False, RequiresLibrary = '''', MaxThroughput = '''', TypicalLatency = ''''\<rparr>)"

definition ValidateBackendType :: "env \<Rightarrow> BackendType \<Rightarrow> (error, unit) result" where
  "ValidateBackendType env backend =
     (if backend = BackendStub then Ok ()
      else if backend = BackendPebbe
        then (if env ''CGO_ENABLED'' = ''0'' then Err (BackendRequiresCGO backend) else Ok ())
      else if backend = BackendLuxZMQ
        then (if env ''CGO_ENABLED'' = ''0'' then Err (BackendRequiresCGO backend) else Ok ())
      else if backend = BackendCZMQ
        then (if env ''CGO_ENABLED'' = ''0'' then Err (BackendRequiresCGO backend) else Ok ())
      else Err (UnknownBackend backend))"

definition SelectBackendForEnvironment :: "env \<Rightarrow> BackendType" where
  "SelectBackendForEnvironment env =
     (let production = env ''QZMQ_ENV'' = ''production'' in
      if production \<and> ValidateBackendType env BackendLuxZMQ = Ok () then BackendLuxZMQ
      else if production \<and> ValidateBackendType env BackendCZMQ = Ok () then BackendCZMQ
      else if production \<and> ValidateBackendType env BackendPebbe = Ok () then BackendPebbe
      else if env ''QZMQ_ENV'' = ''development'' \<or> env ''QZMQ_ENV'' = ''test'' then BackendStub
      else DetectBackend env)"

section \<open>Properties\<close>

definition known_backends :: "BackendType list" where
  "known_backends = [BackendStub, BackendPebbe, BackendLuxZMQ, BackendCZMQ]"

lemma explicit_backend_known: "explicit_backend s = Some b \<Longrightarrow> b \<in> set known_backends"
  by (auto simp: explicit_backend_def known_backends_def Let_def split: if_splits)

lemma DetectBackend_known: "DetectBackend env \<in> set known_backends"
  using explicit_backend_known
  by (auto simp: DetectBackend_def Let_def known_backends_def split: option.split)

lemma explicit_lux: "explicit_backend s = Some BackendLuxZMQ \<longleftrightarrow> ToLower s = ''luxzmq''"
  by (auto simp: explicit_backend_def backend_names Let_def ToLower_def)

text \<open>
  C35. The detected backend is always one of the four known ones, so no validation reports an
  unknown backend; and the two validations of it give different verdicts exactly when CGO is
  disabled and the backend \<open>luxzmq\<close> was asked for explicitly (in any letter case):
  \<open>ValidateBackend\<close> accepts it, \<open>ValidateBackendType\<close> does not.
\<close>

theorem backend_validators_disagree:
  "DetectBackend env \<in> set known_backends \<and>
   (\<forall>b. ValidateBackend env \<noteq> Err (UnknownBackend b)) \<and>
   ((ValidateBackend env = Ok ()) \<noteq> (ValidateBackendType env (DetectBackend env) = Ok ()) \<longleftrightarrow>
      ToLower (env ''QZMQ_BACKEND'') = ''luxzmq'' \<and> env ''CGO_ENABLED'' = ''0'')"
proof -
  have known: "DetectBackend env \<in> set known_backends" by (rule DetectBackend_known)
  have lux: "DetectBackend env = BackendLuxZMQ \<and> env ''CGO_ENABLED'' = ''0'' \<longleftrightarrow>
      ToLower (env ''QZMQ_BACKEND'') = ''luxzmq'' \<and> env ''CGO_ENABLED'' = ''0''"
    unfolding explicit_lux [symmetric]
    by (auto simp: DetectBackend_def Let_def backend_names split: option.splits if_splits)
  have "(ValidateBackend env = Ok ()) \<noteq> (ValidateBackendType env (DetectBackend env) = Ok ()) \<longleftrightarrow>
      DetectBackend env = BackendLuxZMQ \<and> env ''CGO_ENABLED'' = ''0''"
    using known by (auto simp: known_backends_def ValidateBackend_def ValidateBackendType_def
        backend_names Let_def)
  moreover have "ValidateBackend env \<noteq> Err (UnknownBackend b)" for b
    using known by (auto simp: known_backends_def ValidateBackend_def Let_def)
  ultimately show ?thesis using known lux by blast
qed

text \<open>The capability table agrees with \<open>ValidateBackendType\<close>: the detected backend is rejected
  exactly when the table says that it requires CGO and CGO is disabled.\<close>

lemma capabilities_match_validation:
  "ValidateBackendType env (DetectBackend env) = Ok () \<longleftrightarrow>
     \<not> (RequiresCGO (GetBackendCapabilities env) \<and> env ''CGO_ENABLED'' = ''0'')"
  using DetectBackend_known [of env]
  by (auto simp: known_backends_def GetBackendCapabilities_def ValidateBackendType_def backend_names Let_def)

text \<open>The choice for an environment: in production with CGO it is \<open>luxzmq\<close>, in development and
  test the stub, otherwise the detected backend; with no explicit choice it is usable.\<close>

lemma environment_selection:
  "SelectBackendForEnvironment env =
     (if env ''QZMQ_ENV'' = ''production'' \<and> env ''CGO_ENABLED'' \<noteq> ''0'' then BackendLuxZMQ
      else if env ''QZMQ_ENV'' \<in> {''development'', ''test''} then BackendStub
      else DetectBackend env) \<and>
   (explicit_backend (env ''QZMQ_BACKEND'') = None \<and>
    (\<forall>b \<in> set known_backends. \<not> Contains (env ''GO_BUILD_TAGS'') b) \<longrightarrow>
    ValidateBackendType env (SelectBackendForEnvironment env) = Ok ())"
proof -
  have sel: "SelectBackendForEnvironment env =
     (if env ''QZMQ_ENV'' = ''production'' \<and> env ''CGO_ENABLED'' \<noteq> ''0'' then BackendLuxZMQ
      else if env ''QZMQ_ENV'' \<in> {''development'', ''test''} then BackendStub
      else DetectBackend env)"
    by (auto simp: SelectBackendForEnvironment_def ValidateBackendType_def backend_names Let_def)
  have "DetectBackend env = (if env ''CGO_ENABLED'' = ''0'' then BackendStub else BackendLuxZMQ)"
    if "explicit_backend (env ''QZMQ_BACKEND'') = None"
      "\<forall>b \<in> set known_backends. \<not> Contains (env ''GO_BUILD_TAGS'') b"
    using that by (simp add: DetectBackend_def known_backends_def backend_names)
  then have "ValidateBackendType env (SelectBackendForEnvironment env) = Ok ()"
    if "explicit_backend (env ''QZMQ_BACKEND'') = None"
      "\<forall>b \<in> set known_backends. \<not> Contains (env ''GO_BUILD_TAGS'') b"
    using that sel by (simp add: ValidateBackendType_def backend_names)
  with sel show ?thesis by blast
qed

end
