(* ===== verification/QZMQ_Logging.thy ===== *)
theory QZMQ_Logging
  imports QZMQ_Types
begin

text \<open>
  The logging helpers of \<open>src/logging_simple.go\<close>: the text that each level writes, and the
  formatter of key-value pairs with its index loop. \<open>%v\<close> is modelled for the values that the
  package logs; how a value of any other type prints is the argument \<open>other\<close>. The lemma shows
  that the index loop computes the plain list of pairs.
\<close>

section \<open>Printing\<close>

definition sprintf_int :: "int \<Rightarrow> string" where
  "sprintf_int i = (if i < 0 then ''-'' @ sprintf_d (nat (- i)) else sprintf_d (nat i))"

fun HashAlgorithm_code :: "HashAlgorithm \<Rightarrow> nat" where
  "HashAlgorithm_code SHA256 = 0"
| "HashAlgorithm_code SHA384 = 1"
| "HashAlgorithm_code SHA512 = 2"
| "HashAlgorithm_code BLAKE3 = 3"
| "HashAlgorithm_code (HashOther n) = 4 + n"

text \<open>\<open>%v\<close> uses a \<open>String\<close> method where the type has one, prints other integer types as numbers and
  a struct as its fields in braces.\<close>

fun sprintf_v :: "(nat \<Rightarrow> string) \<Rightarrow> gvalue \<Rightarrow> string" where
  "sprintf_v other (VInt i) = sprintf_int i"
| "sprintf_v other (VString s) = s"
| "sprintf_v other (VBool b) = (if b then ''true'' else ''false'')"
| "sprintf_v other (VBackend b) = sprintf_d (Backend_code b)"
| "sprintf_v other (VSocketType t) = SocketType_String t"
| "sprintf_v other (VSuite s) = ''{'' @ KemAlgorithm_String (KEM s) @ '' ''
     @ SignatureAlgorithm_String (Sign s) @ '' '' @ AeadAlgorithm_String (AEAD s) @ '' ''
     @ sprintf_d (HashAlgorithm_code (Hash s)) @ ''}''"
| "sprintf_v other (VOther n) = other n"

fun join :: "string \<Rightarrow> string list \<Rightarrow> string" where
  "join sep [] = ''''"
| "join sep [x] = x"
| "join sep (x # y # xs) = x @ sep @ join sep (y # xs)"

section \<open>Log lines\<close>

definition log_line :: "(nat \<Rightarrow> string) \<Rightarrow> string \<Rightarrow> string \<Rightarrow> gvalue list \<Rightarrow> string" where
  "log_line other level msg args =
     (if length args > 0
      then level @ '' '' @ msg @ '' '' @ ''['' @ join '' '' (map (sprintf_v other) args) @ '']''
      else level @ '' '' @ msg)"

definition logDebug :: "(nat \<Rightarrow> string) \<Rightarrow> string \<Rightarrow> gvalue list \<Rightarrow> string" where
  "logDebug other = log_line other ''[DEBUG]''"

definition logInfo :: "(nat \<Rightarrow> string) \<Rightarrow> string \<Rightarrow> gvalue list \<Rightarrow> string" where
  "logInfo other = log_line other ''[INFO]''"

definition logWarn :: "(nat \<Rightarrow> string) \<Rightarrow> string \<Rightarrow> gvalue list \<Rightarrow> string" where
  "logWarn other = log_line other ''[WARN]''"

definition logError :: "(nat \<Rightarrow> string) \<Rightarrow> string \<Rightarrow> gvalue list \<Rightarrow> string" where
  "logError other = log_line other ''[ERROR]''"

text \<open>\<open>log.Fatalf\<close> ends the process after writing its line.\<close>

definition logFatal :: "(nat \<Rightarrow> string) \<Rightarrow> string \<Rightarrow> gvalue list \<Rightarrow> string \<times> bool" where
  "logFatal other msg args = (log_line other ''[FATAL]'' msg args, True)"

section \<open>Key-value pairs\<close>

text \<open>The loop \<open>for i := 0; i < len(args)-1; i += 2\<close>. Both indices are in range in its body.\<close>

function formatFields_loop :: "(nat \<Rightarrow> string) \<Rightarrow> gvalue list \<Rightarrow> nat \<Rightarrow> string \<Rightarrow> string" where
  "formatFields_loop other args i result =
     (if i + 1 < length args
      then
        let result = (if i > 0 then result @ '', '' else result);
            result = result @ sprintf_v other (args ! i) @ ''='' @ sprintf_v other (args ! (i + 1))
        in formatFields_loop other args (i + 2) result
      else result)"
  by pat_completeness auto
termination
  by (relation "measure (\<lambda>(other, args, i, result). length args - i)") auto

declare formatFields_loop.simps [simp del]

definition formatFields :: "(nat \<Rightarrow> string) \<Rightarrow> gvalue list \<Rightarrow> string" where
  "formatFields other args = (if length args = 0 then '''' else formatFields_loop other args 0 '''')"

fun field_pairs :: "(nat \<Rightarrow> string) \<Rightarrow> gvalue list \<Rightarrow> string list" where
  "field_pairs other (k # v # rest) =
     (sprintf_v other k @ ''='' @ sprintf_v other v) # field_pairs other rest"
| "field_pairs other _ = []"

lemma join_snoc: "xs \<noteq> [] \<Longrightarrow> join sep (xs @ [y]) = join sep xs @ sep @ y"
proof (induction sep xs rule: join.induct)
  case (3 sep x y xs)
  then show ?case by simp
qed simp_all

lemma field_pairs_snoc:
  "even (length xs) \<Longrightarrow>
   field_pairs other (xs @ [k, v]) = field_pairs other xs @ [sprintf_v other k @ ''='' @ sprintf_v other v]"
  by (induction other xs rule: field_pairs.induct) auto

lemma field_pairs_Nil_iff: "field_pairs other xs = [] \<longleftrightarrow> length xs < 2"
  by (cases "(other, xs)" rule: field_pairs.cases) auto

lemma field_pairs_odd: "even (length xs) \<Longrightarrow> field_pairs other (xs @ [y]) = field_pairs other xs"
  by (induction other xs rule: field_pairs.induct) auto

lemma field_pairs_step:
  assumes "even i" "i + 1 < length args"
  shows "join '', '' (field_pairs other (take (i + 2) args)) =
    (if i > 0 then join '', '' (field_pairs other (take i args)) @ '', ''
     else join '', '' (field_pairs other (take i args)))
    @ sprintf_v other (args ! i) @ ''='' @ sprintf_v other (args ! (i + 1))"
proof -
  have "take (i + 2) args = take i args @ [args ! i, args ! (i + 1)]"
    using assms(2) by (simp add: take_Suc_conv_app_nth)
  moreover have "i > 0 \<longleftrightarrow> field_pairs other (take i args) \<noteq> []"
    using assms by (auto simp: field_pairs_Nil_iff elim: evenE)
  ultimately show ?thesis using assms by (auto simp: field_pairs_snoc join_snoc)
qed

lemma formatFields_loop_eq:
  "even i \<Longrightarrow> i \<le> length args \<Longrightarrow> result = join '', '' (field_pairs other (take i args)) \<Longrightarrow>
   formatFields_loop other args i result = join '', '' (field_pairs other args)"
proof (induction other args i result rule: formatFields_loop.induct)
  case (1 other args i result)
  show ?case
  proof (cases "i + 1 < length args")
    case True
    let ?result = "(if i > 0 then result @ '', '' else result)
      @ sprintf_v other (args ! i) @ ''='' @ sprintf_v other (args ! (i + 1))"
    have "formatFields_loop other args i result = formatFields_loop other args (i + 2) ?result"
      using True by (subst formatFields_loop.simps) (simp only: if_True Let_def)
    also have "\<dots> = join '', '' (field_pairs other args)"
    proof (rule "1.IH" [OF True refl refl])
      show "even (i + 2)" "i + 2 \<le> length args" using "1.prems"(1) True by simp_all
      show "?result = join '', '' (field_pairs other (take (i + 2) args))"
        unfolding field_pairs_step [OF "1.prems"(1) True] "1.prems"(3) ..
    qed
    finally show ?thesis .
  next
    case False
    then have "args = take i args \<or> (\<exists>y. args = take i args @ [y])"
      using "1.prems"(2) take_Suc_conv_app_nth [of i args] by (cases "i = length args") auto
    then have "field_pairs other (take i args) = field_pairs other args"
      using "1.prems"(1,2) field_pairs_odd [of "take i args" other] by (metis length_take min.absorb2)
    with False "1.prems"(3) show ?thesis by (simp add: formatFields_loop.simps [of other args i])
  qed
qed

text \<open>
  C40. Formatting terminates for every argument list, stays within its bounds, and prints the
  key-value pairs in order, separated by commas; the last element of a list of odd length
  is dropped.
\<close>

theorem formatFields_pairs:
  "formatFields other args = join '', '' (field_pairs other args) \<and>
   (even (length args) \<longrightarrow> formatFields other (args @ [v]) = formatFields other args)"
  using formatFields_loop_eq [of 0 args "''''" other] formatFields_loop_eq [of 0 "args @ [v]" "''''" other]
  by (auto simp: formatFields_def field_pairs_odd)

theorem formatFields_pairs_witness:
  "formatFields (\<lambda>n. ''?'') [VString ''port'', VInt 7, VString ''on''] = ''port=7''"
proof -
  have "field_pairs (\<lambda>n. ''?'') [VString ''port'', VInt 7] = [''port=7'']"
    by code_simp
  then show ?thesis
    using formatFields_pairs [of "\<lambda>n. ''?''" "[VString ''port'', VInt 7]" "VString ''on''"] by simp
qed

end
