(* ===== verification/QZMQ_XChain.thy ===== *)
theory QZMQ_XChain
  imports QZMQ_Transport QZMQ_Logging
begin

text \<open>
  The X-Chain transport of \<open>src/xchain.go\<close>: a DEALER socket on a conservative transport, with
  orders and blocks as tagged messages. The JSON codec of orders is the record \<open>json_codec\<close>;
  what a theorem needs of it is that decoding an encoded order gives the order back. The
  socket lives in the heap of its transport. The lemmas treat the message formats, closing
  and the connection to peers.
\<close>

section \<open>Data\<close>

datatype OrderSide = Buy | Sell | OrderSideOther nat

datatype OrderType = Limit | MarketOrder | Stop | StopLimit | OrderTypeOther nat

record Order =
  order_ID :: string
  order_Market :: string
  order_Side :: OrderSide
  order_Type :: OrderType
  order_Price :: "64 word"
  order_Quantity :: "64 word"
  order_UserAddr :: string
  order_AssetID :: string
  order_Signature :: bytes
  order_Certificate :: bytes

record ValidatorKeys =
  NodeID :: bytes
  BLSKey :: bytes
  PQKey :: bytes
  DSAKey :: bytes

text \<open>\<open>json.Marshal\<close> of an order pointer and \<open>json.Unmarshal\<close> into a fresh order.\<close>

record json_codec =
  json_Marshal :: "Order option \<Rightarrow> (error, bytes) result"
  json_Unmarshal :: "bytes \<Rightarrow> (error, Order) result"

record XChainDEXTransport =
  x_transport :: transport
  x_socket :: nat \<comment> \<open>address of the socket\<close>
  x_endpoint :: string
  x_chainID :: string
  x_nodeID :: string
  x_validatorKeys :: "ValidatorKeys option"
  x_opts :: Options
  x_peers :: "string list"

section \<open>Operations\<close>

definition NewXChainDEXTransport :: "'z zmq_lib \<Rightarrow> 'z heap \<Rightarrow> nat \<Rightarrow> string \<Rightarrow> string \<Rightarrow> string
    \<Rightarrow> ValidatorKeys option \<Rightarrow> (error, XChainDEXTransport) result \<times> 'z heap" where
  "NewXChainDEXTransport lib h addr endpoint chainID nodeID keys =
     (let opts = ConservativeOptions in
      case New opts of
        Err e \<Rightarrow> (Err (CreateTransportFailed e), h)
      | Panic q \<Rightarrow> (Panic q, h)
      | Ok transport \<Rightarrow>
        (case NewSocket lib transport h DEALER addr of
           (Err e, transport, h) \<Rightarrow> (Err (CreateDealerFailed e), h)
         | (Panic q, transport, h) \<Rightarrow> (Panic q, h)
         | (Ok socket, transport, h) \<Rightarrow>
             (Ok \<lparr>x_transport = transport, x_socket = socket, x_endpoint = endpoint,
                  x_chainID = chainID, x_nodeID = nodeID, x_validatorKeys = keys, x_opts = opts,
                  x_peers = []\<rparr>, h)))"

text \<open>A call of a method of the socket at an address.\<close>

definition on_socket :: "'z heap \<Rightarrow> nat \<Rightarrow> ('z zmqSocket \<Rightarrow> (error, 'a) result \<times> 'z zmqSocket)
    \<Rightarrow> (error, 'a) result \<times> 'z heap" where
  "on_socket h addr m = (case h addr of
     None \<Rightarrow> (Panic NilDereference, h)
   | Some s \<Rightarrow> (case m s of (r, s) \<Rightarrow> (r, h(addr \<mapsto> s))))"

definition XChain_Listen :: "'z zmq_lib \<Rightarrow> XChainDEXTransport \<Rightarrow> 'z heap \<Rightarrow> int \<Rightarrow> int \<Rightarrow> int
    \<Rightarrow> (error, unit) result \<times> 'z heap" where
  "XChain_Listen lib x h port1 port2 port3 =
     (let endpoint = ''tcp://*:'' @ sprintf_int port1
      in on_socket h (x_socket x) (\<lambda>s. Bind lib s endpoint))"

definition StartDEX :: "XChainDEXTransport \<Rightarrow> int \<Rightarrow> int \<Rightarrow> int \<Rightarrow> int \<Rightarrow> (error, unit) result" where
  "StartDEX x orderPort tradePort marketPort settlePort = Ok ()"

text \<open>The loop over the peers: an error of one is logged, a panic ends it.\<close>

fun connectLoop :: "'z zmq_lib \<Rightarrow> 'z heap \<Rightarrow> nat \<Rightarrow> string list \<Rightarrow> (error, unit) result \<times> 'z heap" where
  "connectLoop lib h addr [] = (Ok (), h)"
| "connectLoop lib h addr (peer # peers) =
     (case on_socket h addr (\<lambda>s. Connect lib s (''tcp://'' @ peer)) of
        (Panic q, h) \<Rightarrow> (Panic q, h)
      | (_, h) \<Rightarrow> connectLoop lib h addr peers)"

definition ConnectToPeers :: "'z zmq_lib \<Rightarrow> XChainDEXTransport \<Rightarrow> 'z heap \<Rightarrow> string list
    \<Rightarrow> (error, unit) result \<times> XChainDEXTransport \<times> 'z heap" where
  "ConnectToPeers lib x h peers =
     (let x = x\<lparr>x_peers := peers\<rparr>;
          (r, h) = connectLoop lib h (x_socket x) peers
      in (r, x, h))"

definition XChain_Connect :: "'z zmq_lib \<Rightarrow> XChainDEXTransport \<Rightarrow> 'z heap \<Rightarrow> (error, unit) result \<times> 'z heap"
  where "XChain_Connect lib x h = on_socket h (x_socket x) (\<lambda>s. Connect lib s (x_endpoint x))"

definition XChain_Close :: "'z zmq_lib \<Rightarrow> XChainDEXTransport \<Rightarrow> 'z heap \<Rightarrow> (error, unit) result \<times> 'z heap"
  where "XChain_Close lib x h = on_socket h (x_socket x) (Close lib)"

definition SubmitOrder :: "'z zmq_lib \<Rightarrow> json_codec \<Rightarrow> XChainDEXTransport \<Rightarrow> 'z heap \<Rightarrow> Order option
    \<Rightarrow> (error, unit) result \<times> 'z heap" where
  "SubmitOrder lib js x h order = (case json_Marshal js order of
     Err e \<Rightarrow> (Err (MarshalOrderFailed e), h)
   | Panic q \<Rightarrow> (Panic q, h)
   | Ok data \<Rightarrow>
       let msg = bytes_of_string ''ORDER:'' @ data
       in on_socket h (x_socket x) (\<lambda>s. Send lib s msg))"

definition block_payload :: "string \<Rightarrow> 64 word \<Rightarrow> bytes \<Rightarrow> bytes" where
  "block_payload chainID height data =
     bytes_of_string (''BLOCK:'' @ chainID @ '':'' @ sprintf_d (unat height) @ '':'') @ data"

definition ProposeBlock :: "'z zmq_lib \<Rightarrow> XChainDEXTransport \<Rightarrow> 'z heap \<Rightarrow> string \<Rightarrow> 64 word \<Rightarrow> bytes
    \<Rightarrow> (error, unit) result \<times> 'z heap" where
  "ProposeBlock lib x h chainID height data =
     on_socket h (x_socket x) (\<lambda>s. Send lib s (block_payload chainID height data))"

definition ReceiveOrder :: "'z zmq_lib \<Rightarrow> json_codec \<Rightarrow> XChainDEXTransport \<Rightarrow> 'z heap
    \<Rightarrow> (error, Order) result \<times> 'z heap" where
  "ReceiveOrder lib js x h = (case on_socket h (x_socket x) (Recv lib) of
     (Err e, h) \<Rightarrow> (Err e, h)
   | (Panic q, h) \<Rightarrow> (Panic q, h)
   | (Ok data, h) \<Rightarrow>
       if length data < 6 \<or> string_of_bytes (take 6 data) \<noteq> ''ORDER:'' then (Err InvalidOrderMessage, h)
       else (case json_Unmarshal js (drop 6 data) of
           Err e \<Rightarrow> (Err (UnmarshalOrderFailed e), h)
         | Panic q \<Rightarrow> (Panic q, h)
         | Ok order \<Rightarrow> (Ok order, h)))"

section \<open>Messages\<close>

lemma block_not_order: "take 6 (block_payload chainID height data) \<noteq> bytes_of_string ''ORDER:''"
  by (simp add: block_payload_def bytes_of_string_def)

lemma string_tag:
  assumes "length tag = n"
  shows "length data < n \<or> string_of_bytes (take n data) \<noteq> tag \<longleftrightarrow> take n data \<noteq> bytes_of_string tag"
proof -
  have "string_of_bytes (take n data) = tag \<longleftrightarrow> take n data = bytes_of_string tag"
    by (metis bytes_of_string_of_bytes string_of_bytes_of_string)
  moreover have "take n data = bytes_of_string tag \<Longrightarrow> \<not> length data < n"
    using assms by (auto dest: arg_cong [where f = length])
  ultimately show ?thesis by blast
qed

lemma Recv_frame:
  assumes "\<not> s_closed s" "zmq_Recv lib (s_socket s) = (Ok msg, z)" "Frames msg = data # rest"
  shows "\<exists>s'. Recv lib s = (Ok data, s')"
  using assms by (simp add: Recv_def Let_def)

lemma ReceiveOrder_frame:
  assumes "h (x_socket x) = Some s" "\<not> s_closed s" "zmq_Recv lib (s_socket s) = (Ok msg, z)"
    "Frames msg = data # rest"
  shows "fst (ReceiveOrder lib js x h) =
    (if take 6 data \<noteq> bytes_of_string ''ORDER:'' then Err InvalidOrderMessage
     else case json_Unmarshal js (drop 6 data) of
       Err e \<Rightarrow> Err (UnmarshalOrderFailed e) | Panic q \<Rightarrow> Panic q | Ok order \<Rightarrow> Ok order)"
proof -
  obtain s' where recv: "Recv lib s = (Ok data, s')" using Recv_frame [OF assms(2-4)] ..
  have tag: "length data < 6 \<or> string_of_bytes (take 6 data) \<noteq> ''ORDER:'' \<longleftrightarrow>
      take 6 data \<noteq> bytes_of_string ''ORDER:''"
    by (rule string_tag) simp
  show ?thesis
    using recv assms(1) by (simp add: ReceiveOrder_def on_socket_def tag split: result.split)
qed

text \<open>
  C27. What one X-Chain node sends, another one classifies correctly: a message sent by
  \<open>SubmitOrder\<close> is received as the same order (given that the JSON decoding of the encoded order
  gives it back), and a message sent by \<open>ProposeBlock\<close>, for every chain, height and content, is
  refused as an order. The receiver is any open node to which the library delivers the
  bytes that the sender's socket passed to it.
\<close>

theorem order_block_separation:
  assumes "json_Marshal js (Some order) = Ok d" "json_Unmarshal js d = Ok order"
    and "h (x_socket x) = Some s" "\<not> s_closed s" "zmq_Recv lib (s_socket s) = (Ok msg, z)"
  shows "SubmitOrder lib js y h' (Some order)
      = on_socket h' (x_socket y) (\<lambda>s. Send lib s (bytes_of_string ''ORDER:'' @ d)) \<and>
    (Frames msg = [bytes_of_string ''ORDER:'' @ d] \<longrightarrow> fst (ReceiveOrder lib js x h) = Ok order) \<and>
    (Frames msg = [block_payload chainID height data] \<longrightarrow>
       fst (ReceiveOrder lib js x h) = Err InvalidOrderMessage)"
  using assms ReceiveOrder_frame [where h = h and x = x, OF assms(3) assms(4) assms(5)] block_not_order
  by (simp add: SubmitOrder_def)

definition sample_order :: Order where
  "sample_order = \<lparr>order_ID = ''1'', order_Market = ''LUX'', order_Side = Sell, order_Type = Limit,
     order_Price = 7, order_Quantity = 2, order_UserAddr = ''a'', order_AssetID = ''b'',
     order_Signature = [], order_Certificate = []\<rparr>"

definition sample_json :: json_codec where
  "sample_json = \<lparr>json_Marshal = (\<lambda>order. Ok [1, 2]),
     json_Unmarshal = (\<lambda>bs. if bs = [1, 2] then Ok sample_order else Err (LibError ''json''))\<rparr>"

definition sample_node :: XChainDEXTransport where
  "sample_node = \<lparr>x_transport = \<lparr>t_opts = ConservativeOptions, t_backend = BackendGo,
       t_sockets = Some [(sprintf_p 5, 5)], t_stats = zeroStats, t_options = None, t_closed = False\<rparr>,
     x_socket = 5, x_endpoint = ''tcp://h:1'', x_chainID = ''X'', x_nodeID = ''n'',
     x_validatorKeys = None, x_opts = ConservativeOptions, x_peers = []\<rparr>"

theorem order_block_separation_witness:
  "fst (ReceiveOrder echo_lib sample_json sample_node
     [5 \<mapsto> (echo_socket DEALER)\<lparr>s_socket := [\<lparr>Frames = [bytes_of_string ''ORDER:'' @ [1, 2]]\<rparr>]\<rparr>])
   = Ok sample_order"
  using order_block_separation [of sample_json sample_order "[1, 2]"
    "[5 \<mapsto> (echo_socket DEALER)\<lparr>s_socket := [\<lparr>Frames = [bytes_of_string ''ORDER:'' @ [1, 2]]\<rparr>]\<rparr>]"
    sample_node "(echo_socket DEALER)\<lparr>s_socket := [\<lparr>Frames = [bytes_of_string ''ORDER:'' @ [1, 2]]\<rparr>]\<rparr>"
    echo_lib "\<lparr>Frames = [bytes_of_string ''ORDER:'' @ [1, 2]]\<rparr>" "[]"]
  by (simp add: sample_json_def sample_node_def echo_socket_def echo_lib_def)

text \<open>Digits are no colons.\<close>

lemma digit_char_no_colon:
  assumes "d < 16"
  shows "digit_char d \<noteq> CHR '':''"
proof
  assume "digit_char d = CHR '':''"
  then have "of_char (digit_char d) = (58 :: nat)" by simp
  with assms show False by (auto simp: digit_char_def split: if_splits)
qed

lemma digits_no_colon: "1 < b \<Longrightarrow> b \<le> 16 \<Longrightarrow> CHR '':'' \<notin> set (digits_in b n)"
proof (induction b n rule: digits_in.induct)
  case (1 b n)
  have "n mod b < 16" using "1.prems" mod_less_divisor [of b n] by linarith
  then have "digit_char (n mod b) \<noteq> CHR '':''" by (rule digit_char_no_colon)
  moreover have "n < b \<Longrightarrow> digit_char n \<noteq> CHR '':''"
    using "1.prems" by (intro digit_char_no_colon) simp
  ultimately show ?case using 1 by (subst digits_in.simps) auto
qed

lemma split_at_separator:
  "c \<notin> set xs \<Longrightarrow> c \<notin> set ys \<Longrightarrow> xs @ c # rest = ys @ c # rest' \<Longrightarrow> xs = ys \<and> rest = rest'"
proof (induction xs arbitrary: ys)
  case Nil
  then show ?case by (cases ys) auto
next
  case (Cons x xs)
  then show ?case by (cases ys) auto
qed

text \<open>
  C33. The header of a block message can be read back when chain names have no colon: the
  bytes then determine the chain, the height and the content. A name with a colon makes
  it ambiguous, two different proposals being sent as the same bytes.
\<close>

theorem block_payload_determines:
  "(CHR '':'' \<notin> set chainID \<and> CHR '':'' \<notin> set chainID' \<longrightarrow>
     (block_payload chainID height data = block_payload chainID' height' data' \<longleftrightarrow>
        chainID = chainID' \<and> height = height' \<and> data = data')) \<and>
   block_payload (chainID @ '':1'') 2 data = block_payload chainID 1 (bytes_of_string ''2:'' @ data)"
proof -
  have "chainID = chainID' \<and> height = height' \<and> data = data'"
    if nc: "CHR '':'' \<notin> set chainID" "CHR '':'' \<notin> set chainID'"
      and eq: "block_payload chainID height data = block_payload chainID' height' data'"
  proof -
    let ?num = "\<lambda>h. sprintf_d (unat h)"
    have "string_of_bytes (block_payload c h d) = ''BLOCK:'' @ c @ CHR '':'' # ?num h @ CHR '':'' # string_of_bytes d"
      for c h d
      by (simp add: block_payload_def string_of_bytes_append)
    with eq have "chainID @ CHR '':'' # ?num height @ CHR '':'' # string_of_bytes data
        = chainID' @ CHR '':'' # ?num height' @ CHR '':'' # string_of_bytes data'"
      by (metis append_same_eq same_append_eq)
    from split_at_separator [OF nc this] have c: "chainID = chainID'"
      and rest: "?num height @ CHR '':'' # string_of_bytes data
        = ?num height' @ CHR '':'' # string_of_bytes data'" by auto
    have "CHR '':'' \<notin> set (?num h)" for h :: "64 word"
      by (simp add: sprintf_d_def digits_no_colon)
    from split_at_separator [OF this this rest] show ?thesis
      using c by (metis sprintf_d_inject unsigned_word_eqI bytes_of_string_of_bytes)
  qed
  moreover
  have "sprintf_d 1 = ''1''" "sprintf_d 2 = ''2''" by code_simp+
  then have "block_payload (chainID @ '':1'') 2 data
      = block_payload chainID 1 (bytes_of_string ''2:'' @ data)"
    by (simp add: block_payload_def bytes_of_string_def)
  ultimately show ?thesis by blast
qed

theorem block_payload_determines_witness:
  "block_payload ''X'' 1 [7] \<noteq> block_payload ''P'' 1 [7] \<and>
   block_payload ''X:1'' 2 [7] = block_payload ''X'' 1 (bytes_of_string ''2:'' @ [7])"
  using block_payload_determines [of "''X''" "''P''" 1 "[7]" 1 "[7]"] by simp

section \<open>Life of a node\<close>

lemma Connect_returns:
  "\<forall>z ep. \<not> is_panic (fst (zmq_Dial lib z ep)) \<Longrightarrow> fst (Connect lib s ep) \<noteq> Panic q"
  by (auto simp: Connect_def via_lib_def) (metis is_panic.simps(1))

lemma connectLoop_ok:
  assumes "\<forall>z ep. \<not> is_panic (fst (zmq_Dial lib z ep))"
  shows "h addr = Some s \<Longrightarrow> fst (connectLoop lib h addr peers) = Ok ()"
proof (induction peers arbitrary: h s)
  case (Cons peer peers)
  obtain r s' where c: "Connect lib s (''tcp://'' @ peer) = (r, s')"
    by (cases "Connect lib s (''tcp://'' @ peer)")
  with Connect_returns [OF assms, of s "''tcp://'' @ peer"] have "r \<noteq> Panic q" for q by simp
  with Cons.prems c have "connectLoop lib h addr (peer # peers) = connectLoop lib (h(addr \<mapsto> s')) addr peers"
    by (cases r) (auto simp: on_socket_def)
  with Cons.IH [of "h(addr \<mapsto> s')" s'] show ?case by (metis fun_upd_same)
qed simp

lemma NewXChain_ok:
  assumes "zmq_New lib DEALER = Some z"
  shows "\<exists>x s. NewXChainDEXTransport lib h addr endpoint chainID nodeID keys = (Ok x, h(addr \<mapsto> s)) \<and>
    x_socket x = addr \<and> s_opts s = ConservativeOptions \<and> \<not> t_closed (x_transport x)"
proof -
  have "New ConservativeOptions = Ok \<lparr>t_opts = ConservativeOptions, t_backend = BackendGo,
      t_sockets = Some [], t_stats = zeroStats, t_options = None, t_closed = False\<rparr>"
    unfolding New_Ok_iff
    by (simp add: pq_policy_def ConservativeOptions_def DefaultOptions_def fillKeyRotation_def)
  then show ?thesis
    using assms by (force simp: NewXChainDEXTransport_def NewSocket_def newGoSocket_def)
qed

lemma shut_calls:
  assumes "sock_shut s"
  shows "Send lib s d = (Err ErrNotConnected, s)" "Recv lib s = (Err ErrNotConnected, s)"
  using assms by (simp_all add: Send_def Recv_def sock_shut_def)



end
