(* ===== verification/QZMQ_Example.thy ===== *)
theory QZMQ_Example
  imports QZMQ_Registry
begin

text \<open>
  The program of \<open>src/examples/basic/main.go\<close>, a server and a client over one transport. Each
  of the two functions is a sequence of calls on its own socket; what it prints and logs is the
  list of its outputs. \<open>log.Fatal\<close> ends the process without running the deferred \<open>Close\<close>; a panic
  runs it. The lemmas relate the reports printed at the end to what
  happened: the socket metrics are right, the transport statistics never are.
\<close>

section \<open>The program\<close>

text \<open>One print (without its final newline), or one log line about an error.\<close>

datatype printed = Printed string | Logged string error

datatype ending = Finished | Fatal error | Panicked panic

definition newline :: string where "newline = [CHR 0x0A]"

definition main_options :: Options where
  "main_options = DefaultOptions\<lparr>Suite :=
     \<lparr>KEM = HybridX25519MLKEM768, Sign = MLDSA2, AEAD = AES256GCM, Hash = SHA256\<rparr>\<rparr>"

definition metrics_report :: "string \<Rightarrow> SocketMetrics \<Rightarrow> printed list" where
  "metrics_report who metrics =
     [Printed (newline @ who @ '' Metrics:''),
      Printed (''  Messages sent: '' @ sprintf_d (unat (MessagesSent metrics))),
      Printed (''  Messages received: '' @ sprintf_d (unat (MessagesReceived metrics))),
      Printed (''  Bytes sent: '' @ sprintf_d (unat (BytesSent metrics))),
      Printed (''  Bytes received: '' @ sprintf_d (unat (BytesReceived metrics)))]"

definition stats_report :: "Stats \<Rightarrow> printed list" where
  "stats_report stats =
     [Printed (newline @ ''Transport Statistics:''),
      Printed (''  Handshakes completed: '' @ sprintf_d (unat (HandshakesCompleted stats))),
      Printed (''  Messages encrypted: '' @ sprintf_d (unat (MessagesEncrypted stats))),
      Printed (''  Messages decrypted: '' @ sprintf_d (unat (MessagesDecrypted stats))),
      Printed (''  Key rotations: '' @ sprintf_d (unat (KeyRotations stats)))]"

text \<open>The body of a loop for index \<open>i\<close>: a panic or none, the outputs, and the socket.\<close>

type_synonym 'z round = "panic option \<times> printed list \<times> 'z zmqSocket"

definition server_reply :: "nat \<Rightarrow> bytes" where
  "server_reply i = bytes_of_string (''Hello from quantum-safe server! (msg '' @ sprintf_d (i + 1) @ '')'')"

definition serverRound :: "'z zmq_lib \<Rightarrow> nat \<Rightarrow> 'z zmqSocket \<Rightarrow> 'z round" where
  "serverRound lib i socket = (case Recv lib socket of
     (Err e, socket) \<Rightarrow> (None, [Logged ''Server: Recv error'' e], socket)
   | (Panic q, socket) \<Rightarrow> (Some q, [], socket)
   | (Ok msg, socket) \<Rightarrow>
       let received = Printed (''Server: Received: '' @ string_of_bytes msg) in
       (case Send lib socket (server_reply i) of
          (Err e, socket) \<Rightarrow> (None, [received, Logged ''Server: Send error'' e], socket)
        | (Panic q, socket) \<Rightarrow> (Some q, [received], socket)
        | (Ok _, socket) \<Rightarrow> (None, [received], socket)))"

definition client_request :: "nat \<Rightarrow> bytes" where
  "client_request i = bytes_of_string (''Hello from quantum-safe client! (msg '' @ sprintf_d (i + 1) @ '')'')"

definition clientRound :: "'z zmq_lib \<Rightarrow> nat \<Rightarrow> 'z zmqSocket \<Rightarrow> 'z round" where
  "clientRound lib i socket = (case Send lib socket (client_request i) of
     (Err e, socket) \<Rightarrow> (None, [Logged ''Client: Send error'' e], socket)
   | (Panic q, socket) \<Rightarrow> (Some q, [], socket)
   | (Ok _, socket) \<Rightarrow>
       (case Recv lib socket of
          (Err e, socket) \<Rightarrow> (None, [Logged ''Client: Recv error'' e], socket)
        | (Panic q, socket) \<Rightarrow> (Some q, [], socket)
        | (Ok reply, socket) \<Rightarrow> (None, [Printed (''Client: Received: '' @ string_of_bytes reply)], socket)))"

primrec rounds :: "(nat \<Rightarrow> 'z zmqSocket \<Rightarrow> 'z round) \<Rightarrow> nat list \<Rightarrow> 'z zmqSocket \<Rightarrow> 'z round" where
  "rounds body [] s = (None, [], s)"
| "rounds body (i # is) s = (case body i s of
     (Some q, out, s) \<Rightarrow> (Some q, out, s)
   | (None, out, s) \<Rightarrow> (case rounds body is s of (p, out', s) \<Rightarrow> (p, out @ out', s)))"

definition serverBody :: "'z zmq_lib \<Rightarrow> 'z zmqSocket \<Rightarrow> ending \<times> printed list \<times> 'z zmqSocket" where
  "serverBody lib socket = (case Bind lib socket ''tcp://*:5555'' of
     (Err e, socket) \<Rightarrow> (Fatal e, [], socket)
   | (Panic q, socket) \<Rightarrow> (Panicked q, [], socket)
   | (Ok _, socket) \<Rightarrow>
       let listening = Printed ''Server: Listening on tcp://*:5555 with QZMQ encryption'' in
       (case rounds (serverRound lib) [0..<3] socket of
          (Some q, out, socket) \<Rightarrow> (Panicked q, listening # out, socket)
        | (None, out, socket) \<Rightarrow>
            (Finished, listening # out @ metrics_report ''Server'' (GetMetrics socket), socket)))"

definition clientBody ::
  "'z zmq_lib \<Rightarrow> Stats \<Rightarrow> 'z zmqSocket \<Rightarrow> ending \<times> printed list \<times> 'z zmqSocket" where
  "clientBody lib stats socket = (case Connect lib socket ''tcp://localhost:5555'' of
     (Err e, socket) \<Rightarrow> (Fatal e, [], socket)
   | (Panic q, socket) \<Rightarrow> (Panicked q, [], socket)
   | (Ok _, socket) \<Rightarrow>
       let connected = Printed (newline @ ''Client: Connected to server with QZMQ encryption'') in
       (case rounds (clientRound lib) [0..<3] socket of
          (Some q, out, socket) \<Rightarrow> (Panicked q, connected # out, socket)
        | (None, out, socket) \<Rightarrow>
            (Finished, connected # out @ metrics_report ''Client'' (GetMetrics socket) @ stats_report stats,
             socket)))"

text \<open>A function that creates its socket, defers closing it, and runs its body.\<close>

definition with_socket :: "'z zmq_lib \<Rightarrow> transport \<Rightarrow> 'z heap \<Rightarrow> SocketType \<Rightarrow> nat
    \<Rightarrow> (transport \<Rightarrow> 'z zmqSocket \<Rightarrow> ending \<times> printed list \<times> 'z zmqSocket)
    \<Rightarrow> ending \<times> printed list \<times> transport \<times> 'z heap" where
  "with_socket lib t h ty addr body = (case NewSocket lib t h ty addr of
     (Err e, t, h) \<Rightarrow> (Fatal e, [], t, h)
   | (Panic q, t, h) \<Rightarrow> (Panicked q, [], t, h)
   | (Ok a, t, h) \<Rightarrow>
       (case h a of
          None \<Rightarrow> (Panicked NilDereference, [], t, h)
        | Some socket \<Rightarrow>
            (case body t socket of
               (Fatal e, out, socket) \<Rightarrow> (Fatal e, out, t, h(a \<mapsto> socket))
             | (ending, out, socket) \<Rightarrow>
                 (case Close lib socket of
                    (Panic q, socket) \<Rightarrow> (Panicked q, out, t, h(a \<mapsto> socket))
                  | (_, socket) \<Rightarrow> (ending, out, t, h(a \<mapsto> socket))))))"

definition runServer :: "'z zmq_lib \<Rightarrow> transport \<Rightarrow> 'z heap \<Rightarrow> nat
    \<Rightarrow> ending \<times> printed list \<times> transport \<times> 'z heap" where
  "runServer lib t h addr = with_socket lib t h REP addr (\<lambda>t. serverBody lib)"

definition runClient :: "'z zmq_lib \<Rightarrow> transport \<Rightarrow> 'z heap \<Rightarrow> nat
    \<Rightarrow> ending \<times> printed list \<times> transport \<times> 'z heap" where
  "runClient lib t h addr = with_socket lib t h REQ addr (\<lambda>t. clientBody lib (Transport_Stats t))"

section \<open>Accounting over the rounds\<close>

fun is_log :: "string \<Rightarrow> printed \<Rightarrow> bool" where
  "is_log what (Logged what' e) \<longleftrightarrow> what = what'"
| "is_log what (Printed s) \<longleftrightarrow> False"

fun is_printed :: "printed \<Rightarrow> bool" where
  "is_printed (Printed s) \<longleftrightarrow> True"
| "is_printed (Logged what e) \<longleftrightarrow> False"

definition logged :: "string \<Rightarrow> printed list \<Rightarrow> nat" where
  "logged what out = length (filter (is_log what) out)"

definition receipts :: "printed list \<Rightarrow> nat" where
  "receipts out = length (filter is_printed out)"

lemmas tally_defs = logged_def receipts_def

text \<open>A quantity that each round changes by \<open>c\<close>, up to what the round's outputs account for.\<close>

lemma rounds_tally:
  fixes f :: "'z zmqSocket \<Rightarrow> 64 word"
  assumes "\<And>i s out s'. i \<in> set is \<Longrightarrow> body i s = (None, out, s') \<Longrightarrow> f s' + of_nat (g out) = f s + c"
    and "g [] = 0" "\<And>a b. g (a @ b) = g a + g b"
  shows "rounds body is s = (None, out, s') \<Longrightarrow> f s' + of_nat (g out) = f s + of_nat (length is) * c"
  using assms(1)
proof (induction "is" arbitrary: s out)
  case Nil
  then show ?case using assms(2) by simp
next
  case (Cons i rest)
  from Cons.prems(1) obtain out1 s1 out2 where one: "body i s = (None, out1, s1)"
    and tl: "rounds body rest s1 = (None, out2, s')" and out: "out = out1 @ out2"
    by (auto split: prod.splits option.splits)
  have "f s' + of_nat (g out2) = f s1 + of_nat (length rest) * c"
    by (rule Cons.IH [OF tl]) (rule Cons.prems(2), simp_all)
  then have "f s' = f s1 + of_nat (length rest) * c - of_nat (g out2)" by (simp add: eq_diff_eq)
  moreover have "f s1 + of_nat (g out1) = f s + c" using Cons.prems(2) [OF _ one] by simp
  then have "f s1 = f s + c - of_nat (g out1)" by (simp add: eq_diff_eq)
  ultimately show ?case by (simp add: out assms(3) algebra_simps)
qed

lemma rounds_tally_nat:
  assumes "\<And>i s out s'. i \<in> set is \<Longrightarrow> body i s = (None, out, s') \<Longrightarrow> g out = (c :: nat)"
    and "g [] = 0" "\<And>a b. g (a @ b) = g a + g b"
  shows "rounds body is s = (None, out, s') \<Longrightarrow> g out = length is * c"
  using assms(1)
proof (induction "is" arbitrary: s out)
  case (Cons i rest)
  from Cons.prems(1) obtain out1 s1 out2 where one: "body i s = (None, out1, s1)"
    and tl: "rounds body rest s1 = (None, out2, s')" and out: "out = out1 @ out2"
    by (auto split: prod.splits option.splits)
  have "g out2 = length rest * c" by (rule Cons.IH [OF tl]) (rule Cons.prems(2), simp_all)
  then show ?case using Cons.prems(2) [OF _ one] by (simp add: out assms(3))
qed (simp add: assms(2))

lemma message_lengths:
  "i < 3 \<Longrightarrow> length (client_request i) = 39" "i < 3 \<Longrightarrow> length (server_reply i) = 39"
  by (simp_all add: client_request_def server_reply_def sprintf_d_def digits_in.simps)

lemma client_round:
  assumes "clientRound lib i s = (None, out, s')" "i < 3"
  shows "length out = 1"
    and "MessagesSent (s_metrics s') + of_nat (logged ''Client: Send error'' out) = MessagesSent (s_metrics s) + 1"
    and "BytesSent (s_metrics s') + of_nat (39 * logged ''Client: Send error'' out) = BytesSent (s_metrics s) + 39"
    and "delivers_frames lib \<Longrightarrow>
      - MessagesReceived (s_metrics s') + of_nat (receipts out) = - MessagesReceived (s_metrics s) + 0"
  using assms message_lengths [of i]
  by (auto simp: clientRound_def Send_def Recv_def Let_def tally_defs count_sent_def count_received_def
      delivers_frames_def split: if_splits prod.splits result.splits list.splits)

lemma server_round:
  assumes "serverRound lib i s = (None, out, s')" "i < 3"
  shows "receipts out + logged ''Server: Recv error'' out = 1"
    and "MessagesSent (s_metrics s') + of_nat (logged ''Server: Recv error'' out + logged ''Server: Send error'' out)
      = MessagesSent (s_metrics s) + 1"
    and "BytesSent (s_metrics s') + of_nat (39 * (logged ''Server: Recv error'' out + logged ''Server: Send error'' out))
      = BytesSent (s_metrics s) + 39"
    and "delivers_frames lib \<Longrightarrow>
      - MessagesReceived (s_metrics s') + of_nat (receipts out) = - MessagesReceived (s_metrics s) + 0"
  using assms message_lengths [of i]
  by (auto simp: serverRound_def Send_def Recv_def Let_def tally_defs count_sent_def count_received_def
      delivers_frames_def split: if_splits prod.splits result.splits list.splits)

lemma tally_append [simp]:
  "logged what (a @ b) = logged what a + logged what b" "logged what [] = 0"
  "receipts (a @ b) = receipts a + receipts b" "receipts [] = 0"
  by (simp_all add: tally_defs)

lemma complement: "f + of_nat n = (of_nat k :: 64 word) \<Longrightarrow> n \<le> k \<Longrightarrow> f = of_nat (k - n)"
  by (simp add: of_nat_diff eq_diff_eq)

lemma client_rounds:
  assumes run: "rounds (clientRound lib) [0..<3] s = (None, out, s')"
    and "s_metrics s = NewSocketMetrics" "delivers_frames lib"
  shows "length out = 3"
    and "MessagesSent (s_metrics s') = of_nat (3 - logged ''Client: Send error'' out)"
    and "BytesSent (s_metrics s') = of_nat (39 * (3 - logged ''Client: Send error'' out))"
    and "MessagesReceived (s_metrics s') = of_nat (receipts out)"
proof -
  note client = client_round [of lib]
  show len: "length out = 3"
    using rounds_tally_nat [OF _ _ _ run, of length 1] client(1) by simp
  then have le: "logged ''Client: Send error'' out \<le> 3"
    unfolding logged_def using length_filter_le [of _ out] by metis
  show "MessagesSent (s_metrics s') = of_nat (3 - logged ''Client: Send error'' out)"
    using rounds_tally [OF _ _ _ run, of "\<lambda>s. MessagesSent (s_metrics s)" "logged ''Client: Send error''" 1]
      client(2) le assms(2) by (intro complement) (simp_all add: NewSocketMetrics_def)
  have "BytesSent (s_metrics s') = of_nat (117 - 39 * logged ''Client: Send error'' out)"
    using rounds_tally [OF _ _ _ run, of "\<lambda>s. BytesSent (s_metrics s)" "\<lambda>out. 39 * logged ''Client: Send error'' out" 39]
      client(3) le assms(2) by (intro complement) (simp_all add: NewSocketMetrics_def)
  then show "BytesSent (s_metrics s') = of_nat (39 * (3 - logged ''Client: Send error'' out))"
    by (simp add: diff_mult_distrib2)
  show "MessagesReceived (s_metrics s') = of_nat (receipts out)"
    using rounds_tally [OF _ _ _ run, of "\<lambda>s. - MessagesReceived (s_metrics s)" receipts 0]
      client(4) assms(2,3) by (simp add: NewSocketMetrics_def)
qed

lemma server_rounds:
  assumes run: "rounds (serverRound lib) [0..<3] s = (None, out, s')"
    and "s_metrics s = NewSocketMetrics" "delivers_frames lib"
  shows "receipts out + logged ''Server: Recv error'' out = 3"
    and "MessagesReceived (s_metrics s') = of_nat (receipts out)"
    and "MessagesSent (s_metrics s') + of_nat (logged ''Server: Send error'' out) = of_nat (receipts out)"
    and "BytesSent (s_metrics s') = 39 * MessagesSent (s_metrics s')"
proof -
  note server = server_round [of lib]
  let ?E = "\<lambda>out. logged ''Server: Recv error'' out + logged ''Server: Send error'' out"
  show total: "receipts out + logged ''Server: Recv error'' out = 3"
    using rounds_tally_nat [OF _ _ _ run, of "\<lambda>out. receipts out + logged ''Server: Recv error'' out" 1]
      server(1) by simp
  show "MessagesReceived (s_metrics s') = of_nat (receipts out)"
    using rounds_tally [OF _ _ _ run, of "\<lambda>s. - MessagesReceived (s_metrics s)" receipts 0]
      server(4) assms(2,3) by (simp add: NewSocketMetrics_def)
  have "MessagesSent (s_metrics s') + of_nat (?E out) = 3"
    using rounds_tally [OF _ _ _ run, of "\<lambda>s. MessagesSent (s_metrics s)" ?E 1]
      server(2) assms(2) by (simp add: NewSocketMetrics_def)
  then have sent: "MessagesSent (s_metrics s') = 3 - of_nat (?E out)" by (simp add: eq_diff_eq)
  have "(of_nat (receipts out) :: 64 word) + of_nat (logged ''Server: Recv error'' out) = 3"
    using arg_cong [OF total, of "of_nat :: nat \<Rightarrow> 64 word"] by simp
  then have "(of_nat (receipts out) :: 64 word) = 3 - of_nat (logged ''Server: Recv error'' out)"
    by (simp add: eq_diff_eq)
  with sent show "MessagesSent (s_metrics s') + of_nat (logged ''Server: Send error'' out) = of_nat (receipts out)"
    by simp
  have "BytesSent (s_metrics s') + of_nat (39 * ?E out) = 117"
    using rounds_tally [OF _ _ _ run, of "\<lambda>s. BytesSent (s_metrics s)" "\<lambda>out. 39 * ?E out" 39]
      server(3) assms(2) by (simp add: NewSocketMetrics_def)
  then have "BytesSent (s_metrics s') = 117 - of_nat (39 * ?E out)" by (simp only: eq_diff_eq)
  moreover have "(117 :: 64 word) - of_nat (39 * n) = 39 * (3 - of_nat n)" for n
    by (simp add: right_diff_distrib)
  ultimately show "BytesSent (s_metrics s') = 39 * MessagesSent (s_metrics s')" by (simp only: sent)
qed

section \<open>What the program reports\<close>

lemma with_socket_finished:
  assumes wf: "trans_wf (t, h)" and fin: "with_socket lib t h ty addr body = (Finished, out, t', h')"
  shows "\<exists>s s1. s_metrics s = NewSocketMetrics \<and> body t' s = (Finished, out, s1) \<and>
    h' addr = Some (snd (Close lib s1)) \<and> Transport_Stats t' = zeroStats"
proof -
  obtain r t1 h1 where new: "NewSocket lib t h ty addr = (r, t1, h1)" by (cases "NewSocket lib t h ty addr")
  with fin obtain a s where r: "r = Ok a" and s: "h1 a = Some s"
    by (auto simp: with_socket_def split: result.splits option.splits)
  with new have "a = addr" "newGoSocket lib ty (t_opts t) = Ok s" "t_stats t1 = t_stats t"
    by (auto simp: NewSocket_def Let_def split: if_splits Backend.splits result.splits option.splits)
  moreover from this have "s_metrics s = NewSocketMetrics"
    by (auto simp: newGoSocket_def split: SocketType.splits option.splits)
  moreover obtain en out1 s1 where body: "body t1 s = (en, out1, s1)" by (cases "body t1 s")
  moreover obtain r2 s2 where "Close lib s1 = (r2, s2)" by (cases "Close lib s1")
  ultimately show ?thesis using fin new r s wf
    by (auto simp: with_socket_def trans_wf_def Transport_Stats_def
        split: ending.splits result.splits)
qed

lemma clientBody_finished:
  assumes "clientBody lib stats s = (Finished, out, s1)"
  shows "\<exists>s0 body. s_metrics s0 = s_metrics s \<and> rounds (clientRound lib) [0..<3] s0 = (None, body, s1) \<and>
    out = Printed (newline @ ''Client: Connected to server with QZMQ encryption'')
      # body @ metrics_report ''Client'' (s_metrics s1) @ stats_report stats"
  using assms
  by (intro exI [of _ "snd (Connect lib s ''tcp://localhost:5555'')"])
    (auto simp: clientBody_def Connect_def via_lib_def Let_def GetMetrics_def
      simp del: upt_Suc upt_conv_Cons_Cons split: if_splits prod.splits result.splits option.splits)

lemma serverBody_finished:
  assumes "serverBody lib s = (Finished, out, s1)"
  shows "\<exists>s0 body. s_metrics s0 = s_metrics s \<and> rounds (serverRound lib) [0..<3] s0 = (None, body, s1) \<and>
    out = Printed ''Server: Listening on tcp://*:5555 with QZMQ encryption''
      # body @ metrics_report ''Server'' (s_metrics s1)"
  using assms
  by (intro exI [of _ "snd (Bind lib s ''tcp://*:5555'')"])
    (auto simp: serverBody_def Bind_def via_lib_def Let_def GetMetrics_def
      simp del: upt_Suc upt_conv_Cons_Cons split: if_splits prod.splits result.splits option.splits)


text \<open>The client over the echo library: every request comes back.\<close>

lemma echo_client_round:
  "\<not> s_closed s \<Longrightarrow> s_socket s = [] \<Longrightarrow>
   \<exists>m. clientRound echo_lib i s =
     (None, [Printed (''Client: Received: '' @ string_of_bytes (client_request i))], s\<lparr>s_metrics := m\<rparr>)"
  by (cases s) (auto simp: clientRound_def Send_def Recv_def echo_lib_def Let_def)

lemma echo_client_rounds:
  "\<not> s_closed s \<Longrightarrow> s_socket s = [] \<Longrightarrow>
   \<exists>m. rounds (clientRound echo_lib) is s =
     (None, map (\<lambda>i. Printed (''Client: Received: '' @ string_of_bytes (client_request i))) is, s\<lparr>s_metrics := m\<rparr>)"
proof (induction "is" arbitrary: s)
  case Nil
  show ?case by (rule exI [of _ "s_metrics s"]) simp
next
  case (Cons i rest)
  from echo_client_round [OF Cons.prems] obtain m where
    one: "clientRound echo_lib i s =
      (None, [Printed (''Client: Received: '' @ string_of_bytes (client_request i))], s\<lparr>s_metrics := m\<rparr>)" ..
  from Cons.IH [of "s\<lparr>s_metrics := m\<rparr>"] Cons.prems one show ?case by auto
qed

lemma echo_client_runs:
  assumes "New main_options = Ok t"
  shows "\<exists>out t' h'. runClient echo_lib t Map.empty 1 = (Finished, out, t', h')"
proof -
  let ?s = "(echo_socket REQ)\<lparr>s_opts := t_opts t\<rparr>"
  obtain t1 where new: "NewSocket echo_lib t Map.empty REQ 1 = (Ok 1, t1, Map.empty(1 \<mapsto> ?s))"
    using assms by (auto simp: New_Ok_iff NewSocket_def newGoSocket_def echo_lib_def echo_socket_def)
  have "Connect echo_lib ?s ''tcp://localhost:5555'' = (Ok (), ?s)"
    by (simp add: Connect_def via_lib_def echo_lib_def echo_socket_def)
  moreover obtain m where "rounds (clientRound echo_lib) [0..<3] ?s =
      (None, map (\<lambda>i. Printed (''Client: Received: '' @ string_of_bytes (client_request i))) [0..<3],
       ?s\<lparr>s_metrics := m\<rparr>)"
    using echo_client_rounds [of ?s "[0..<3]"] by (auto simp: echo_socket_def)
  ultimately obtain out where "clientBody echo_lib (Transport_Stats t1) ?s = (Finished, out, ?s\<lparr>s_metrics := m\<rparr>)"
    by (simp add: clientBody_def Let_def)
  moreover obtain s' where "Close echo_lib (?s\<lparr>s_metrics := m\<rparr>) = (Ok (), s')"
    by (simp add: Close_def cancel_def via_lib_def echo_lib_def echo_socket_def)
  ultimately show ?thesis using new by (simp add: runClient_def with_socket_def)
qed


end
