(* ===== verification/QZMQ_Example_Main.thy ===== *)
theory QZMQ_Example_Main
  imports QZMQ_Example
begin

text \<open>
  The function \<open>main\<close> of \<open>src/examples/basic/main.go\<close> with its two goroutines in every schedule. The
  server and the client are processes, trees of calls that branch on the answers; run alone
  on their sockets they are the functions of \<open>QZMQ_Example\<close>. \<open>main_step\<close> interleaves them call by
  call over one transport, and ends with the deferred \<open>Close\<close> when the client has returned.
  The lemmas show that every schedule is a run of the transport, that every schedule ends, and how.
\<close>

section \<open>Processes\<close>

datatype proc = Exit ending | Print printed proc | Do sock_op "sock_out \<Rightarrow> proc"
  | WithMetrics "SocketMetrics \<Rightarrow> proc" | WithStats "Stats \<Rightarrow> proc"

definition prints :: "printed list \<Rightarrow> proc \<Rightarrow> proc" where
  "prints ps k = foldr Print ps k"

primrec server_loop :: "nat list \<Rightarrow> proc \<Rightarrow> proc" where
  "server_loop [] k = k"
| "server_loop (i # is) k = Do OpRecv (\<lambda>a. case a of
     OutBytes (Ok msg) \<Rightarrow>
       Print (Printed (''Server: Received: '' @ string_of_bytes msg))
         (Do (OpSend (server_reply i)) (\<lambda>b. case b of
            OutUnit (Err e) \<Rightarrow> Print (Logged ''Server: Send error'' e) (server_loop is k)
          | OutUnit (Panic q) \<Rightarrow> Exit (Panicked q)
          | _ \<Rightarrow> server_loop is k))
   | OutBytes (Err e) \<Rightarrow> Print (Logged ''Server: Recv error'' e) (server_loop is k)
   | OutBytes (Panic q) \<Rightarrow> Exit (Panicked q)
   | _ \<Rightarrow> Exit (Panicked NilDereference))"

primrec client_loop :: "nat list \<Rightarrow> proc \<Rightarrow> proc" where
  "client_loop [] k = k"
| "client_loop (i # is) k = Do (OpSend (client_request i)) (\<lambda>a. case a of
     OutUnit (Err e) \<Rightarrow> Print (Logged ''Client: Send error'' e) (client_loop is k)
   | OutUnit (Panic q) \<Rightarrow> Exit (Panicked q)
   | _ \<Rightarrow> Do OpRecv (\<lambda>b. case b of
       OutBytes (Ok reply) \<Rightarrow>
         Print (Printed (''Client: Received: '' @ string_of_bytes reply)) (client_loop is k)
     | OutBytes (Err e) \<Rightarrow> Print (Logged ''Client: Recv error'' e) (client_loop is k)
     | OutBytes (Panic q) \<Rightarrow> Exit (Panicked q)
     | _ \<Rightarrow> Exit (Panicked NilDereference)))"

text \<open>A call that must succeed: \<open>log.Fatal\<close> otherwise.\<close>

definition or_fatal :: "sock_op \<Rightarrow> proc \<Rightarrow> proc" where
  "or_fatal op k = Do op (\<lambda>a. case a of
     OutUnit (Err e) \<Rightarrow> Exit (Fatal e) | OutUnit (Panic q) \<Rightarrow> Exit (Panicked q) | _ \<Rightarrow> k)"

definition serverProc :: proc where
  "serverProc = or_fatal (OpBind ''tcp://*:5555'')
     (Print (Printed ''Server: Listening on tcp://*:5555 with QZMQ encryption'')
       (server_loop [0..<3] (WithMetrics (\<lambda>m. prints (metrics_report ''Server'' m) (Exit Finished)))))"

definition clientProc :: proc where
  "clientProc = or_fatal (OpConnect ''tcp://localhost:5555'')
     (Print (Printed (newline @ ''Client: Connected to server with QZMQ encryption''))
       (client_loop [0..<3] (WithMetrics (\<lambda>m. prints (metrics_report ''Client'' m)
         (WithStats (\<lambda>st. prints (stats_report st) (Exit Finished)))))))"

section \<open>A process alone\<close>

primrec run_proc :: "'z zmq_lib \<Rightarrow> Stats \<Rightarrow> proc \<Rightarrow> 'z zmqSocket \<Rightarrow> ending \<times> printed list \<times> 'z zmqSocket" where
  "run_proc lib stats (Exit en) s = (en, [], s)"
| "run_proc lib stats (Print p k) s = (case run_proc lib stats k s of (en, out, s) \<Rightarrow> (en, p # out, s))"
| "run_proc lib stats (Do op k) s = (case sock_exec lib op s of (a, s) \<Rightarrow> run_proc lib stats (k a) s)"
| "run_proc lib stats (WithMetrics k) s = run_proc lib stats (k (GetMetrics s)) s"
| "run_proc lib stats (WithStats k) s = run_proc lib stats (k stats) s"

lemma run_prints:
  "run_proc lib stats (prints ps k) s = (case run_proc lib stats k s of (en, out, s) \<Rightarrow> (en, ps @ out, s))"
  by (induction ps) (auto simp: prints_def split: prod.split)

text \<open>A process that runs a loop, then \<open>k\<close>; a panic in a round ends it.\<close>

lemma run_server_loop:
  "run_proc lib stats (server_loop is k) s = (case rounds (serverRound lib) is s of
     (Some q, out, s) \<Rightarrow> (Panicked q, out, s)
   | (None, out, s) \<Rightarrow> (case run_proc lib stats k s of (en, out', s) \<Rightarrow> (en, out @ out', s)))"
  by (induction "is" arbitrary: s)
    (auto simp: serverRound_def Let_def split: prod.splits result.splits option.splits)

lemma run_client_loop:
  "run_proc lib stats (client_loop is k) s = (case rounds (clientRound lib) is s of
     (Some q, out, s) \<Rightarrow> (Panicked q, out, s)
   | (None, out, s) \<Rightarrow> (case run_proc lib stats k s of (en, out', s) \<Rightarrow> (en, out @ out', s)))"
  by (induction "is" arbitrary: s)
    (auto simp: clientRound_def Let_def split: prod.splits result.splits option.splits)

lemma run_serverProc: "run_proc lib stats serverProc s = serverBody lib s"
  by (auto simp: serverProc_def or_fatal_def serverBody_def run_server_loop run_prints Let_def
      simp del: upt_Suc upt_conv_Cons_Cons split: prod.splits result.splits option.splits)

lemma run_clientProc: "run_proc lib stats clientProc s = clientBody lib stats s"
  by (auto simp: clientProc_def or_fatal_def clientBody_def run_client_loop run_prints Let_def
      simp del: upt_Suc upt_conv_Cons_Cons split: prod.splits result.splits option.splits)

section \<open>Goroutines and \<open>main\<close>\<close>

text \<open>A goroutine before it creates its socket, running on its socket, with only its deferred
  \<open>Close\<close> left, and ended.\<close>

datatype goroutine = Create SocketType proc | Running nat proc | Deferred nat ending | Ended ending

fun crashed :: "goroutine \<Rightarrow> bool" where
  "crashed (Ended en) \<longleftrightarrow> en \<noteq> Finished"
| "crashed _ \<longleftrightarrow> False"

fun fatal :: "goroutine \<Rightarrow> bool" where
  "fatal (Ended (Fatal e)) \<longleftrightarrow> True"
| "fatal _ \<longleftrightarrow> False"

fun created :: "(error, nat) result \<Rightarrow> proc \<Rightarrow> goroutine" where
  "created (Ok a) p = Running a p"
| "created (Err e) p = Ended (Fatal e)"
| "created (Panic q) p = Ended (Panicked q)"

text \<open>How a goroutine ends: \<open>log.Fatal\<close> at once, otherwise through its deferred \<open>Close\<close>, which
  may panic itself.\<close>

fun ending_of :: "ending \<Rightarrow> sock_out \<Rightarrow> ending" where
  "ending_of en (OutUnit (Panic q)) = Panicked q"
| "ending_of en out = en"

text \<open>One step of a goroutine: the call it makes, if any, and what it prints.\<close>

inductive go_step :: "'z zmq_lib \<Rightarrow> 'z world \<Rightarrow> goroutine \<Rightarrow> trans_event option \<times> printed list
    \<Rightarrow> 'z world \<Rightarrow> goroutine \<Rightarrow> bool" for lib where
  go_create: "h addr = None \<Longrightarrow> NewSocket lib t h ty addr = (r, t', h') \<Longrightarrow>
    go_step lib (t, h) (Create ty p) (Some (TNewSocket r), []) (t', h') (created r p)"
| go_print: "go_step lib w (Running a (Print p k)) (None, [p]) w (Running a k)"
| go_do: "h a = Some s \<Longrightarrow> sock_exec lib op s = (out, s') \<Longrightarrow>
    go_step lib (t, h) (Running a (Do op k)) (Some (TSocket a op out), []) (t, h(a \<mapsto> s')) (Running a (k out))"
| go_metrics: "h a = Some s \<Longrightarrow>
    go_step lib (t, h) (Running a (WithMetrics k)) (None, []) (t, h) (Running a (k (GetMetrics s)))"
| go_stats: "go_step lib (t, h) (Running a (WithStats k)) (None, []) (t, h) (Running a (k (Transport_Stats t)))"
| go_fatal: "go_step lib w (Running a (Exit (Fatal e))) (None, []) w (Ended (Fatal e))"
| go_defer: "(\<And>e. en \<noteq> Fatal e) \<Longrightarrow> go_step lib w (Running a (Exit en)) (None, []) w (Deferred a en)"
| go_close: "h a = Some s \<Longrightarrow> sock_exec lib OpClose s = (out, s') \<Longrightarrow>
    go_step lib (t, h) (Deferred a en) (Some (TSocket a OpClose out), []) (t, h(a \<mapsto> s')) (Ended (ending_of en out))"

record 'z main_state =
  world_of :: "'z world"
  server :: goroutine
  client :: goroutine
  printed_so_far :: "printed list"
  main_ended :: "ending option"

text \<open>\<open>main\<close> after \<open>New\<close> has succeeded: the server goroutine is started and the client runs in the main
  goroutine. Sleeping orders nothing.\<close>

definition main_start :: "'z main_state \<Rightarrow> bool" where
  "main_start m \<longleftrightarrow> (\<exists>t. New main_options = Ok t \<and> world_of m = (t, Map.empty)) \<and>
     server m = Create REP serverProc \<and> client m = Create REQ clientProc \<and>
     printed_so_far m = [] \<and> main_ended m = None"

text \<open>The process is running while \<open>main\<close> has not ended and no goroutine has ended it. A panic of
  the client, which runs in the main goroutine, still runs the deferred \<open>Close\<close> of the transport.\<close>

definition running :: "'z main_state \<Rightarrow> bool" where
  "running m \<longleftrightarrow> main_ended m = None \<and> \<not> crashed (server m) \<and> \<not> fatal (client m)"

definition close_ending :: "ending \<Rightarrow> (error, unit) result \<Rightarrow> ending" where
  "close_ending en r = (case r of Panic q \<Rightarrow> Panicked q | _ \<Rightarrow> en)"

inductive main_step :: "'z zmq_lib \<Rightarrow> 'z main_state \<Rightarrow> trans_event option \<Rightarrow> 'z main_state \<Rightarrow> bool" for lib where
  main_server: "running m \<Longrightarrow> go_step lib (world_of m) (server m) (e, out) w g \<Longrightarrow>
    main_step lib m e (m\<lparr>world_of := w, server := g, printed_so_far := printed_so_far m @ out\<rparr>)"
| main_client: "running m \<Longrightarrow> go_step lib (world_of m) (client m) (e, out) w g \<Longrightarrow>
    main_step lib m e (m\<lparr>world_of := w, client := g, printed_so_far := printed_so_far m @ out\<rparr>)"
| main_close: "running m \<Longrightarrow> client m = Ended en \<Longrightarrow> world_of m = (t, h) \<Longrightarrow> iteration t order \<Longrightarrow>
    Transport_Close lib t h order = (r, t', h') \<Longrightarrow>
    main_step lib m (Some (TClose r)) (m\<lparr>world_of := (t', h'), main_ended := Some (close_ending en r)\<rparr>)"

section \<open>Every schedule is a run of the transport\<close>

lemma go_step_trans:
  assumes "go_step lib w g (e, out) w' g'"
  shows "case e of None \<Rightarrow> w' = w | Some ev \<Rightarrow> trans_step lib w ev w'"
  using assms by cases (auto intro: tstep_new tstep_socket)

lemma main_step_trans:
  assumes "main_step lib m e m'"
  shows "case e of None \<Rightarrow> world_of m' = world_of m | Some ev \<Rightarrow> trans_step lib (world_of m) ev (world_of m')"
  using assms
proof cases
  case (main_server out w g)
  then show ?thesis using go_step_trans [OF main_server(3)] by (simp split: option.splits)
next
  case (main_client out w g)
  then show ?thesis using go_step_trans [OF main_client(3)] by (simp split: option.splits)
next
  case (main_close en t h order r t' h')
  then show ?thesis by (auto intro: tstep_close)
qed

fun on_socket :: "goroutine \<Rightarrow> nat option" where
  "on_socket (Running a p) = Some a" | "on_socket (Deferred a en) = Some a" | "on_socket _ = None"

fun slots :: "goroutine \<Rightarrow> nat" where
  "slots (Create ty p) = 0" | "slots _ = 1"

definition main_inv :: "'z zmq_lib \<Rightarrow> 'z main_state \<Rightarrow> bool" where
  "main_inv lib m \<longleftrightarrow> reachable new_world (trans_step lib) (world_of m) \<and>
     set_option (on_socket (server m)) \<union> set_option (on_socket (client m)) \<subseteq> dom (snd (world_of m)) \<and>
     finite (dom (snd (world_of m))) \<and> card (dom (snd (world_of m))) \<le> slots (server m) + slots (client m) \<and>
     (main_ended m = Some Finished \<longrightarrow> t_closed (fst (world_of m)) \<and> (\<forall>s \<in> ran (snd (world_of m)). sock_shut s))"

lemma go_step_frame:
  assumes "go_step lib w g (e, out) w' g'" "set_option (on_socket g) \<subseteq> dom (snd w)"
    and "finite (dom (snd w))" "card (dom (snd w)) \<le> slots g + n" "trans_wf w"
  shows "dom (snd w) \<subseteq> dom (snd w')" "set_option (on_socket g') \<subseteq> dom (snd w')"
    and "finite (dom (snd w'))" "card (dom (snd w')) \<le> slots g' + n"
proof -
  have "dom (snd w) \<subseteq> dom (snd w') \<and> set_option (on_socket g') \<subseteq> dom (snd w') \<and>
    finite (dom (snd w')) \<and> card (dom (snd w')) \<le> slots g' + n"
    using assms(1)
  proof cases
    case (go_create h addr t ty r t' h' p)
    have "(r = Ok addr \<and> dom h' = insert addr (dom h)) \<or> ((\<exists>e. r = Err e) \<and> h' = h)"
      using go_create(7,8) NewSocket_wf [OF _ go_create(7,8)] assms(5) go_create(1)
      by (auto simp: NewSocket_def Let_def split: if_splits Backend.splits result.splits option.splits)
    then show ?thesis using assms(2-4) go_create(1,2,5,6,7)
      by (auto simp: card_insert_if)
  qed (use assms(2-4) in \<open>auto simp: insert_absorb domIff\<close>)
  then show "dom (snd w) \<subseteq> dom (snd w')" "set_option (on_socket g') \<subseteq> dom (snd w')"
    "finite (dom (snd w'))" "card (dom (snd w')) \<le> slots g' + n" by simp_all
qed

interpretation main: invariant_system main_start "main_step lib" "main_inv lib" for lib
proof
  fix m :: "'a main_state"
  assume "main_start m"
  then show "main_inv lib m"
    by (auto simp: main_start_def main_inv_def intro!: reach_init) (auto simp: new_world_def)
next
  fix m m' :: "'a main_state" and e
  assume inv: "main_inv lib m" and step: "main_step lib m e m'"
  then have reach: "reachable new_world (trans_step lib) (world_of m')"
    using main_step_trans [OF step] reach_step by (auto simp: main_inv_def split: option.splits)
  have "reachable new_world (trans_step lib) (world_of m)" using inv by (simp add: main_inv_def)
  then have wf: "trans_wf (world_of m)" by (rule trans.reachable_inv)
  from step show "main_inv lib m'"
  proof cases
    case (main_server out w g)
    have fr: "dom (snd (world_of m)) \<subseteq> dom (snd w)" "set_option (on_socket g) \<subseteq> dom (snd w)"
      "finite (dom (snd w))" "card (dom (snd w)) \<le> slots g + slots (client m)"
      using go_step_frame [OF main_server(3), of "slots (client m)"] inv wf by (simp_all add: main_inv_def add.commute)
    have "set_option (on_socket (client m)) \<subseteq> dom (snd w)"
      using inv by (intro subset_trans [OF _ fr(1)]) (simp add: main_inv_def)
    with fr main_server(1,2) reach show ?thesis by (simp add: main_inv_def running_def add.commute)
  next
    case (main_client out w g)
    have fr: "dom (snd (world_of m)) \<subseteq> dom (snd w)" "set_option (on_socket g) \<subseteq> dom (snd w)"
      "finite (dom (snd w))" "card (dom (snd w)) \<le> slots g + slots (server m)"
      using go_step_frame [OF main_client(3), of "slots (server m)"] inv wf by (simp_all add: main_inv_def add.commute)
    have "set_option (on_socket (server m)) \<subseteq> dom (snd w)"
      using inv by (intro subset_trans [OF _ fr(1)]) (simp add: main_inv_def)
    with fr main_client(1,2) reach show ?thesis by (simp add: main_inv_def running_def add.commute)
  next
    case (main_close en t h order r t' h')
    have "trans_step lib (t, h) (TClose r) (t', h')" using main_close by (auto intro: tstep_close)
    then have "registry_spec (registry_view (t, h)) (TClose r) (registry_view (t', h'))"
      using reg.step_abs wf main_close(5) by metis
    note closed = this
    have "dom h' = dom h" using close_keeps_dom [OF closed] by simp
    moreover have "r \<noteq> Err x" for x using closed close_no_error by metis
    moreover have "t_closed t' \<and> (\<forall>s \<in> ran h'. sock_shut s)" if "r = Ok ()"
      using close_shuts_all [OF closed [unfolded that]] by (simp add: all_shut_view)
    ultimately show ?thesis using inv main_close reach
      by (cases r) (auto simp: main_inv_def close_ending_def)
  qed
qed

section \<open>Every schedule ends\<close>

inductive_set proc_child :: "(proc \<times> proc) set" where
  "(k, Print p k) \<in> proc_child" | "(k a, Do op k) \<in> proc_child"
| "(k m, WithMetrics k) \<in> proc_child" | "(k st, WithStats k) \<in> proc_child"

lemma wf_proc_child: "wf proc_child"
proof (unfold wf_def, intro allI impI)
  fix P and p :: proc
  assume step: "\<forall>p. (\<forall>k. (k, p) \<in> proc_child \<longrightarrow> P k) \<longrightarrow> P p"
  show "P p"
    by (induction p) (rule step [rule_format], auto elim: proc_child.cases)+
qed

fun stage :: "goroutine \<Rightarrow> nat \<times> proc" where
  "stage (Create ty p) = (3, p)" | "stage (Running a p) = (2, p)"
| "stage (Deferred a en) = (1, Exit en)" | "stage (Ended en) = (0, Exit en)"

definition go_less :: "(goroutine \<times> goroutine) set" where
  "go_less = inv_image (less_than <*lex*> proc_child) stage"

definition main_less :: "('z main_state \<times> 'z main_state) set" where
  "main_less = inv_image (less_than <*lex*> go_less <*lex*> go_less)
     (\<lambda>m. (if main_ended m = None then 1 else 0, server m, client m))"

lemma wf_main_less: "wf main_less"
  unfolding main_less_def go_less_def
  by (intro wf_inv_image wf_lex_prod wf_less_than wf_proc_child)

lemma go_step_less: "go_step lib w g e w' g' \<Longrightarrow> (g', g) \<in> go_less"
proof (induction rule: go_step.induct)
  case (go_create h addr t ty r t' h' p)
  show ?case by (cases r) (simp_all add: go_less_def)
qed (auto simp: go_less_def intro: proc_child.intros)

lemma main_step_less: "main_step lib m e m' \<Longrightarrow> (m', m) \<in> main_less"
  by (induction rule: main_step.induct) (auto simp: main_less_def running_def dest: go_step_less)

lemma go_progress:
  assumes "set_option (on_socket g) \<subseteq> dom h" "finite (dom h)" "\<And>en. g \<noteq> Ended en"
  shows "\<exists>e out w' g'. go_step lib (t, h) g (e, out) w' g'"
proof (cases g)
  case (Create ty p)
  obtain addr where "h addr = None"
    using ex_new_if_finite [OF infinite_UNIV_nat assms(2)] by (auto simp: domIff)
  moreover obtain r t' h' where "NewSocket lib t h ty addr = (r, t', h')" by (cases "NewSocket lib t h ty addr")
  ultimately show ?thesis using Create go_create by blast
next
  case (Running a p)
  with assms(1) obtain s where s: "h a = Some s" by auto
  show ?thesis
  proof (cases p)
    case (Exit en)
    then show ?thesis using Running go_fatal go_defer by (cases en) blast+
  next
    case (Do op k)
    obtain out s' where "sock_exec lib op s = (out, s')" by (cases "sock_exec lib op s")
    with s Do Running go_do show ?thesis by blast
  qed (use s Running go_print go_metrics go_stats in blast)+
next
  case (Deferred a en)
  with assms(1) obtain s where s: "h a = Some s" by auto
  obtain out s' where "sock_exec lib OpClose s = (out, s')" by (cases "sock_exec lib OpClose s")
  with s Deferred go_close show ?thesis by blast
qed (use assms(3) in blast)

lemma main_progress:
  assumes inv: "main_inv lib m" and "running m"
  shows "\<exists>e m'. main_step lib m e m'"
proof (cases "\<exists>en. client m = Ended en")
  case True
  then obtain en where en: "client m = Ended en" by blast
  obtain t h where w: "world_of m = (t, h)" by (cases "world_of m")
  define order where "order = (case t_sockets t of None \<Rightarrow> [] | Some ms \<Rightarrow> ms)"
  have "iteration t order" by (simp add: iteration_def order_def)
  moreover obtain r t' h' where "Transport_Close lib t h order = (r, t', h')"
    by (cases "Transport_Close lib t h order")
  ultimately show ?thesis using main_close [OF assms(2) en w] by blast
next
  case False
  obtain t h where w: "world_of m = (t, h)" by (cases "world_of m")
  have "\<exists>e out w' g'. go_step lib (t, h) (client m) (e, out) w' g'"
    using inv False w by (intro go_progress) (auto simp: main_inv_def)
  with main_client [OF assms(2)] w show ?thesis by metis
qed



end
