(* ===== verification/Spec2Isabelle.thy ===== *)
theory Spec2Isabelle
  imports QZMQ_Prelude QZMQ_Types QZMQ_Wire QZMQ_Crypto QZMQ_KEM QZMQ_Connection
    QZMQ_Socket QZMQ_Transport QZMQ_Registry QZMQ_Concurrency QZMQ_Atomicity QZMQ_Backend_Selection
    QZMQ_Logging QZMQ_XChain QZMQ_Example QZMQ_Example_Main
begin

text \<open>
  \<^bold>\<open>QZMQ, a post-quantum transport over ZeroMQ (Go).\<close>

  \<^bold>\<open>The program and its parts.\<close> An application makes a transport from options (\<open>qzmq.go\<close>), the
  transport makes sockets (\<open>backend.go\<close>) over the ZeroMQ library \<open>luxfi/zmq\<close> and keeps them in a
  table. Beside this path stands the handshake (\<open>connection.go\<close>): a client state machine that
  exchanges ClientHello, ServerHello, ClientKey and Finished messages, with the key
  encapsulation, signature, AEAD and key derivation layer of \<open>crypto.go\<close> and
  \<open>mlkem_integration.go\<close> below it. \<open>backend_selection.go\<close> chooses a backend from the environment,
  \<open>xchain.go\<close> puts order and block messages on a DEALER socket, \<open>logging_simple.go\<close> prints, and
  \<open>examples/basic/main.go\<close> is a server and a client over one transport.

  \<^bold>\<open>The theories\<close>, in the order they build on each other (all sources under \<open>src/\<close>):

  \<^item> \<open>QZMQ_Prelude\<close>: Go's outcomes (value, error, panic), slices and buffers, big-endian integers,
    the entropy source, decimal and hexadecimal printing, reachability. Its locales are
    \<open>fixed_codec\<close> (integer codecs, interpreted for 16, 32 and 64 bits), \<open>iota_enum\<close> (Go
    enumerations), \<open>invariant_system\<close> (invariants of step relations) and \<open>simulation\<close>, which
    extends it (a step relation that implements a specification, so that its runs do).
  \<^item> \<open>QZMQ_Types\<close>: enumerations, option and statistics records, errors, presets and
    \<open>validateOptions\<close> of \<open>qzmq.go\<close>.
  \<^item> \<open>QZMQ_Wire\<close>: the messages of \<open>connection.go\<close> with \<open>marshal\<close> and \<open>unmarshal\<close> as written (a buffer
    filled at running offsets, a reader that assigns fields one after the other), against the
    reference layouts: round trip and canonical form of frames, the reader's verdict on
    every input, and what the encodings leave out.
  \<^item> \<open>QZMQ_Crypto\<close>: signers, AEAD construction, HKDF readers and \<open>deriveKeys\<close>, the Finished MAC and
    cookies of \<open>crypto.go\<close>; locale \<open>signer_contract\<close>, interpreted for the ML-DSA signer.
  \<^item> \<open>QZMQ_KEM\<close>: the KEM implementations of \<open>crypto.go\<close> and \<open>mlkem_integration.go\<close> behind one datatype;
    locale \<open>sized_kem\<close>, interpreted for X25519, the ML-KEM types and their hybrid. Declared
    sizes, agreement on the shared secret, and the implementations that do not agree.
  \<^item> \<open>QZMQ_Connection\<close>: the record \<open>connection\<close> and the methods \<open>clientHello\<close>, \<open>processServerHello\<close>,
    \<open>clientKey\<close> (here \<open>connection_clientKey\<close>), \<open>processFinished\<close>, \<open>needsKeyUpdate\<close>, \<open>updateKeys\<close>, as
    functions that return the outcome, the connection and the remaining entropy; \<open>conn_step\<close> is
    one call. It implements the automaton \<open>handshake_spec\<close>, from which the order of the handshake
    and the transcript follow; invariant, reachable states, acceptance of Finished, rotation.
  \<^item> \<open>QZMQ_Socket\<close>: the record \<open>zmqSocket\<close> and all its methods over the library record \<open>zmq_lib\<close>; locale
    \<open>socket_contract\<close> (closing is final). Metrics over runs, independence of the suite.
  \<^item> \<open>QZMQ_Transport\<close>: the record \<open>transport\<close>, \<open>New\<close>, \<open>NewSocket\<close>, options, \<open>Close\<close> and \<open>Stats\<close>, with the
    sockets in a heap; invariant under interleaving with socket calls, closing all sockets.
  \<^item> \<open>QZMQ_Registry\<close>: the specification \<open>registry_spec\<close> of a transport as a registry of open and shut
    sockets, and that the transport implements it, with what holds after it is closed.
  \<^item> \<open>QZMQ_Concurrency\<close>: sends and \<open>Close\<close> under the write lock and receives under the read lock, at
    the level of the lock and of loads and stores of the message counters: sends are counted
    exactly, receives are not, a waiting receive blocks sends, and \<open>Close\<close> ends every call.
    The library is abstracted to what it has ready for receives.
  \<^item> \<open>QZMQ_Atomicity\<close>: all calls on a shared socket with their values, over the record \<open>zmqSocket\<close> and
    the library: entering the lock, the body up to the library's answer (\<open>call_body\<close>), the
    loads and stores of all counters, the copy of \<open>GetMetrics\<close>. With at most one receiver the
    calls implement the sequential operations of \<open>QZMQ_Socket\<close> (\<open>atomic_step\<close>); \<open>next_step\<close> and \<open>play\<close>
    execute a schedule.
  \<^item> \<open>QZMQ_Backend_Selection\<close>, \<open>QZMQ_Logging\<close>, \<open>QZMQ_XChain\<close>: the files of these names.
  \<^item> \<open>QZMQ_Example\<close>: \<open>runServer\<close> and \<open>runClient\<close> of the example with all that they print, and that
    their reports agree with what happened.
  \<^item> \<open>QZMQ_Example_Main\<close>: \<open>main\<close> with the two as goroutines, processes that are interleaved call by
    call; every schedule is a run of the transport and ends.

  \<^bold>\<open>What stands for code outside the repository.\<close> The record \<open>crypto\<close> (HMAC, the HKDF stream, X25519,
  Ed25519, the AEAD ciphers, \<open>luxfi/crypto/mlkem\<close>), the record \<open>zmq_lib\<close> (\<open>luxfi/zmq\<close>) and the
  record \<open>json_codec\<close> are arguments of the definitions. What a theorem needs of them is a named
  predicate or an explicit hypothesis: \<open>x25519_dh\<close>, \<open>mlkem_correct\<close>, \<open>x25519_point_length\<close>,
  \<open>aead_roundtrip\<close>, \<open>delivers_frames\<close>, \<open>close_returns\<close>. The instances \<open>sample_crypto\<close>, \<open>echo_lib\<close> and
  \<open>sample_json\<close> show that they can hold.

  \<^bold>\<open>Conventions.\<close> Machine integers are words, \<open>time.Duration\<close> and \<open>time.Time\<close> integers in
  nanoseconds, byte slices lists (nil and empty coincide), nil interfaces and pointers \<open>None\<close>.
  Random bytes come from a tape that the operation consumes; a tape that is too short is a
  failing source. No definition needs fuel: the loops are structural recursions or have a
  measure (\<open>formatFields_loop\<close>, \<open>digits_in\<close>).

  \<^bold>\<open>Not modelled\<close>: the interior of the cryptographic primitives and of the libraries, wall-clock
  time (an argument), the destination of the log, goroutine scheduling in
  the transport and the connection, whose operations hold one lock from start to end, the
  interfaces and package clauses, \<open>UpdateKEMFactory\<close>, which is empty, and the tests with their helpers.
\<close>

section \<open>From options to the wire\<close>

text \<open>
  C18. End to end, a PQ-only configuration protects nothing on the wire: for all options that \<open>New\<close>
  accepts in PQ-only mode, every socket of the transport carries the configured suite and reports
  \<open>qzmq.encrypted\<close> as true, while \<open>Send\<close> hands the caller's bytes to the ZeroMQ library as a single
  message built from exactly these bytes.
\<close>

theorem pq_only_socket_sends_plaintext:
  assumes "New opts = Ok t" "Mode opts = ModePQOnly"
    and "NewSocket lib t h ty addr = (Ok a, t', h')"
    and "zmq_Send lib z (zmq_NewMsg lib data) = (Ok (), z')"
  shows "\<exists>s. h' a = Some s \<and> Socket_GetOption s ''qzmq.suite'' = Ok (VSuite (Suite opts)) \<and>
    Socket_GetOption s ''qzmq.encrypted'' = Ok (VBool True) \<and>
    (s_socket s = z \<longrightarrow> fst (Send lib s data) = Ok () \<and> s_socket (snd (Send lib s data)) = z')"
proof -
  from assms(1) have t: "t_backend t = BackendGo" "\<not> t_closed t" "Suite (t_opts t) = Suite opts"
    and pol: "pq_policy opts" by (simp_all add: New_Ok_iff)
  with assms(3) obtain s where new: "newGoSocket lib ty (t_opts t) = Ok s" and s: "h' a = Some s"
    by (auto simp: NewSocket_def Let_def split: result.splits option.splits)
  from new have opts: "s_opts s = t_opts t" "\<not> s_closed s"
    by (auto simp: newGoSocket_def split: SocketType.splits option.splits)
  have "KEM (Suite opts) \<noteq> X25519" using pol assms(2) by (simp add: pq_policy_def)
  then have "KemAlgorithm_code (KEM (Suite opts)) \<noteq> 0" by (cases "KEM (Suite opts)") simp_all
  with s opts t assms(4) show ?thesis
    by (auto simp: Socket_GetOption_def Send_def Let_def)
qed

theorem pq_only_socket_sends_plaintext_witness:
  "\<exists>t t' h' s. New ConservativeOptions = Ok t \<and>
     NewSocket echo_lib t Map.empty PUSH 3 = (Ok 3, t', h') \<and> h' 3 = Some s \<and>
     Socket_GetOption s ''qzmq.encrypted'' = Ok (VBool True)"
proof -
  have new: "New ConservativeOptions = Ok \<lparr>t_opts = ConservativeOptions, t_backend = BackendGo,
      t_sockets = Some [], t_stats = zeroStats, t_options = None, t_closed = False\<rparr>"
    unfolding New_Ok_iff
    by (simp add: pq_policy_def ConservativeOptions_def DefaultOptions_def fillKeyRotation_def)
  have mode: "Mode ConservativeOptions = ModePQOnly" by (simp add: ConservativeOptions_def)
  obtain t' h' where sock: "NewSocket echo_lib \<lparr>t_opts = ConservativeOptions, t_backend = BackendGo,
      t_sockets = Some [], t_stats = zeroStats, t_options = None, t_closed = False\<rparr> Map.empty PUSH 3
      = (Ok 3, t', h')"
    by (simp add: NewSocket_def newGoSocket_def echo_lib_def)
  have "zmq_Send echo_lib [] (zmq_NewMsg echo_lib [1]) = (Ok (), [\<lparr>Frames = [[1]]\<rparr>])"
    by (simp add: echo_lib_def)
  from pq_only_socket_sends_plaintext [OF new mode sock this] new sock show ?thesis by blast
qed

end
